(* ===== verification/Prelude.thy ===== *)
theory Prelude
  imports Main "HOL-Library.Word"
begin

text \<open>
  What every component shares. A run of the C or C++ code that reaches undefined
  behaviour, or a failed assert, is a \<open>fault\<close>: an operation returns
  \<open>fault + 'a\<close>, and \<open>and_then\<close> sequences two of them. \<open>to_s32\<close> and \<open>to_u32\<close>
  are the conversions to \<^verbatim>\<open>int32_t\<close> and \<^verbatim>\<open>uint32_t\<close>, \<open>c_int\<close> the conversion of a
  \<^verbatim>\<open>size_t\<close> to \<^verbatim>\<open>int\<close>. \<open>slot_index\<close> is the loop
  \<^verbatim>\<open>for(i=0;i<v.size();++i) if (p(v[i])) break;\<close> with which the code searches every
  vector: it yields the first index that satisfies the test, or the size.
\<close>

section \<open>Faults and sequencing\<close>

datatype fault =
    NullDeref \<comment> \<open>a null pointer is read through\<close>
  | OutOfBounds \<comment> \<open>a vector or buffer is indexed outside its range\<close>
  | UninitRead \<comment> \<open>a field that was never written is read\<close>
  | DoubleFree \<comment> \<open>a block is passed to free twice\<close>
  | UseAfterFree \<comment> \<open>a block is used that realloc moved elsewhere\<close>
  | AssertFailed
  | SignedOverflow
  | BadIterator \<comment> \<open>an iterator is advanced past the end of its list\<close>

definition and_then :: "fault + 'a \<Rightarrow> ('a \<Rightarrow> fault + 'b) \<Rightarrow> fault + 'b" where
  "and_then r f = (case r of Inl e \<Rightarrow> Inl e | Inr x \<Rightarrow> f x)"

named_theorems fault_simps \<comment> \<open>results of sequenced operations, taken apart\<close>

lemma and_then_Inl [simp]: "and_then (Inl e) f = Inl e"
  by (simp add: and_then_def)

lemma and_then_Inr [simp]: "and_then (Inr x) f = f x"
  by (simp add: and_then_def)

lemma and_then_eq_Inr [fault_simps]:
  "and_then r f = Inr y \<longleftrightarrow> (\<exists>x. r = Inr x \<and> f x = Inr y)"
  by (cases r) auto

lemma and_then_eq_Inl [fault_simps]:
  "and_then r f = Inl e \<longleftrightarrow> r = Inl e \<or> (\<exists>x. r = Inr x \<and> f x = Inl e)"
  by (cases r) auto

declare case_prod_unfold [fault_simps]

lemma and_then_assoc:
  "and_then (and_then r f) g = and_then r (\<lambda>x. and_then (f x) g)"
  by (cases r) auto

lemma and_then_cong [fundef_cong]:
  "r = r' \<Longrightarrow> (\<And>x. r' = Inr x \<Longrightarrow> f x = f' x) \<Longrightarrow> and_then r f = and_then r' f'"
  by (cases r') auto

text \<open>A result with a value, a state and a world, by cases.\<close>

lemma result_cases:
  obtains (fault) e where "r = Inl e" | (ok) a b c where "r = Inr ((a, b), c)"
  by (metis obj_sumE surj_pair)

lemma state_cases:
  obtains (fault) e where "r = Inl e" | (ok) a b where "r = Inr (a, b)"
  by (metis obj_sumE surj_pair)

section \<open>Integer conversions\<close>

type_synonym u32 = "32 word"

definition to_s32 :: "int \<Rightarrow> int" where
  "to_s32 i = signed_take_bit 31 i"

definition to_u32 :: "int \<Rightarrow> int" where
  "to_u32 i = take_bit 32 i"

definition c_int :: "nat \<Rightarrow> int" where
  "c_int n = to_s32 (int n)"

lemma to_s32_id: "- (2 ^ 31) \<le> i \<Longrightarrow> i < 2 ^ 31 \<Longrightarrow> to_s32 i = i"
  by (simp add: to_s32_def signed_take_bit_int_eq_self)

lemma to_s32_bounds: "- (2 ^ 31) \<le> to_s32 i \<and> to_s32 i < 2 ^ 31"
  using signed_take_bit_int_greater_eq_minus_exp [of 31 i] signed_take_bit_int_less_exp [of 31 i]
  by (simp add: to_s32_def)

lemma to_u32_id: "0 \<le> i \<Longrightarrow> i < 2 ^ 32 \<Longrightarrow> to_u32 i = i"
  by (simp add: to_u32_def take_bit_int_eq_self)

lemma to_u32_bounds: "0 \<le> to_u32 i \<and> to_u32 i < 2 ^ 32"
  using take_bit_int_less_exp [of 32 i] by (simp add: to_u32_def)

lemma to_s32_of_u32: "to_s32 (to_u32 i) = to_s32 i"
  by (simp add: to_s32_def to_u32_def signed_take_bit_take_bit)

lemma c_int_small: "n < 2 ^ 31 \<Longrightarrow> c_int n = int n"
  by (simp add: c_int_def to_s32_id)

section \<open>Searching a vector\<close>

fun slot_index :: "('a \<Rightarrow> bool) \<Rightarrow> 'a list \<Rightarrow> nat" where
  "slot_index p [] = 0"
| "slot_index p (x # xs) = (if p x then 0 else Suc (slot_index p xs))"

lemma slot_index_le [simp]: "slot_index p xs \<le> length xs"
  by (induction xs) auto

lemma slot_index_less_iff: "slot_index p xs < length xs \<longleftrightarrow> (\<exists>x \<in> set xs. p x)"
  by (induction xs) auto

lemma slot_index_none: "\<not> (\<exists>x \<in> set xs. p x) \<Longrightarrow> slot_index p xs = length xs"
  by (induction xs) auto

lemma slot_index_nth: "slot_index p xs < length xs \<Longrightarrow> p (xs ! slot_index p xs)"
  by (induction xs) auto

lemma slot_index_before: "j < slot_index p xs \<Longrightarrow> \<not> p (xs ! j)"
  by (induction xs arbitrary: j) (auto simp: nth_Cons less_Suc_eq_0_disj split: if_splits)

lemma slot_index_least: "j < length xs \<Longrightarrow> p (xs ! j) \<Longrightarrow> slot_index p xs \<le> j"
  using slot_index_before not_le by blast

lemma slot_index_eqI:
  "i < length xs \<Longrightarrow> p (xs ! i) \<Longrightarrow> (\<And>j. j < i \<Longrightarrow> \<not> p (xs ! j)) \<Longrightarrow> slot_index p xs = i"
  by (metis le_neq_implies_less le_trans less_imp_le_nat not_le slot_index_least slot_index_nth
      order.strict_trans1)

lemma slot_index_append:
  "slot_index p (xs @ ys) =
     (if slot_index p xs < length xs then slot_index p xs else length xs + slot_index p ys)"
  by (induction xs) auto

section \<open>Lists\<close>

lemma nth_list_update_if:
  "j < length xs \<Longrightarrow> (xs[i := x]) ! j = (if i = j then x else xs ! j)"
  by (simp add: nth_list_update)

lemma set_list_update_sub: "set (xs[i := x]) \<subseteq> insert x (set xs)"
  by (rule set_update_subset_insert)

lemma filter_list_update_drop:
  "i < length xs \<Longrightarrow> \<not> P x \<Longrightarrow> P (xs ! i) \<Longrightarrow>
   filter P (xs[i := x]) = filter P (take i xs) @ filter P (drop (Suc i) xs)"
  by (simp add: upd_conv_take_nth_drop)

text \<open>An association list with distinct keys, updated, erased from and extended.\<close>

lemma map_of_list_update:
  "distinct (map fst xs) \<Longrightarrow> i < length xs \<Longrightarrow> fst x = fst (xs ! i) \<Longrightarrow>
   map_of (xs[i := x]) = (map_of xs)(fst x \<mapsto> snd x)"
proof (induction xs arbitrary: i)
  case Nil
  then show ?case by simp
next
  case (Cons y ys)
  show ?case
  proof (cases i)
    case 0
    with Cons.prems show ?thesis by (cases x, cases y) (simp add: fun_eq_iff)
  next
    case (Suc j)
    with Cons.prems have "fst y \<noteq> fst x" by auto
    with Suc Cons show ?thesis by (cases y) (auto simp: fun_eq_iff)
  qed
qed

lemma map_of_erase:
  "distinct (map fst xs) \<Longrightarrow> i < length xs \<Longrightarrow>
   map_of (take i xs @ drop (Suc i) xs) = (map_of xs)(fst (xs ! i) := None)"
proof (induction xs arbitrary: i)
  case Nil
  then show ?case by simp
next
  case (Cons y ys)
  show ?case
  proof (cases i)
    case 0
    with Cons.prems have "map_of ys (fst y) = None" by (simp add: map_of_eq_None_iff)
    with 0 show ?thesis by (cases y) (auto simp: fun_eq_iff)
  next
    case (Suc j)
    with Cons.prems have "fst y \<noteq> fst (ys ! j)" by (metis length_Cons Suc_less_eq distinct.simps(2)
          list.simps(9) nth_map nth_mem length_map)
    with Suc Cons show ?thesis by (cases y) (auto simp: fun_eq_iff)
  qed
qed

lemma map_of_snoc: "k \<notin> fst ` set xs \<Longrightarrow> map_of (xs @ [(k, v)]) = (map_of xs)(k \<mapsto> v)"
  by (induction xs) (auto simp: fun_eq_iff)

lemma distinct_erase: "distinct xs \<Longrightarrow> distinct (take i xs @ drop (Suc i) xs)"
  using set_take_disj_set_drop_if_distinct [of xs i "Suc i"] by simp

end
