(* ===== verification/Posix.thy ===== *)
theory Posix
  imports Prelude
begin

text \<open>
  The operating system and the libraries the server links to, none of which is code of
  the repository: a record of functions, the parameter \<open>K\<close> of every definition that
  calls out. Each call takes the state \<open>'w\<close> of the outside world and returns the new
  one, so the order of calls is part of the model and nothing is assumed about what a
  call answers. \<open>demo_os\<close> is one concrete instance, whose world is the log of the calls
  made; it serves the concrete runs only.
\<close>

record 'w posix =
  px_malloc :: "nat \<Rightarrow> 'w \<Rightarrow> bool \<times> 'w" \<comment> \<open>did the allocation succeed?\<close>
  px_realloc :: "nat option \<Rightarrow> nat \<Rightarrow> 'w \<Rightarrow> nat option \<times> 'w"
  px_open :: "string \<Rightarrow> int \<Rightarrow> int \<Rightarrow> 'w \<Rightarrow> int \<times> 'w" \<comment> \<open>path, flags, mode\<close>
  px_close :: "int \<Rightarrow> 'w \<Rightarrow> int \<times> 'w"
  px_read :: "int \<Rightarrow> nat \<Rightarrow> 'w \<Rightarrow> (int \<times> string) \<times> 'w" \<comment> \<open>return value, bytes stored\<close>
  px_write :: "int \<Rightarrow> string \<Rightarrow> 'w \<Rightarrow> int \<times> 'w"
  px_stat_mode :: "string \<Rightarrow> 'w \<Rightarrow> nat option" \<comment> \<open>st_mode, None if stat fails\<close>
  px_fork :: "'w \<Rightarrow> int \<times> 'w"
  px_getpid :: "'w \<Rightarrow> int"
  px_setsid :: "'w \<Rightarrow> int \<times> 'w"
  px_open_max :: "'w \<Rightarrow> int" \<comment> \<open>sysconf(_SC_OPEN_MAX)\<close>
  px_dlopen :: "string \<Rightarrow> 'w \<Rightarrow> nat option \<times> 'w"
  px_dlsym :: "nat \<Rightarrow> string \<Rightarrow> 'w \<Rightarrow> nat option"
  px_dlclose :: "nat \<Rightarrow> 'w \<Rightarrow> 'w"
  px_restart :: "nat \<Rightarrow> string list option \<Rightarrow> 'w \<Rightarrow> 'w" \<comment> \<open>call of a loaded program's \<^verbatim>\<open>_restart\<close> with an environment\<close>
  px_socket :: "'w \<Rightarrow> int \<times> 'w"
  px_bind :: "int \<Rightarrow> int \<Rightarrow> 'w \<Rightarrow> int \<times> 'w" \<comment> \<open>socket, port\<close>
  px_listen :: "int \<Rightarrow> 'w \<Rightarrow> int \<times> 'w"
  px_accept :: "int \<Rightarrow> 'w \<Rightarrow> int \<times> 'w"
  px_select :: "int list \<Rightarrow> 'w \<Rightarrow> int list option \<times> 'w" \<comment> \<open>ready sockets, None on error\<close>
  px_gethostbyname :: "string \<Rightarrow> 'w \<Rightarrow> nat option \<times> 'w"
  px_connect :: "int \<Rightarrow> nat \<Rightarrow> int \<Rightarrow> 'w \<Rightarrow> int \<times> 'w" \<comment> \<open>socket, host, port\<close>
  px_sqlite_open :: "string option \<Rightarrow> 'w \<Rightarrow> int \<times> 'w"
  px_sqlite_exec :: "string \<Rightarrow> 'w \<Rightarrow> (nat \<times> int) \<times> 'w" \<comment> \<open>rows handed to the callback, status\<close>
  px_sqlite_close :: "'w \<Rightarrow> 'w"

text \<open>
  A run of allocations that stops at the first one that fails, as every copy loop of the
  code does. \<open>cstr_size s\<close> is \<^verbatim>\<open>strlen(s)+1\<close>.
\<close>

definition cstr_size :: "string \<Rightarrow> nat" where
  "cstr_size s = length s + 1"

fun mallocs :: "'w posix \<Rightarrow> nat list \<Rightarrow> 'w \<Rightarrow> bool \<times> 'w" where
  "mallocs K [] w = (True, w)"
| "mallocs K (n # ns) w =
     (case px_malloc K n w of (ok, w') \<Rightarrow> if ok then mallocs K ns w' else (False, w'))"

definition malloc_total :: "'w posix \<Rightarrow> bool" where
  "malloc_total K \<longleftrightarrow> (\<forall>n w. fst (px_malloc K n w))"

lemma mallocs_total [simp]: "malloc_total K \<Longrightarrow> fst (mallocs K ns w)"
proof (induction ns arbitrary: w)
  case Nil
  show ?case by simp
next
  case (Cons n ns)
  obtain ok w' where m: "px_malloc K n w = (ok, w')" by (cases "px_malloc K n w")
  moreover from Cons.prems have "fst (px_malloc K n w)" by (simp add: malloc_total_def)
  ultimately show ?case using Cons.IH [OF Cons.prems, of w'] by simp
qed

lemma mallocs_append:
  "mallocs K (ms @ ns) w =
     (case mallocs K ms w of (ok, w') \<Rightarrow> if ok then mallocs K ns w' else (False, w'))"
proof (induction ms arbitrary: w)
  case Nil
  show ?case by simp
next
  case (Cons m ms)
  show ?case
    by (cases "px_malloc K m w") (simp add: Cons.IH)
qed

section \<open>A concrete instance\<close>

datatype os_call =
    CallMalloc nat
  | CallOpen string int int
  | CallClose int
  | CallRead int nat
  | CallWrite int string
  | CallFork
  | CallDlopen string
  | CallConnect int nat int
  | CallSetenv string string
  | CallPrint string
  | CallSqliteClose

definition demo_os :: "int \<Rightarrow> int \<Rightarrow> os_call list posix" where
  "demo_os forkret pid =
     \<lparr> px_malloc = (\<lambda>n w. (True, w)),
       px_realloc = (\<lambda>p n w. (case p of None \<Rightarrow> Some 4096 | Some b \<Rightarrow> if n = 0 then None else Some b, w)),
       px_open = (\<lambda>p fl md w. (17, w @ [CallOpen p fl md])),
       px_close = (\<lambda>fd w. (0, w @ [CallClose fd])),
       px_read = (\<lambda>fd n w. ((int (length (take n ''stop'')), take n ''stop''), w @ [CallRead fd n])),
       px_write = (\<lambda>fd s w. (int (length s), w @ [CallWrite fd s])),
       px_stat_mode = (\<lambda>p w. Some 16877),
       px_fork = (\<lambda>w. (forkret, w @ [CallFork])),
       px_getpid = (\<lambda>w. pid),
       px_setsid = (\<lambda>w. (1, w)),
       px_open_max = (\<lambda>w. 4),
       px_dlopen = (\<lambda>p w. (Some 1, w @ [CallDlopen p])),
       px_dlsym = (\<lambda>h s w. Some 2),
       px_dlclose = (\<lambda>h w. w),
       px_restart = (\<lambda>r e w. w),
       px_socket = (\<lambda>w. (5, w)),
       px_bind = (\<lambda>fd p w. (0, w)),
       px_listen = (\<lambda>fd w. (0, w)),
       px_accept = (\<lambda>fd w. (9, w)),
       px_select = (\<lambda>fds w. (Some [], w)),
       px_gethostbyname = (\<lambda>h w. (Some 1, w)),
       px_connect = (\<lambda>fd h p w. (0, w @ [CallConnect fd h p])),
       px_sqlite_open = (\<lambda>p w. (0, w)),
       px_sqlite_exec = (\<lambda>q w. ((1, 0), w)),
       px_sqlite_close = (\<lambda>w. w @ [CallSqliteClose]) \<rparr>"

lemma malloc_total_demo_os [simp]: "malloc_total (demo_os f p)"
  by (simp add: malloc_total_def demo_os_def)

lemma mallocs_demo_os [simp]: "mallocs (demo_os f p) ns w = (True, w)"
  by (induction ns) (simp_all add: demo_os_def)

end
