(* ===== verification/Sockets.thy ===== *)
theory Sockets
  imports Posix
begin

text \<open>
  \<^verbatim>\<open>src/server/net\<close>, \<^verbatim>\<open>connection.cpp\<close>: the class \<^verbatim>\<open>Socket\<close>, its subclass \<^verbatim>\<open>SocketTcp\<close>
  and \<^verbatim>\<open>Connection\<close>. A \<^verbatim>\<open>Socket *\<close> is an index into the list of all socket objects, since
  connections, tty devices and descriptors share them. The two constructors set \<open>sk_type\<close>
  to the class of the object, on which the virtual calls are dispatched here. The fields
  \<^verbatim>\<open>addr\<close>, \<^verbatim>\<open>addrLen\<close> and \<^verbatim>\<open>server\<close> of \<^verbatim>\<open>SocketTcp\<close> are written and passed to connect(2)
  only, and are not kept.
\<close>

datatype sock_dir = DirectionNone | DirectionIn | DirectionOut | DirectionInOut

datatype sock_type = TypeNone | TypeTcp

datatype tcp_state = StateNone | StateClient | StateServer

record socket =
  sk_dir :: sock_dir
  sk_type :: sock_type
  sk_state :: tcp_state
  sk_sockFd :: "int option" \<comment> \<open>not written before connect or listen\<close>

definition Socket_new :: socket where
  "Socket_new = \<lparr>sk_dir = DirectionNone, sk_type = TypeNone, sk_state = StateNone, sk_sockFd = None\<rparr>"

definition SocketTcp_new :: socket where
  "SocketTcp_new = Socket_new\<lparr>sk_state := StateNone, sk_type := TypeTcp\<rparr>"

definition sock_fd :: "socket \<Rightarrow> fault + int" where
  "sock_fd sk = (case sk_sockFd sk of None \<Rightarrow> Inl UninitRead | Some fd \<Rightarrow> Inr fd)"

text \<open>The class \<^verbatim>\<open>Socket\<close>, whose operations all fail.\<close>

definition Socket_write :: "string \<Rightarrow> int" where
  "Socket_write data = -1"

definition Socket_read :: "nat \<Rightarrow> int \<times> string" where
  "Socket_read maxn = (-1, [])"

definition Socket_open :: bool where
  "Socket_open = False"

definition Socket_close :: bool where
  "Socket_close = False"

text \<open>
  The functions outside the class, under whose names the methods reach connect(2), read(2),
  write(2) and close(2).
\<close>

definition wrapperConnect :: "'w posix \<Rightarrow> int \<Rightarrow> nat \<Rightarrow> int \<Rightarrow> 'w \<Rightarrow> int \<times> 'w" where
  [simp]: "wrapperConnect K sockfd host port w = px_connect K sockfd host port w"

definition wrapperRead :: "'w posix \<Rightarrow> int \<Rightarrow> nat \<Rightarrow> 'w \<Rightarrow> (int \<times> string) \<times> 'w" where
  [simp]: "wrapperRead K fd count w = px_read K fd count w"

definition wrapperWrite :: "'w posix \<Rightarrow> int \<Rightarrow> string \<Rightarrow> 'w \<Rightarrow> int \<times> 'w" where
  [simp]: "wrapperWrite K fd data w = px_write K fd data w"

definition wrapperClose :: "'w posix \<Rightarrow> int \<Rightarrow> 'w \<Rightarrow> int \<times> 'w" where
  [simp]: "wrapperClose K fd w = px_close K fd w"

text \<open>The class \<^verbatim>\<open>SocketTcp\<close>.\<close>

definition SocketTcp_write :: "'w posix \<Rightarrow> socket \<Rightarrow> string \<Rightarrow> 'w \<Rightarrow> fault + (int \<times> 'w)" where
  "SocketTcp_write K sk data w =
     (if sk_state sk \<noteq> StateNone
      then and_then (sock_fd sk) (\<lambda>fd. Inr (wrapperWrite K fd data w))
      else Inr (-1, w))"

definition SocketTcp_read ::
    "'w posix \<Rightarrow> socket \<Rightarrow> nat \<Rightarrow> 'w \<Rightarrow> fault + ((int \<times> string) \<times> 'w)" where
  "SocketTcp_read K sk maxn w =
     (if sk_state sk \<noteq> StateNone
      then and_then (sock_fd sk) (\<lambda>fd. Inr (wrapperRead K fd maxn w))
      else Inr ((-1, []), w))"

definition SocketTcp_open :: bool where
  "SocketTcp_open = True"

definition SocketTcp_close ::
    "'w posix \<Rightarrow> socket \<Rightarrow> 'w \<Rightarrow> fault + ((bool \<times> socket) \<times> 'w)" where
  "SocketTcp_close K sk w =
     (if sk_state sk = StateNone then Inr ((False, sk), w)
      else and_then (sock_fd sk) (\<lambda>fd.
        case wrapperClose K fd w of (r, w') \<Rightarrow>
          if r = -1 then Inr ((False, sk), w')
          else Inr ((True, sk\<lparr>sk_state := StateServer, sk_dir := DirectionNone\<rparr>), w')))"

lemmas socket_classes =
  Socket_write_def Socket_read_def Socket_open_def Socket_close_def
  SocketTcp_write_def SocketTcp_read_def SocketTcp_open_def SocketTcp_close_def

declare socket_classes [simp]

text \<open>The virtual functions of \<^verbatim>\<open>Socket\<close>, dispatched on the class.\<close>

definition sock_write :: "'w posix \<Rightarrow> socket \<Rightarrow> string \<Rightarrow> 'w \<Rightarrow> fault + (int \<times> 'w)" where
  "sock_write K sk data w =
     (case sk_type sk of
        TypeNone \<Rightarrow> Inr (Socket_write data, w)
      | TypeTcp \<Rightarrow> SocketTcp_write K sk data w)"

definition sock_read ::
    "'w posix \<Rightarrow> socket \<Rightarrow> nat \<Rightarrow> 'w \<Rightarrow> fault + ((int \<times> string) \<times> 'w)" where
  "sock_read K sk maxn w =
     (case sk_type sk of
        TypeNone \<Rightarrow> Inr (Socket_read maxn, w)
      | TypeTcp \<Rightarrow> SocketTcp_read K sk maxn w)"

definition sock_open :: "socket \<Rightarrow> bool" where
  "sock_open sk = (case sk_type sk of TypeNone \<Rightarrow> Socket_open | TypeTcp \<Rightarrow> SocketTcp_open)"

definition sock_close :: "'w posix \<Rightarrow> socket \<Rightarrow> 'w \<Rightarrow> fault + ((bool \<times> socket) \<times> 'w)" where
  "sock_close K sk w =
     (case sk_type sk of
        TypeNone \<Rightarrow> Inr ((Socket_close, sk), w)
      | TypeTcp \<Rightarrow> SocketTcp_close K sk w)"

definition tcp_connect ::
    "'w posix \<Rightarrow> string \<Rightarrow> int \<Rightarrow> socket \<Rightarrow> 'w \<Rightarrow> fault + ((bool \<times> socket) \<times> 'w)" where
  "tcp_connect K addrStr port sk w =
     (if sk_state sk \<noteq> StateNone then Inr ((False, sk), w)
      else case px_socket K w of (fd, w1) \<Rightarrow>
        (let sk1 = sk\<lparr>sk_sockFd := Some fd\<rparr>
         in if fd < 0 then Inr ((False, sk1), w1)
            else case px_gethostbyname K addrStr w1 of
              (None, w2) \<Rightarrow> Inl NullDeref
            | (Some host, w2) \<Rightarrow>
                (case wrapperConnect K fd host port w2 of (r, w3) \<Rightarrow>
                  if r < 0 then Inr ((False, sk1), w3)
                  else Inr ((True, sk1\<lparr>sk_state := StateClient, sk_dir := DirectionInOut\<rparr>), w3))))"

definition tcp_listen :: "int \<Rightarrow> socket \<Rightarrow> bool \<times> socket" where
  "tcp_listen asockFd sk =
     (if sk_state sk \<noteq> StateNone then (False, sk)
      else (True, sk\<lparr>sk_sockFd := Some asockFd, sk_state := StateServer,
                     sk_dir := DirectionInOut\<rparr>))"

section \<open>Connections\<close>

datatype con_type = ConNone | ConTTY

record connection =
  con_sock :: nat \<comment> \<open>the socket, by index\<close>
  con_type :: con_type

definition Connection_new :: "nat \<Rightarrow> connection" where
  "Connection_new s = \<lparr>con_sock = s, con_type = ConNone\<rparr>"

definition sock_at :: "socket list \<Rightarrow> nat \<Rightarrow> fault + socket" where
  "sock_at socks i = (if i < length socks then Inr (socks ! i) else Inl NullDeref)"

definition con_write ::
    "'w posix \<Rightarrow> socket list \<Rightarrow> connection \<Rightarrow> string \<Rightarrow> 'w \<Rightarrow> fault + (int \<times> 'w)" where
  "con_write K socks con data w =
     and_then (sock_at socks (con_sock con)) (\<lambda>sk. sock_write K sk data w)"

definition con_read ::
    "'w posix \<Rightarrow> socket list \<Rightarrow> connection \<Rightarrow> nat \<Rightarrow> 'w \<Rightarrow> fault + ((int \<times> string) \<times> 'w)" where
  "con_read K socks con maxn w =
     and_then (sock_at socks (con_sock con)) (\<lambda>sk. sock_read K sk maxn w)"

section \<open>Well-formed sockets\<close>

text \<open>A socket that left \<open>StateNone\<close> has its descriptor; so no call reads it unwritten.\<close>

definition sock_wf :: "socket \<Rightarrow> bool" where
  "sock_wf sk \<longleftrightarrow> (sk_state sk \<noteq> StateNone \<longrightarrow> sk_sockFd sk \<noteq> None)"

lemma sock_wf_new: "sock_wf Socket_new" "sock_wf SocketTcp_new"
  by (simp_all add: sock_wf_def Socket_new_def SocketTcp_new_def)

lemma sock_wf_listen: "sock_wf sk \<Longrightarrow> sock_wf (snd (tcp_listen fd sk))"
  by (simp add: sock_wf_def tcp_listen_def)

lemma sock_wf_close: "sock_wf sk \<Longrightarrow> sock_close K sk w = Inr ((b, sk'), w') \<Longrightarrow> sock_wf sk'"
  by (auto simp: sock_wf_def sock_close_def fault_simps
      split: sock_type.splits if_splits)

lemma sock_wf_connect:
  "sock_wf sk \<Longrightarrow> tcp_connect K a p sk w = Inr ((b, sk'), w') \<Longrightarrow> sock_wf sk'"
  by (auto simp: sock_wf_def tcp_connect_def Let_def fault_simps
      split: if_splits option.splits)

lemma sock_no_fault:
  assumes "sock_wf sk"
  shows "sock_write K sk d w \<noteq> Inl e" "sock_read K sk n w \<noteq> Inl e" "sock_close K sk w \<noteq> Inl e"
  using assms
  by (auto simp: sock_write_def sock_read_def sock_close_def sock_wf_def sock_fd_def
      case_prod_unfold split: sock_type.splits option.splits)

lemma sock_close_keeps:
  "sock_close K sk w = Inr ((b, sk'), w') \<Longrightarrow>
   sk_sockFd sk' = sk_sockFd sk \<and> sk_type sk' = sk_type sk \<and>
   (sk_state sk' = StateNone \<longleftrightarrow> sk_state sk = StateNone)"
  by (auto simp: sock_close_def fault_simps split: sock_type.splits if_splits)

end
