(* ===== verification/CString.thy ===== *)
theory CString
  imports Prelude
begin

text \<open>
  The functions of the C library that the code calls on strings. A C string is the
  \<open>char list\<close> before its terminating NUL; a buffer is a \<open>char list\<close> that may hold NUL
  bytes, and \<open>c_str\<close> reads the string a buffer holds. Comparisons are the tests
  \<^verbatim>\<open>!strncmp(..)\<close> and so on that the code writes.
\<close>

abbreviation NUL :: char where
  "NUL \<equiv> CHR 0x00"

definition c_str :: "string \<Rightarrow> string" where
  "c_str buf = takeWhile (\<lambda>c. c \<noteq> NUL) buf"

definition strncmp_eq :: "string \<Rightarrow> string \<Rightarrow> nat \<Rightarrow> bool" where
  "strncmp_eq s t n \<longleftrightarrow> take n (s @ [NUL]) = take n (t @ [NUL])"

definition starts_with :: "string \<Rightarrow> string \<Rightarrow> bool" where
  "starts_with p s \<longleftrightarrow> take (length p) s = p"

fun strchr :: "string \<Rightarrow> char \<Rightarrow> nat option" where
  "strchr [] c = None"
| "strchr (x # xs) c = (if x = c then Some 0 else map_option Suc (strchr xs c))"

fun strstr :: "string \<Rightarrow> string \<Rightarrow> nat option" where
  "strstr [] needle = (if needle = [] then Some 0 else None)"
| "strstr (x # xs) needle =
     (if starts_with needle (x # xs) then Some 0 else map_option Suc (strstr xs needle))"

definition strtok_r :: "string \<Rightarrow> string \<Rightarrow> string option \<times> string" where
  \<comment> \<open>the token and what the save pointer is left at\<close>
  "strtok_r s delims =
     (let t = dropWhile (\<lambda>c. c \<in> set delims) s
      in if t = [] then (None, [])
         else (Some (takeWhile (\<lambda>c. c \<notin> set delims) t),
               drop 1 (dropWhile (\<lambda>c. c \<notin> set delims) t)))"

definition strip_slashes :: "string \<Rightarrow> string" where
  "strip_slashes s = rev (dropWhile (\<lambda>c. c = CHR ''/'') (rev s))"

definition dirname :: "string \<Rightarrow> string" where
  "dirname p =
     (let q = strip_slashes p;
          d = rev (dropWhile (\<lambda>c. c \<noteq> CHR ''/'') (rev q));
          e = strip_slashes d
      in if q = [] then (if p = [] then ''.'' else ''/'')
         else if d = [] then ''.''
         else if e = [] then ''/'' else e)"

text \<open>The conversion \<^verbatim>\<open>%u\<close> of the printf functions.\<close>

fun decimal :: "nat \<Rightarrow> string" where
  "decimal n = (if n < 10 then [char_of (48 + n)] else decimal (n div 10) @ [char_of (48 + n mod 10)])"

declare decimal.simps [simp del]

section \<open>Facts about them\<close>

lemma c_str_no_NUL [simp]: "NUL \<notin> set s \<Longrightarrow> c_str s = s"
  by (induction s) (auto simp: c_str_def)

lemma c_str_append_NUL [simp]: "NUL \<notin> set s \<Longrightarrow> c_str (s @ NUL # t) = s"
  by (induction s) (auto simp: c_str_def)

lemma NUL_notin_c_str [simp]: "NUL \<notin> set (c_str s)"
  by (auto simp: c_str_def dest: set_takeWhileD)

lemma length_c_str_le: "length (c_str s) \<le> length s"
  by (simp add: c_str_def length_takeWhile_le)

lemma strncmp_eq_prefix:
  assumes "NUL \<notin> set p"
  shows "strncmp_eq s p (length p) \<longleftrightarrow> starts_with p s"
proof -
  have "take (length p) (s @ [NUL]) = p \<longleftrightarrow> take (length p) s = p"
  proof (cases "length p \<le> length s")
    case True
    then show ?thesis by simp
  next
    case False
    then have "take (length p) (s @ [NUL]) = s @ [NUL]" by simp
    moreover from False have "take (length p) s = s" by simp
    ultimately show ?thesis using assms False by auto
  qed
  then show ?thesis by (simp add: strncmp_eq_def starts_with_def)
qed

lemma starts_with_iff: "starts_with p s \<longleftrightarrow> (\<exists>t. s = p @ t)"
  by (metis append_take_drop_id append_eq_conv_conj starts_with_def)

lemma starts_with_append [simp]: "starts_with p (p @ t)"
  by (simp add: starts_with_def)

lemma strstr_Some:
  "strstr h n = Some k \<Longrightarrow> k \<le> length h \<and> starts_with n (drop k h) \<and>
     (\<forall>j < k. \<not> starts_with n (drop j h))"
proof (induction h arbitrary: k)
  case Nil
  then show ?case by (auto simp: starts_with_def split: if_splits)
next
  case (Cons x xs)
  show ?case
  proof (cases "starts_with n (x # xs)")
    case True
    with Cons.prems show ?thesis by simp
  next
    case False
    with Cons.prems obtain k' where k': "strstr xs n = Some k'" "k = Suc k'" by auto
    from Cons.IH [OF k'(1)] False k'(2) show ?thesis
      by (auto simp: less_Suc_eq_0_disj)
  qed
qed

lemma strstr_None: "strstr h n = None \<Longrightarrow> n \<noteq> [] \<Longrightarrow> \<not> starts_with n (drop j h)"
proof (induction h arbitrary: j)
  case Nil
  then show ?case by (simp add: starts_with_def)
next
  case (Cons x xs)
  then show ?case by (cases j) (auto split: if_splits)
qed

lemma strchr_Some:
  "strchr s c = Some i \<Longrightarrow> i < length s \<and> s ! i = c \<and> c \<notin> set (take i s)"
  by (induction s arbitrary: i) (auto split: if_splits)

lemma strchr_None: "strchr s c = None \<longleftrightarrow> c \<notin> set s"
  by (induction s) auto

lemma strtok_r_Some:
  assumes "strtok_r s d = (Some t, r)"
  shows "t \<noteq> [] \<and> set t \<inter> set d = {} \<and> length r < length s"
proof -
  define u where "u = dropWhile (\<lambda>c. c \<in> set d) s"
  from assms have "u \<noteq> []" and t: "t = takeWhile (\<lambda>c. c \<notin> set d) u"
    and r: "r = drop 1 (dropWhile (\<lambda>c. c \<notin> set d) u)"
    by (auto simp: strtok_r_def u_def Let_def split: if_splits)
  then obtain x v where u: "u = x # v" by (cases u) auto
  have x: "x \<notin> set d"
    using u by (simp add: u_def dropWhile_eq_Cons_conv)
  have len: "length u \<le> length s"
    unfolding u_def by (rule length_dropWhile_le)
  have rv: "r = drop 1 (dropWhile (\<lambda>c. c \<notin> set d) v)"
    using r u x by simp
  have "length r \<le> length v"
    unfolding rv using length_dropWhile_le [of "\<lambda>c. c \<notin> set d" v] by simp
  moreover have "t \<noteq> []" using t u x by simp
  moreover have "set t \<inter> set d = {}" using t by (auto dest: set_takeWhileD)
  ultimately show ?thesis using len u by simp
qed

lemma length_decimal: "n < 10 ^ k \<Longrightarrow> 0 < k \<Longrightarrow> length (decimal n) \<le> k"
proof (induction n arbitrary: k rule: decimal.induct)
  case (1 n)
  show ?case
  proof (cases "n < 10")
    case True
    with 1 show ?thesis by (simp add: decimal.simps [of n])
  next
    case False
    with 1(2,3) obtain j where j: "k = Suc j" "0 < j"
      by (cases k; cases "k - 1") auto
    with False 1 have "length (decimal (n div 10)) \<le> j" by (simp add: div_less_iff_less_mult)
    with False j show ?thesis by (simp add: decimal.simps [of n])
  qed
qed

end
