(* ===== verification/DeviceIO.thy ===== *)
theory DeviceIO
  imports Sockets CString
begin

text \<open>
  \<^verbatim>\<open>src/server/devices\<close>: the class \<^verbatim>\<open>Device\<close> and its subclasses, as a datatype with one
  constructor per class. \<open>buf\<close> says whether the caller's buffer is not NULL, and a read
  returns the value and the bytes it stored. The locale \<open>io_channel\<close> is what the server
  needs of anything it reads from or writes to: results within what a read(2) or
  write(2) may return.
\<close>

datatype device =
    DeviceBase
  | DeviceFull
  | DeviceNull
  | DeviceZero
  | DeviceSocket "nat option"

definition Device_write :: "string \<Rightarrow> int" where
  "Device_write data = -1"

definition Device_read :: "nat \<Rightarrow> int \<times> string" where
  "Device_read maxn = (-1, [])"

definition DeviceFull_write :: "string \<Rightarrow> int" where
  "DeviceFull_write data = -1"

definition DeviceFull_read :: "bool \<Rightarrow> nat \<Rightarrow> int \<times> string" where
  "DeviceFull_read buf maxn = (int maxn, if buf \<and> maxn > 0 then replicate maxn NUL else [])"

definition DeviceNull_write :: "string \<Rightarrow> int" where
  "DeviceNull_write data = int (length data)"

definition DeviceNull_read :: "nat \<Rightarrow> int \<times> string" where
  "DeviceNull_read maxn = (0, [])"

definition DeviceZero_write :: "string \<Rightarrow> int" where
  "DeviceZero_write data = int (length data)"

definition DeviceZero_read :: "bool \<Rightarrow> nat \<Rightarrow> int \<times> string" where
  "DeviceZero_read buf maxn = (int maxn, if buf \<and> maxn > 0 then replicate maxn NUL else [])"

definition DeviceSocket_write ::
    "'w posix \<Rightarrow> socket list \<Rightarrow> nat option \<Rightarrow> string \<Rightarrow> 'w \<Rightarrow> fault + (int \<times> 'w)" where
  "DeviceSocket_write K socks sock data w =
     (case sock of
        None \<Rightarrow> Inr (-1, w)
      | Some i \<Rightarrow> and_then (sock_at socks i) (\<lambda>sk. sock_write K sk data w))"

definition DeviceSocket_read ::
    "'w posix \<Rightarrow> socket list \<Rightarrow> nat option \<Rightarrow> nat \<Rightarrow> 'w \<Rightarrow> fault + ((int \<times> string) \<times> 'w)" where
  "DeviceSocket_read K socks sock maxn w =
     (case sock of
        None \<Rightarrow> Inr ((-1, []), w)
      | Some i \<Rightarrow> and_then (sock_at socks i) (\<lambda>sk. sock_read K sk maxn w))"

lemmas device_classes =
  Device_write_def Device_read_def DeviceFull_write_def DeviceFull_read_def DeviceNull_write_def
  DeviceNull_read_def DeviceZero_write_def DeviceZero_read_def DeviceSocket_write_def DeviceSocket_read_def

declare device_classes [simp]

text \<open>The virtual functions of \<^verbatim>\<open>Device\<close>, dispatched on the class.\<close>

definition dev_write ::
    "'w posix \<Rightarrow> socket list \<Rightarrow> device \<Rightarrow> string \<Rightarrow> 'w \<Rightarrow> fault + (int \<times> 'w)" where
  "dev_write K socks dev data w =
     (case dev of
        DeviceBase \<Rightarrow> Inr (Device_write data, w)
      | DeviceFull \<Rightarrow> Inr (DeviceFull_write data, w)
      | DeviceNull \<Rightarrow> Inr (DeviceNull_write data, w)
      | DeviceZero \<Rightarrow> Inr (DeviceZero_write data, w)
      | DeviceSocket sock \<Rightarrow> DeviceSocket_write K socks sock data w)"

definition dev_read ::
    "'w posix \<Rightarrow> socket list \<Rightarrow> device \<Rightarrow> bool \<Rightarrow> nat \<Rightarrow> 'w \<Rightarrow> fault + ((int \<times> string) \<times> 'w)" where
  "dev_read K socks dev buf maxn w =
     (case dev of
        DeviceBase \<Rightarrow> Inr (Device_read maxn, w)
      | DeviceFull \<Rightarrow> Inr (DeviceFull_read buf maxn, w)
      | DeviceNull \<Rightarrow> Inr (DeviceNull_read maxn, w)
      | DeviceZero \<Rightarrow> Inr (DeviceZero_read buf maxn, w)
      | DeviceSocket sock \<Rightarrow> DeviceSocket_read K socks sock maxn w)"

section \<open>The contract of a channel\<close>

locale io_channel =
  fixes rd :: "nat \<Rightarrow> 'w \<Rightarrow> fault + ((int \<times> string) \<times> 'w)"
    and wr :: "string \<Rightarrow> 'w \<Rightarrow> fault + (int \<times> 'w)"
  assumes rd_bound: "rd n w = Inr ((r, bs), w') \<Longrightarrow> -1 \<le> r \<and> r \<le> int n \<and> length bs \<le> n"
    and wr_bound: "wr d w = Inr (r, w') \<Longrightarrow> -1 \<le> r \<and> r \<le> int (length d)"
begin

text \<open>A count below \<open>2 ^ 31\<close> survives the conversion of the result to \<^verbatim>\<open>int32_t\<close>.\<close>

lemma rd_s32: "rd n w = Inr ((r, bs), w') \<Longrightarrow> n < 2 ^ 31 \<Longrightarrow> to_s32 r = r"
  by (drule rd_bound) (auto intro: to_s32_id)

lemma wr_s32: "wr d w = Inr (r, w') \<Longrightarrow> length d < 2 ^ 31 \<Longrightarrow> to_s32 r = r"
  by (drule wr_bound) (auto intro: to_s32_id)

lemma rd_error_or_count:
  "rd n w = Inr ((r, bs), w') \<Longrightarrow> n < 2 ^ 31 \<Longrightarrow> to_s32 r = -1 \<or> 0 \<le> to_s32 r"
  using rd_s32 [of n w r bs w'] rd_bound [of n w r bs w'] by linarith

end

text \<open>What the manual promises of read(2) and write(2).\<close>

definition px_io_sane :: "'w posix \<Rightarrow> bool" where
  "px_io_sane K \<longleftrightarrow>
     (\<forall>fd n w. -1 \<le> fst (fst (px_read K fd n w)) \<and> fst (fst (px_read K fd n w)) \<le> int n \<and>
        length (snd (fst (px_read K fd n w))) \<le> n) \<and>
     (\<forall>fd d w. -1 \<le> fst (px_write K fd d w) \<and> fst (px_write K fd d w) \<le> int (length d))"

lemma px_io_sane_demo_os: "px_io_sane (demo_os f p)"
  by (simp add: px_io_sane_def demo_os_def)

lemma px_read_sane:
  "px_io_sane K \<Longrightarrow> px_read K fd n w = ((r, bs), w') \<Longrightarrow> -1 \<le> r \<and> r \<le> int n \<and> length bs \<le> n"
  unfolding px_io_sane_def by (metis fst_conv snd_conv)

lemma px_write_sane:
  "px_io_sane K \<Longrightarrow> px_write K fd d w = (r, w') \<Longrightarrow> -1 \<le> r \<and> r \<le> int (length d)"
  unfolding px_io_sane_def by (metis fst_conv)

lemma io_channel_os: "px_io_sane K \<Longrightarrow> io_channel (\<lambda>n w. Inr (px_read K fd n w)) (\<lambda>d w. Inr (px_write K fd d w))"
  by unfold_locales (simp_all add: px_read_sane px_write_sane)

lemma sock_read_bound:
  "px_io_sane K \<Longrightarrow> sock_read K sk n w = Inr ((r, bs), w') \<Longrightarrow> -1 \<le> r \<and> r \<le> int n \<and> length bs \<le> n"
  by (auto simp: sock_read_def and_then_eq_Inr split: sock_type.splits if_splits dest: px_read_sane)

lemma sock_write_bound:
  "px_io_sane K \<Longrightarrow> sock_write K sk d w = Inr (r, w') \<Longrightarrow> -1 \<le> r \<and> r \<le> int (length d)"
  by (auto simp: sock_write_def and_then_eq_Inr split: sock_type.splits if_splits dest: px_write_sane)

lemma io_channel_sock: "px_io_sane K \<Longrightarrow> io_channel (sock_read K sk) (sock_write K sk)"
  by unfold_locales (simp_all add: sock_read_bound sock_write_bound)


lemma io_channel_device:
  assumes "px_io_sane K"
  shows "io_channel (dev_read K socks dev buf) (dev_write K socks dev)"
proof
  fix n w r bs w'
  assume "dev_read K socks dev buf n w = Inr ((r, bs), w')"
  then show "-1 \<le> r \<and> r \<le> int n \<and> length bs \<le> n"
    using sock_read_bound [OF assms]
    by (auto simp: dev_read_def and_then_eq_Inr split: device.splits option.splits)
next
  fix d w r w'
  assume "dev_write K socks dev d w = Inr (r, w')"
  then show "-1 \<le> r \<and> r \<le> int (length d)"
    using sock_write_bound [OF assms]
    by (auto simp: dev_write_def and_then_eq_Inr split: device.splits option.splits)
qed

text \<open>The three devices every server has need nothing of the operating system.\<close>

interpretation full_io: io_channel "dev_read K socks DeviceFull buf" "dev_write K socks DeviceFull"
  for K :: "'w posix" and socks and buf
  by unfold_locales (auto simp: dev_read_def dev_write_def)

interpretation null_io: io_channel "dev_read K socks DeviceNull buf" "dev_write K socks DeviceNull"
  for K :: "'w posix" and socks and buf
  by unfold_locales (auto simp: dev_read_def dev_write_def)

interpretation zero_io: io_channel "dev_read K socks DeviceZero buf" "dev_write K socks DeviceZero"
  for K :: "'w posix" and socks and buf
  by unfold_locales (auto simp: dev_read_def dev_write_def)

end
