(* ===== verification/DevTable.thy ===== *)
theory DevTable
  imports DeviceIO
begin

text \<open>
  \<^verbatim>\<open>src/server/devices.cpp\<close>: the table of named devices with reference counts. The locale
  \<open>name_table\<close> is the contract its users (device files and the naming of ttys) rely on,
  over an abstract map from names to a device and its count; the table of the code is an
  interpretation of it. Every name in the vector is a block \<^verbatim>\<open>add\<close> allocated, never
  NULL, so a name is a \<open>string\<close>.
\<close>

section \<open>The contract\<close>

locale name_table =
  fixes look :: "'t \<Rightarrow> string \<rightharpoonup> 'd \<times> int"
    and isin :: "string \<Rightarrow> 't \<Rightarrow> bool"
    and ins :: "string \<Rightarrow> 'd option \<Rightarrow> 't \<Rightarrow> 'w \<Rightarrow> (bool \<times> 't) \<times> 'w"
    and opn :: "string \<Rightarrow> 't \<Rightarrow> fault + ('d option \<times> 't)"
    and cls :: "string \<Rightarrow> 't \<Rightarrow> bool \<times> 't"
    and del :: "string option \<Rightarrow> 't \<Rightarrow> bool \<times> 't"
    and inv :: "'t \<Rightarrow> bool"
  assumes isin_look: "inv t \<Longrightarrow> isin n t \<longleftrightarrow> look t n \<noteq> None"
    and count_nonneg: "inv t \<Longrightarrow> look t n = Some (d, c) \<Longrightarrow> 0 \<le> c"
    and ins_True: "inv t \<Longrightarrow> ins n dev t w = ((True, t'), w') \<Longrightarrow>
      \<exists>x. dev = Some x \<and> look t n = None \<and> look t' = (look t)(n \<mapsto> (x, 0)) \<and> inv t'"
    and ins_False: "ins n dev t w = ((False, t'), w') \<Longrightarrow> t' = t"
    and opn_Some: "inv t \<Longrightarrow> opn n t = Inr (Some d, t') \<Longrightarrow>
      \<exists>c. look t n = Some (d, c) \<and> look t' = (look t)(n \<mapsto> (d, c + 1)) \<and> inv t'"
    and opn_None: "inv t \<Longrightarrow> opn n t = Inr (None, t') \<Longrightarrow> look t n = None \<and> t' = t"
    and cls_True: "inv t \<Longrightarrow> cls n t = (True, t') \<Longrightarrow>
      \<exists>d c. look t n = Some (d, c) \<and> 0 < c \<and> look t' = (look t)(n \<mapsto> (d, c - 1)) \<and> inv t'"
    and cls_False: "inv t \<Longrightarrow> cls n t = (False, t') \<Longrightarrow>
      t' = t \<and> (\<forall>d c. look t n = Some (d, c) \<longrightarrow> c = 0)"
    and del_True: "inv t \<Longrightarrow> del m t = (True, t') \<Longrightarrow>
      \<exists>n d. m = Some n \<and> look t n = Some (d, 0) \<and> look t' = (look t)(n := None) \<and> inv t'"
    and del_False: "inv t \<Longrightarrow> del (Some n) t = (False, t') \<Longrightarrow>
      t' = t \<and> (\<forall>d c. look t n = Some (d, c) \<longrightarrow> 0 < c)"
begin

lemma opn_cls:
  assumes "inv t" "opn n t = Inr (Some d, t1)"
  shows "\<exists>t2. cls n t1 = (True, t2) \<and> look t2 = look t"
proof -
  from opn_Some [OF assms] obtain c where c: "look t n = Some (d, c)"
    "look t1 = (look t)(n \<mapsto> (d, c + 1))" "inv t1" by blast
  from count_nonneg [OF assms(1) c(1)] have pos: "0 < c + 1" by simp
  obtain b t2 where t2: "cls n t1 = (b, t2)" by (cases "cls n t1")
  have b
    using cls_False [OF c(3), of n t2] t2 c(2) pos by (cases b) auto
  with cls_True [OF c(3), of n t2] t2 c(1,2) show ?thesis
    by (auto simp: fun_upd_idem_iff)
qed

lemma del_used:
  assumes "inv t" "look t n = Some (d, c)" "0 < c"
  shows "del (Some n) t = (False, t)"
proof -
  obtain b t' where t': "del (Some n) t = (b, t')" by (cases "del (Some n) t")
  with del_True [OF assms(1), of "Some n" t'] assms(2,3) have "\<not> b" by auto
  with t' del_False [OF assms(1), of n t'] show ?thesis by simp
qed

lemma opn_blocks_del:
  assumes "inv t" "opn n t = Inr (Some d, t1)"
  shows "del (Some n) t1 = (False, t1)"
proof -
  from opn_Some [OF assms] obtain c where c: "look t n = Some (d, c)"
    "look t1 = (look t)(n \<mapsto> (d, c + 1))" "inv t1" by blast
  with count_nonneg [OF assms(1) c(1)] show ?thesis by (intro del_used) auto
qed

lemma ins_opn:
  assumes "inv t" "ins n d t w = ((True, t1), w')" "opn n t1 = Inr (r, t2)"
  shows "r = d"
proof -
  from ins_True [OF assms(1,2)] obtain x where x: "d = Some x" "look t1 n = Some (x, 0)" "inv t1"
    by auto
  show ?thesis
  proof (cases r)
    case None
    with opn_None [OF x(3), of n t2] assms(3) x(2) show ?thesis by simp
  next
    case (Some y)
    with opn_Some [OF x(3), of n y t2] assms(3) x(1,2) show ?thesis by auto
  qed
qed

lemma ins_twice:
  assumes "inv t" "ins n d t w = ((True, t1), w')" "ins n d' t1 w1 = ((b, t2), w2)"
  shows "\<not> b \<and> t2 = t1"
proof -
  from ins_True [OF assms(1,2)] obtain x where "look t1 n = Some (x, 0)" "inv t1" by auto
  with ins_True [of t1 n d' w1 t2 w2] ins_False [of n d' t1 w1 t2 w2] assms(3)
  show ?thesis by (cases b) auto
qed

lemma ins_others:
  "inv t \<Longrightarrow> ins n d t w = ((b, t'), w') \<Longrightarrow> m \<noteq> n \<Longrightarrow> look t' m = look t m"
  using ins_True [of t n d w t' w'] ins_False [of n d t w t' w'] by (cases b) auto

end

section \<open>The table of the code\<close>

record dev_entry =
  de_name :: string
  de_device :: device
  de_refCount :: int

type_synonym devices = "dev_entry list"

definition dev_getIndex :: "string \<Rightarrow> devices \<Rightarrow> int" where
  "dev_getIndex name es =
     (let i = slot_index (\<lambda>e. de_name e = name) es
      in if i < length es then int i else -1)"

definition dev_get :: "string \<Rightarrow> devices \<Rightarrow> nat option" where
  "dev_get name es = (let index = dev_getIndex name es in if index \<noteq> -1 then Some (nat index) else None)"

definition dev_exists :: "string \<Rightarrow> devices \<Rightarrow> bool" where
  "dev_exists name es \<longleftrightarrow> dev_get name es \<noteq> None"

definition dev_add ::
    "'w posix \<Rightarrow> string \<Rightarrow> device option \<Rightarrow> devices \<Rightarrow> 'w \<Rightarrow> (bool \<times> devices) \<times> 'w" where
  "dev_add K name dev es w =
     (if dev_exists name es then ((False, es), w)
      else case dev of
        None \<Rightarrow> ((False, es), w)
      | Some d \<Rightarrow>
          (case px_malloc K (cstr_size name) w of (ok, w') \<Rightarrow>
            if \<not> ok then ((False, es), w')
            else ((True, es @ [\<lparr>de_name = name, de_device = d, de_refCount = 0\<rparr>]), w')))"

definition dev_remove :: "string option \<Rightarrow> devices \<Rightarrow> bool \<times> devices" where
  "dev_remove name es =
     (case name of
        None \<Rightarrow> (False, es)
      | Some n \<Rightarrow>
          (let index = dev_getIndex n es
           in if index = -1 then (False, es)
              else if de_refCount (es ! nat index) > 0 then (False, es)
              else (True, take (nat index) es @ drop (Suc (nat index)) es)))"

definition dev_open :: "string \<Rightarrow> devices \<Rightarrow> fault + (device option \<times> devices)" where
  "dev_open name es =
     (case dev_get name es of
        None \<Rightarrow> Inr (None, es)
      | Some i \<Rightarrow>
          (let e = es ! i
           in if de_refCount e = 2 ^ 31 - 1 then Inl SignedOverflow
              else Inr (Some (de_device e), es[i := e\<lparr>de_refCount := de_refCount e + 1\<rparr>])))"

definition dev_close :: "string \<Rightarrow> devices \<Rightarrow> bool \<times> devices" where
  "dev_close name es =
     (case dev_get name es of
        None \<Rightarrow> (False, es)
      | Some i \<Rightarrow>
          (let e = es ! i
           in if de_refCount e \<le> 0 then (False, es)
              else (True, es[i := e\<lparr>de_refCount := de_refCount e - 1\<rparr>])))"

text \<open>The destructor's loop: it only steps over an entry that could not be removed.\<close>

function dev_destroy :: "nat \<Rightarrow> devices \<Rightarrow> devices" where
  "dev_destroy i es =
     (if i < length es then
        (case dev_remove (Some (de_name (es ! i))) es of
           (True, es') \<Rightarrow> dev_destroy i es'
         | (False, es') \<Rightarrow> dev_destroy (Suc i) es')
      else es)"
  by pat_completeness auto

lemma dev_remove_length:
  "dev_remove m es = (b, es') \<Longrightarrow> length es' = (if b then length es - 1 else length es) \<and>
     (b \<longrightarrow> es \<noteq> []) \<and> (\<not> b \<longrightarrow> es' = es)"
  by (auto simp: dev_remove_def dev_getIndex_def Let_def split: option.splits if_splits)

termination dev_destroy
  by (relation "measure (\<lambda>(i, es). length es - i)") (auto dest!: dev_remove_length [OF sym])

declare dev_destroy.simps [simp del]

section \<open>Invariant and abstraction\<close>

definition dev_inv :: "devices \<Rightarrow> bool" where
  "dev_inv es \<longleftrightarrow> distinct (map de_name es) \<and> (\<forall>e \<in> set es. 0 \<le> de_refCount e \<and> de_refCount e < 2 ^ 31)"

definition dev_abs :: "devices \<Rightarrow> string \<rightharpoonup> device \<times> int" where
  "dev_abs es = map_of (map (\<lambda>e. (de_name e, (de_device e, de_refCount e))) es)"

lemma dev_get_Some:
  assumes "dev_get n es = Some i"
  shows "i < length es \<and> de_name (es ! i) = n"
  using assms slot_index_nth [of "\<lambda>e. de_name e = n" es]
  by (auto simp: dev_get_def dev_getIndex_def Let_def split: if_splits)

lemma dev_get_None: "dev_get n es = None \<longleftrightarrow> n \<notin> de_name ` set es"
  by (auto simp: dev_get_def dev_getIndex_def Let_def slot_index_less_iff)

lemma dev_abs_None: "dev_abs es n = None \<longleftrightarrow> n \<notin> de_name ` set es"
  by (simp add: dev_abs_def map_of_eq_None_iff image_image)

lemma dev_abs_nth:
  assumes "dev_inv es" "i < length es"
  shows "dev_abs es (de_name (es ! i)) = Some (de_device (es ! i), de_refCount (es ! i))"
proof -
  have "distinct (map fst (map (\<lambda>e. (de_name e, (de_device e, de_refCount e))) es))"
    using assms(1) by (simp add: dev_inv_def comp_def)
  then show ?thesis
    unfolding dev_abs_def by (rule map_of_is_SomeI) (use assms(2) in force)
qed

text \<open>How the abstract map changes with each kind of change of the vector.\<close>

definition dev_alist :: "devices \<Rightarrow> (string \<times> device \<times> int) list" where
  "dev_alist es = map (\<lambda>e. (de_name e, (de_device e, de_refCount e))) es"

lemma dev_abs_alist: "dev_abs es = map_of (dev_alist es)"
  by (simp add: dev_abs_def dev_alist_def)

lemma dev_alist_keys: "map fst (dev_alist es) = map de_name es"
  by (simp add: dev_alist_def)

lemma dev_abs_update:
  assumes "dev_inv es" "i < length es" "de_name e = de_name (es ! i)"
  shows "dev_abs (es[i := e]) = (dev_abs es)(de_name e \<mapsto> (de_device e, de_refCount e))"
proof -
  have "dev_alist (es[i := e]) = (dev_alist es)[i := (de_name e, de_device e, de_refCount e)]"
    by (simp add: dev_alist_def map_update)
  moreover have "distinct (map fst (dev_alist es))"
    using assms(1) by (simp add: dev_alist_keys dev_inv_def)
  ultimately show ?thesis
    using map_of_list_update [of "dev_alist es" i "(de_name e, de_device e, de_refCount e)"] assms
    by (simp add: dev_abs_alist) (simp add: dev_alist_def)
qed

lemma dev_inv_update:
  assumes "dev_inv es" "i < length es" "de_name e = de_name (es ! i)"
    "0 \<le> de_refCount e" "de_refCount e < 2 ^ 31"
  shows "dev_inv (es[i := e])"
proof -
  have "map de_name (es[i := e]) = map de_name es"
    using assms(2,3) by (simp add: map_update list_update_same_conv)
  moreover have "set (es[i := e]) \<subseteq> insert e (set es)" by (rule set_list_update_sub)
  ultimately show ?thesis using assms(1,4,5) unfolding dev_inv_def by (metis insertE subsetD)
qed

lemma dev_abs_erase:
  assumes "dev_inv es" "i < length es"
  shows "dev_abs (take i es @ drop (Suc i) es) = (dev_abs es)(de_name (es ! i) := None)"
proof -
  have "dev_alist (take i es @ drop (Suc i) es) = take i (dev_alist es) @ drop (Suc i) (dev_alist es)"
    by (simp add: dev_alist_def take_map drop_map)
  moreover have "distinct (map fst (dev_alist es))"
    using assms(1) by (simp add: dev_alist_keys dev_inv_def)
  ultimately show ?thesis
    using map_of_erase [of "dev_alist es" i] assms
    by (simp add: dev_abs_alist) (simp add: dev_alist_def)
qed

lemma dev_inv_erase: "dev_inv es \<Longrightarrow> dev_inv (take i es @ drop (Suc i) es)"
  using distinct_erase [of "map de_name es" i]
  by (auto simp: dev_inv_def take_map drop_map dest: in_set_takeD in_set_dropD)

lemma dev_abs_snoc:
  "de_name e \<notin> de_name ` set es \<Longrightarrow>
   dev_abs (es @ [e]) = (dev_abs es)(de_name e \<mapsto> (de_device e, de_refCount e))"
  using map_of_snoc [of "de_name e" "dev_alist es" "(de_device e, de_refCount e)"]
  by (simp add: dev_abs_alist) (simp add: dev_alist_def image_image)

lemma dev_inv_snoc:
  "dev_inv es \<Longrightarrow> de_name e \<notin> de_name ` set es \<Longrightarrow> 0 \<le> de_refCount e \<Longrightarrow> de_refCount e < 2 ^ 31 \<Longrightarrow>
   dev_inv (es @ [e])"
  by (auto simp: dev_inv_def)

lemma dev_get_abs:
  "dev_inv es \<Longrightarrow> dev_get n es = Some i \<Longrightarrow>
   i < length es \<and> de_name (es ! i) = n \<and> dev_abs es n = Some (de_device (es ! i), de_refCount (es ! i)) \<and>
   0 \<le> de_refCount (es ! i) \<and> de_refCount (es ! i) < 2 ^ 31"
  using dev_get_Some [of n es i] dev_abs_nth [of es i] by (auto simp: dev_inv_def)

section \<open>The operations against the contract\<close>

lemma dev_exists_abs: "dev_exists n es \<longleftrightarrow> dev_abs es n \<noteq> None"
  by (simp add: dev_exists_def dev_get_None dev_abs_None)

lemma dev_add_True:
  assumes "dev_inv es" "dev_add K n dev es w = ((True, es'), w')"
  shows "\<exists>d. dev = Some d \<and> dev_abs es n = None \<and> dev_abs es' = (dev_abs es)(n \<mapsto> (d, 0)) \<and> dev_inv es'"
proof -
  from assms(2) obtain d where d: "dev = Some d" "dev_get n es = None"
    "es' = es @ [\<lparr>de_name = n, de_device = d, de_refCount = 0\<rparr>]"
    by (auto simp: dev_add_def dev_exists_def split: if_splits option.splits prod.splits)
  then have fresh: "n \<notin> de_name ` set es" by (simp add: dev_get_None)
  have "dev_abs es' = (dev_abs es)(n \<mapsto> (d, 0))"
    using dev_abs_snoc [of "\<lparr>de_name = n, de_device = d, de_refCount = 0\<rparr>" es] fresh d(3) by simp
  moreover have "dev_inv es'"
    using dev_inv_snoc [OF assms(1), of "\<lparr>de_name = n, de_device = d, de_refCount = 0\<rparr>"] fresh d(3)
    by simp
  ultimately show ?thesis using d fresh by (simp add: dev_abs_None)
qed

lemma dev_add_False: "dev_add K n dev es w = ((False, es'), w') \<Longrightarrow> es' = es"
  by (auto simp: dev_add_def split: if_splits option.splits prod.splits)

lemma dev_open_Some:
  assumes "dev_inv es" "dev_open n es = Inr (Some d, es')"
  shows "\<exists>c. dev_abs es n = Some (d, c) \<and> dev_abs es' = (dev_abs es)(n \<mapsto> (d, c + 1)) \<and> dev_inv es'"
proof -
  from assms(2) obtain i where i: "dev_get n es = Some i" "d = de_device (es ! i)"
    "de_refCount (es ! i) \<noteq> 2 ^ 31 - 1"
    "es' = es[i := (es ! i)\<lparr>de_refCount := de_refCount (es ! i) + 1\<rparr>]"
    by (auto simp: dev_open_def Let_def split: option.splits if_splits)
  note g = dev_get_abs [OF assms(1) i(1)]
  let ?e = "(es ! i)\<lparr>de_refCount := de_refCount (es ! i) + 1\<rparr>"
  have "dev_abs es' = (dev_abs es)(n \<mapsto> (d, de_refCount (es ! i) + 1))"
    using dev_abs_update [OF assms(1), of i ?e] g i by simp
  moreover have "dev_inv es'"
    using dev_inv_update [OF assms(1), of i ?e] g i by simp
  ultimately show ?thesis using g i(2) by blast
qed

lemma dev_open_None: "dev_open n es = Inr (None, es') \<Longrightarrow> dev_abs es n = None \<and> es' = es"
  by (auto simp: dev_open_def Let_def dev_get_None dev_abs_None split: option.splits if_splits)

lemma dev_close_True:
  assumes "dev_inv es" "dev_close n es = (True, es')"
  shows "\<exists>d c. dev_abs es n = Some (d, c) \<and> 0 < c \<and> dev_abs es' = (dev_abs es)(n \<mapsto> (d, c - 1)) \<and>
    dev_inv es'"
proof -
  from assms(2) obtain i where i: "dev_get n es = Some i" "0 < de_refCount (es ! i)"
    "es' = es[i := (es ! i)\<lparr>de_refCount := de_refCount (es ! i) - 1\<rparr>]"
    by (auto simp: dev_close_def Let_def split: option.splits if_splits)
  note g = dev_get_abs [OF assms(1) i(1)]
  let ?e = "(es ! i)\<lparr>de_refCount := de_refCount (es ! i) - 1\<rparr>"
  have "dev_abs es' = (dev_abs es)(n \<mapsto> (de_device (es ! i), de_refCount (es ! i) - 1))"
    using dev_abs_update [OF assms(1), of i ?e] g i by simp
  moreover have "dev_inv es'"
    using dev_inv_update [OF assms(1), of i ?e] g i by simp
  ultimately show ?thesis using g i(2) by blast
qed

lemma dev_close_False:
  assumes "dev_inv es" "dev_close n es = (False, es')"
  shows "es' = es \<and> (\<forall>d c. dev_abs es n = Some (d, c) \<longrightarrow> c = 0)"
proof (cases "dev_get n es")
  case None
  then have "dev_abs es n = None" by (simp add: dev_get_None dev_abs_None)
  with None assms(2) show ?thesis by (simp add: dev_close_def)
next
  case (Some i)
  with dev_get_abs [OF assms(1) Some] assms(2) show ?thesis
    by (auto simp: dev_close_def Let_def split: if_splits)
qed

lemma dev_getIndex_get:
  "dev_getIndex n es = (case dev_get n es of None \<Rightarrow> -1 | Some i \<Rightarrow> int i)"
  by (auto simp: dev_get_def dev_getIndex_def Let_def)

lemma dev_remove_True:
  assumes "dev_inv es" "dev_remove m es = (True, es')"
  shows "\<exists>n d. m = Some n \<and> dev_abs es n = Some (d, 0) \<and> dev_abs es' = (dev_abs es)(n := None) \<and>
    dev_inv es'"
proof -
  from assms(2) obtain n i where i: "m = Some n" "dev_get n es = Some i"
    "de_refCount (es ! i) \<le> 0" "es' = take i es @ drop (Suc i) es"
    by (auto simp: dev_remove_def Let_def dev_getIndex_get split: option.splits if_splits)
  note g = dev_get_abs [OF assms(1) i(2)]
  show ?thesis
    using dev_abs_erase [OF assms(1), of i] dev_inv_erase [OF assms(1), of i] g i by auto
qed

lemma dev_remove_False:
  assumes "dev_inv es" "dev_remove (Some n) es = (False, es')"
  shows "es' = es \<and> (\<forall>d c. dev_abs es n = Some (d, c) \<longrightarrow> 0 < c)"
proof (cases "dev_get n es")
  case None
  then have "dev_abs es n = None" by (simp add: dev_get_None dev_abs_None)
  with None assms(2) show ?thesis by (simp add: dev_remove_def dev_getIndex_get)
next
  case (Some i)
  with dev_get_abs [OF assms(1) Some] assms(2) show ?thesis
    by (auto simp: dev_remove_def Let_def dev_getIndex_get split: if_splits)
qed

lemma dev_abs_nonneg: "dev_inv es \<Longrightarrow> dev_abs es n = Some (d, c) \<Longrightarrow> 0 \<le> c"
  by (auto simp: dev_abs_def dev_inv_def dest!: map_of_SomeD)

interpretation devs: name_table dev_abs dev_exists "dev_add K" dev_open dev_close dev_remove dev_inv
  for K :: "'w posix"
  by unfold_locales
    (simp_all add: dev_exists_abs dev_abs_nonneg dev_add_True dev_add_False dev_open_Some
      dev_open_None dev_close_True dev_close_False dev_remove_True [simplified] dev_remove_False)

lemma dev_inv_Nil: "dev_inv []"
  by (simp add: dev_inv_def)

lemma dev_inv_add: "dev_inv es \<Longrightarrow> dev_add K n dev es w = ((b, es'), w') \<Longrightarrow> dev_inv es'"
  using dev_add_True [of es K n dev w es' w'] dev_add_False [of K n dev es w es' w'] by (cases b) auto

lemma dev_inv_open: "dev_inv es \<Longrightarrow> dev_open n es = Inr (r, es') \<Longrightarrow> dev_inv es'"
  using dev_open_Some [of es n _ es'] dev_open_None [of n es es'] by (cases r) auto

text \<open>
  What the destructor leaves: exactly the entries still in use, in their order. The loop
  keeps them to the left of its index.
\<close>

abbreviation dev_used :: "devices \<Rightarrow> devices" where
  "dev_used es \<equiv> filter (\<lambda>e. 0 < de_refCount e) es"

lemma dev_get_own:
  assumes "dev_inv es" "i < length es"
  shows "dev_get (de_name (es ! i)) es = Some i"
proof -
  have "distinct (map de_name es)" using assms(1) by (simp add: dev_inv_def)
  then have "slot_index (\<lambda>e. de_name e = de_name (es ! i)) es = i"
    using assms(2) by (intro slot_index_eqI) (auto simp: distinct_conv_nth)
  with assms(2) show ?thesis by (simp add: dev_get_def dev_getIndex_def)
qed

lemma dev_destroy_used:
  "dev_inv es \<Longrightarrow> (\<forall>j < i. j < length es \<longrightarrow> 0 < de_refCount (es ! j)) \<Longrightarrow>
   dev_destroy i es = dev_used es"
proof (induction i es rule: dev_destroy.induct)
  case (1 i es)
  show ?case
  proof (cases "i < length es")
    case False
    with "1.prems"(2) have "\<forall>e \<in> set es. 0 < de_refCount e" by (auto simp: in_set_conv_nth)
    with False show ?thesis by (simp add: dev_destroy.simps [of i es])
  next
    case True
    note own = dev_get_own [OF "1.prems"(1) True]
    show ?thesis
    proof (cases "0 < de_refCount (es ! i)")
      case used: True
      then have rm: "dev_remove (Some (de_name (es ! i))) es = (False, es)"
        by (simp add: dev_remove_def dev_getIndex_get own)
      have "\<forall>j < Suc i. j < length es \<longrightarrow> 0 < de_refCount (es ! j)"
        using "1.prems"(2) used by (auto simp: less_Suc_eq)
      then have "dev_destroy (Suc i) es = dev_used es"
        using "1.IH"(2) [OF True rm [symmetric]] "1.prems"(1) by simp
      with True rm show ?thesis by (simp add: dev_destroy.simps [of i es])
    next
      case unused: False
      let ?es = "take i es @ drop (Suc i) es"
      from unused have rm: "dev_remove (Some (de_name (es ! i))) es = (True, ?es)"
        by (simp add: dev_remove_def dev_getIndex_get own)
      have "\<forall>j < i. j < length ?es \<longrightarrow> 0 < de_refCount (?es ! j)"
        using "1.prems"(2) True by (auto simp: nth_append)
      then have "dev_destroy i ?es = dev_used ?es"
        using "1.IH"(1) [OF True rm [symmetric]] dev_inv_erase [OF "1.prems"(1)] by simp
      moreover have "dev_used ?es = dev_used es"
        using id_take_nth_drop [OF True] unused by (metis (no_types, lifting) filter.simps(2) filter_append)
      ultimately show ?thesis using True rm by (simp add: dev_destroy.simps [of i es])
    qed
  qed
qed

end
