(* ===== verification/Util.thy ===== *)
theory Util
  imports CString
begin

text \<open>
  \<^verbatim>\<open>src/server/util.cpp\<close>: \<^verbatim>\<open>strstrrev\<close>, the search for the last occurrence of a string.
  A pointer into the haystack is an offset. The loop is entered with a non-empty
  needle, which is split into its first character and the rest so that the recursion is
  only defined there; each turn moves the pointer past the occurrence just found.
\<close>

function strstrrev_loop ::
    "string \<Rightarrow> char \<Rightarrow> string \<Rightarrow> nat \<Rightarrow> nat option \<Rightarrow> nat option" where
  "strstrrev_loop haystack c cs off result =
     (case strstr (drop off haystack) (c # cs) of
        None \<Rightarrow> result
      | Some k \<Rightarrow> strstrrev_loop haystack c cs (off + k + 1) (Some (off + k)))"
  by pat_completeness auto

lemma strstr_Cons_bound: "strstr (drop off h) (c # cs) = Some k \<Longrightarrow> off + k < length h"
proof -
  assume "strstr (drop off h) (c # cs) = Some k"
  then have "starts_with (c # cs) (drop (off + k) h)"
    using strstr_Some [of "drop off h"] by (fastforce simp: add.commute)
  then show "off + k < length h"
    by (cases "off + k < length h") (simp_all add: starts_with_def)
qed

termination strstrrev_loop
  by (relation "measure (\<lambda>(h, c, cs, off, r). length h - off)") (auto dest: strstr_Cons_bound)

declare strstrrev_loop.simps [simp del]

definition strstrrev :: "string \<Rightarrow> string \<Rightarrow> nat option" where
  "strstrrev haystack needle =
     (case needle of [] \<Rightarrow> Some 0 | c # cs \<Rightarrow> strstrrev_loop haystack c cs 0 None)"

text \<open>The reference: all positions where the needle occurs, and the last of them.\<close>

definition occurrences :: "string \<Rightarrow> string \<Rightarrow> nat \<Rightarrow> nat list" where
  "occurrences needle haystack off =
     filter (\<lambda>i. starts_with needle (drop i haystack)) [off ..< length haystack]"

lemma occurrences_None:
  assumes "strstr (drop off h) (c # cs) = None"
  shows "occurrences (c # cs) h off = []"
proof -
  have "\<not> starts_with (c # cs) (drop i h)" if "off \<le> i" for i
    using strstr_None [OF assms, of "i - off"] that by simp
  then show ?thesis by (auto simp: occurrences_def filter_empty_conv)
qed

lemma occurrences_Some:
  assumes "strstr (drop off h) (c # cs) = Some k"
  shows "occurrences (c # cs) h off = (off + k) # occurrences (c # cs) h (off + k + 1)"
proof -
  have less: "off + k < length h" by (rule strstr_Cons_bound [OF assms])
  then have split: "[off ..< length h] = [off ..< off + k] @ (off + k) # [off + k + 1 ..< length h]"
    using upt_add_eq_append [of off "off + k" "length h - (off + k)"] by (simp add: upt_conv_Cons)
  have "starts_with (c # cs) (drop (off + k) h)"
    using strstr_Some [OF assms] by (simp add: add.commute)
  moreover have "\<not> starts_with (c # cs) (drop i h)" if "i \<in> set [off ..< off + k]" for i
  proof -
    from that have "i - off < k" "off + (i - off) = i" by auto
    with strstr_Some [OF assms] show ?thesis by (metis drop_drop add.commute)
  qed
  ultimately show ?thesis unfolding occurrences_def split by simp
qed

lemma strstrrev_loop_eq:
  "strstrrev_loop h c cs off r =
     (if occurrences (c # cs) h off = [] then r else Some (last (occurrences (c # cs) h off)))"
proof (induction h c cs off r rule: strstrrev_loop.induct)
  case (1 h c cs off r)
  show ?case
  proof (cases "strstr (drop off h) (c # cs)")
    case None
    then show ?thesis by (simp add: strstrrev_loop.simps [of h] occurrences_None)
  next
    case (Some k)
    with "1.IH" [OF Some] show ?thesis
      by (simp add: strstrrev_loop.simps [of h c cs off] occurrences_Some)
  qed
qed

lemma strstrrev_last:
  "needle \<noteq> [] \<Longrightarrow> strstrrev h needle =
     (if occurrences needle h 0 = [] then None else Some (last (occurrences needle h 0)))"
  by (cases needle) (simp_all add: strstrrev_def strstrrev_loop_eq)

lemma last_filter_upt:
  "(if filter P [0 ..< n] = [] then None else Some (last (filter P [0 ..< n]))) = Some i \<longleftrightarrow>
   i < n \<and> P i \<and> (\<forall>j. i < j \<longrightarrow> j < n \<longrightarrow> \<not> P j)"
proof (induction n)
  case 0
  show ?case by simp
next
  case (Suc n)
  show ?case
  proof (cases "P n")
    case True
    then show ?thesis by (auto simp: less_Suc_eq)
  next
    case False
    then have "filter P [0 ..< Suc n] = filter P [0 ..< n]" by simp
    then show ?thesis using Suc.IH False by (auto simp: less_Suc_eq)
  qed
qed

lemma strstrrev_Some_iff:
  "needle \<noteq> [] \<Longrightarrow> strstrrev h needle = Some i \<longleftrightarrow>
   i < length h \<and> starts_with needle (drop i h) \<and>
   (\<forall>j. i < j \<longrightarrow> j < length h \<longrightarrow> \<not> starts_with needle (drop j h))"
  unfolding strstrrev_last occurrences_def by (rule last_filter_upt)

lemma strstrrev_empty [simp]: "strstrrev h [] = Some 0"
  by (simp add: strstrrev_def)

lemma starts_with_single: "starts_with [c] (drop i s) \<longleftrightarrow> i < length s \<and> s ! i = c"
  by (cases "i < length s") (simp_all add: starts_with_def Cons_nth_drop_Suc [symmetric])

text \<open>For a one-character needle: the text after the last occurrence has none left.\<close>

lemma strstrrev_char_Some:
  assumes "strstrrev s [c] = Some i"
  shows "i < length s \<and> s ! i = c \<and> c \<notin> set (drop (Suc i) s)"
proof -
  from assms have ne: "occurrences [c] s 0 \<noteq> []" and i: "i = last (occurrences [c] s 0)"
    by (auto simp: strstrrev_last split: if_splits)
  then have mem: "i \<in> set (occurrences [c] s 0)" by simp
  have le: "j \<le> i" if "j \<in> set (occurrences [c] s 0)" for j
  proof -
    have "sorted (occurrences [c] s 0)" by (simp add: occurrences_def sorted_wrt_filter)
    with that show ?thesis unfolding i
      by (metis in_set_conv_nth last_conv_nth le_less_Suc_eq less_Suc_eq_le ne
          Suc_pred' length_greater_0_conv sorted_nth_mono diff_less zero_less_one)
  qed
  have later: "s ! j \<noteq> c" if "i < j" "j < length s" for j
    using le [of j] that by (auto simp: occurrences_def starts_with_single)
  have "c \<notin> set (drop (Suc i) s)"
  proof
    assume "c \<in> set (drop (Suc i) s)"
    then obtain m where "m < length s - Suc i" "s ! (Suc i + m) = c"
      by (auto simp: in_set_conv_nth)
    with later [of "Suc i + m"] show False by simp
  qed
  with mem show ?thesis by (auto simp: occurrences_def starts_with_single)
qed

lemma strstrrev_char_None: "strstrrev s [c] = None \<longleftrightarrow> c \<notin> set s"
  by (auto simp: strstrrev_last occurrences_def filter_empty_conv starts_with_single
      in_set_conv_nth)

end
