(* ===== verification/LocalFs.thy ===== *)
theory LocalFs
  imports Posix Util
begin

text \<open>
  \<^verbatim>\<open>src/server/fs.cpp\<close>, \<^verbatim>\<open>fsdirect.cpp\<close>: file systems, which map a path of the platform to
  the path of a local file. An object of class \<^verbatim>\<open>FS\<close> is known to its users through its
  one virtual function only; \<open>local_files\<close> is what they rely on, and a mounted
  \<^verbatim>\<open>FSDirect\<close> provides it.
\<close>

type_synonym 'w file_map = "string \<Rightarrow> 'w \<Rightarrow> fault + (string option \<times> 'w)"

definition FS_fileLocalPath :: "'w file_map" where
  "FS_fileLocalPath pth w = Inr (None, w)"

record fsdirect =
  containerPath :: "string option"

definition FSDirect_new :: fsdirect where
  "FSDirect_new = \<lparr>containerPath = None\<rparr>"

definition S_IFDIR_bit :: nat where
  "S_IFDIR_bit = 14"

definition mountFile ::
    "'w posix \<Rightarrow> string \<Rightarrow> fsdirect \<Rightarrow> 'w \<Rightarrow> fault + ((bool \<times> fsdirect) \<times> 'w)" where
  "mountFile K pth fs w =
     (if containerPath fs \<noteq> None then Inr ((False, fs), w)
      else case px_stat_mode K pth w of
        None \<Rightarrow> Inr ((False, fs), w)
      | Some mode \<Rightarrow>
          if \<not> bit mode S_IFDIR_bit then Inr ((False, fs), w)
          else if pth = [] then Inl OutOfBounds
          else
            (let pathSize = length pth + 1 + (if last pth \<noteq> CHR ''/'' then 1 else 0)
             in case px_malloc K pathSize w of (ok, w') \<Rightarrow>
               if \<not> ok then Inr ((False, fs), w')
               else Inr ((True, \<lparr>containerPath =
                   Some (if last pth \<noteq> CHR ''/'' then pth @ ''/'' else pth)\<rparr>), w')))"

definition unmount :: "fsdirect \<Rightarrow> bool \<times> fsdirect" where
  "unmount fs = (True, \<lparr>containerPath = None\<rparr>)"

definition fileLocalPath :: "'w posix \<Rightarrow> fsdirect \<Rightarrow> 'w file_map" where
  "fileLocalPath K fs pth w =
     (case containerPath fs of
        None \<Rightarrow> Inl NullDeref
      | Some c \<Rightarrow>
          (case px_malloc K (length c + length pth + 1) w of (ok, w') \<Rightarrow>
            if ok then Inr (Some (c @ pth), w') else Inr (None, w')))"

section \<open>The contract\<close>

definition base_name :: "string \<Rightarrow> string" where
  \<comment> \<open>the text after the last slash, as \<^verbatim>\<open>strstrrev(path, "/")+1\<close>\<close>
  "base_name s = (case strstrrev s ''/'' of None \<Rightarrow> s | Some i \<Rightarrow> drop (Suc i) s)"

locale local_files =
  fixes loc :: "'w file_map"
  assumes loc_no_fault: "loc p w \<noteq> Inl e"
    and loc_slash: "loc p w = Inr (Some l, w') \<Longrightarrow> CHR ''/'' \<in> set l"
    and loc_base: "loc p w = Inr (Some l, w') \<Longrightarrow> CHR ''/'' \<in> set p \<Longrightarrow> base_name l = base_name p"
    and loc_inj: "loc p w = Inr (Some l, w') \<Longrightarrow> loc q v = Inr (Some l, v') \<Longrightarrow> p = q"
begin

text \<open>What a program loader needs: the file name it cuts out of the local path exists.\<close>

lemma loc_last_slash: "loc p w = Inr (Some l, w') \<Longrightarrow> strstrrev l ''/'' \<noteq> None"
  by (drule loc_slash) (simp add: strstrrev_char_None)

lemma loc_cases: "(\<exists>w'. loc p w = Inr (None, w')) \<or> (\<exists>l w'. loc p w = Inr (Some l, w'))"
proof (cases "loc p w")
  case (Inl e)
  with loc_no_fault show ?thesis by blast
next
  case (Inr r)
  then show ?thesis by (cases r, cases "fst r") auto
qed

end

lemma base_name_eqI:
  assumes "s = d @ CHR ''/'' # b" "CHR ''/'' \<notin> set b"
  shows "base_name s = b"
proof -
  have "CHR ''/'' \<in> set s" using assms(1) by simp
  then obtain i where i: "strstrrev s ''/'' = Some i"
    by (cases "strstrrev s ''/''") (auto simp: strstrrev_char_None)
  note c = strstrrev_char_Some [OF i]
  have "i = length d"
  proof (rule ccontr)
    assume "i \<noteq> length d"
    then consider "i < length d" | "length d < i" by linarith
    then show False
    proof cases
      case 1
      with c assms(1) show False by simp
    next
      case 2
      then obtain k where k: "i = length d + Suc k" by (auto dest: less_imp_Suc_add)
      with c assms(1) have "k < length b" "b ! k = CHR ''/''" by (auto simp: nth_append)
      with assms(2) show False by (metis nth_mem)
    qed
  qed
  with i assms(1) show ?thesis by (simp add: base_name_def)
qed

lemma split_last_slash:
  assumes "CHR ''/'' \<in> set p"
  shows "\<exists>d b. p = d @ CHR ''/'' # b \<and> CHR ''/'' \<notin> set b"
  using split_list_last [OF assms] by blast

lemma base_name_append:
  assumes "CHR ''/'' \<in> set p"
  shows "base_name (c @ p) = base_name p"
proof -
  from split_last_slash [OF assms] obtain d b where p: "p = d @ CHR ''/'' # b" "CHR ''/'' \<notin> set b"
    by blast
  then have "base_name p = b" by (intro base_name_eqI)
  moreover have "base_name (c @ p) = b" using p by (intro base_name_eqI [of _ "c @ d"]) simp_all
  ultimately show ?thesis by simp
qed

lemma base_name_Cons: "CHR ''/'' \<in> set p \<Longrightarrow> base_name (x # p) = base_name p"
  using base_name_append [of p "[x]"] by simp

interpretation mounted: local_files "fileLocalPath K \<lparr>containerPath = Some (c @ ''/'')\<rparr>"
  for K :: "'w posix" and c
  by unfold_locales
    (auto simp: fileLocalPath_def base_name_append base_name_Cons split: prod.splits if_splits)

text \<open>A successful mount is the situation of the interpretation.\<close>

lemma mountFile_mounted:
  assumes "mountFile K pth fs w = Inr ((True, fs'), w')"
  shows "\<exists>c. fs' = \<lparr>containerPath = Some (c @ ''/'')\<rparr> \<and> (pth = c \<or> pth = c @ ''/'')"
proof -
  from assms have ne: "pth \<noteq> []"
    and fs': "fs' = \<lparr>containerPath = Some (if last pth \<noteq> CHR ''/'' then pth @ ''/'' else pth)\<rparr>"
    by (auto simp: mountFile_def Let_def split: if_splits option.splits prod.splits)
  show ?thesis
  proof (cases "last pth = CHR ''/''")
    case True
    then have "pth = butlast pth @ ''/''" using append_butlast_last_id [OF ne] by simp
    with True fs' show ?thesis by (metis (full_types))
  next
    case False
    with fs' show ?thesis by auto
  qed
qed

end
