(* ===== verification/Slots.thy ===== *)
theory Slots
  imports Prelude
begin

text \<open>
  Tables whose free slots are reused lowest first: the descriptors of a process
  (\<^verbatim>\<open>Process::fdAdd\<close>) and the descriptor entries of the server (\<^verbatim>\<open>Server::fdCreate\<close>).
  \<open>slot_put\<close> is the search-or-append step both make; the locale \<open>slot_table\<close> is the
  contract, over a lookup function in which a free slot is \<open>None\<close>.
\<close>

definition slot_put :: "('a \<Rightarrow> bool) \<Rightarrow> 'a \<Rightarrow> 'a list \<Rightarrow> nat \<times> 'a list" where
  "slot_put free v xs =
     (let i = slot_index free xs in (i, if i < length xs then xs[i := v] else xs @ [v]))"

lemma slot_put_cases:
  assumes "slot_put free v xs = (i, ys)"
  shows "i \<le> length xs \<and> (\<forall>j < i. \<not> free (xs ! j)) \<and>
     (i < length xs \<and> free (xs ! i) \<and> ys = xs[i := v] \<or> i = length xs \<and> ys = xs @ [v])"
  using assms slot_index_nth [of free xs] slot_index_before [of _ free xs] slot_index_le [of free xs]
  by (auto simp: slot_put_def Let_def split: if_splits)

lemma slot_put_nth: "slot_put free v xs = (i, ys) \<Longrightarrow> i < length ys \<and> ys ! i = v"
  by (drule slot_put_cases) auto

lemma slot_put_other:
  "slot_put free v xs = (i, ys) \<Longrightarrow> j \<noteq> i \<Longrightarrow> j < length xs \<Longrightarrow> j < length ys \<and> ys ! j = xs ! j"
  by (drule slot_put_cases) (auto simp: nth_append)

lemma slot_put_length:
  "slot_put free v xs = (i, ys) \<Longrightarrow> length xs \<le> length ys \<and> length ys \<le> Suc (length xs)"
  by (drule slot_put_cases) auto

section \<open>The contract\<close>

locale slot_table =
  fixes look :: "'t \<Rightarrow> nat \<Rightarrow> 'v option"
    and size_of :: "'t \<Rightarrow> nat"
    and ok :: "'v \<Rightarrow> bool" \<comment> \<open>values that do not mark a free slot\<close>
    and put :: "'v \<Rightarrow> 't \<Rightarrow> nat \<times> 't"
    and clear :: "nat \<Rightarrow> 't \<Rightarrow> 't"
  assumes look_bound: "look t i = Some v \<Longrightarrow> i < size_of t"
    and put_free: "put v t = (i, t') \<Longrightarrow> look t i = None"
    and put_least: "put v t = (i, t') \<Longrightarrow> j < i \<Longrightarrow> look t j \<noteq> None"
    and put_look: "ok v \<Longrightarrow> put v t = (i, t') \<Longrightarrow> look t' = (look t)(i \<mapsto> v)"
    and clear_look: "look (clear i t) = (look t)(i := None)"
begin

lemma put_get: "ok v \<Longrightarrow> put v t = (i, t') \<Longrightarrow> look t' i = Some v"
  by (simp add: put_look)

lemma put_others: "ok v \<Longrightarrow> put v t = (i, t') \<Longrightarrow> j \<noteq> i \<Longrightarrow> look t' j = look t j"
  by (simp add: put_look)

lemma put_clear: "ok v \<Longrightarrow> put v t = (i, t') \<Longrightarrow> look (clear i t') = look t"
  using put_free [of v t i t'] by (auto simp: clear_look put_look fun_eq_iff)

text \<open>The slot handed out is the lowest free one, so it is within the used part or next to it.\<close>

lemma put_lowest: "put v t = (i, t') \<Longrightarrow> look t j = None \<Longrightarrow> i \<le> j"
  using put_least [of v t i t' j] by (meson not_le)

lemma put_index_le: "put v t = (i, t') \<Longrightarrow> i \<le> size_of t"
proof (rule ccontr)
  assume p: "put v t = (i, t')" and "\<not> i \<le> size_of t"
  then have "look t (size_of t) \<noteq> None" using put_least [OF p, of "size_of t"] by simp
  then show False using look_bound [of t "size_of t"] by auto
qed

lemma put_reuse:
  "put v (clear i t) = (j, t') \<Longrightarrow> (\<And>k. k < i \<Longrightarrow> look t k \<noteq> None) \<Longrightarrow> j = i"
proof (rule antisym)
  assume p: "put v (clear i t) = (j, t')" and used: "\<And>k. k < i \<Longrightarrow> look t k \<noteq> None"
  show "j \<le> i" by (rule put_lowest [OF p]) (simp add: clear_look)
  show "i \<le> j"
  proof (rule ccontr)
    assume "\<not> i \<le> j"
    with used [of j] put_free [OF p] show False by (simp add: clear_look)
  qed
qed

end

section \<open>The two kinds of table\<close>

definition vec_look :: "('a \<Rightarrow> bool) \<Rightarrow> 'a list \<Rightarrow> nat \<Rightarrow> 'a option" where
  "vec_look free xs i = (if i < length xs \<and> \<not> free (xs ! i) then Some (xs ! i) else None)"

definition vec_clear :: "'a \<Rightarrow> nat \<Rightarrow> 'a list \<Rightarrow> 'a list" where
  "vec_clear hole i xs = xs[i := hole]"

lemma vec_slot_table:
  assumes "free hole"
  shows "slot_table (vec_look free) length (\<lambda>v. \<not> free v) (slot_put free) (vec_clear hole)"
proof
  fix t :: "'a list" and i v
  assume "vec_look free t i = Some v"
  then show "i < length t" by (simp add: vec_look_def split: if_splits)
next
  fix v and t :: "'a list" and i t'
  assume "slot_put free v t = (i, t')"
  then show "vec_look free t i = None" by (auto dest!: slot_put_cases simp: vec_look_def)
next
  fix v and t :: "'a list" and i t' j
  assume "slot_put free v t = (i, t')" "j < i"
  then show "vec_look free t j \<noteq> None" by (auto dest!: slot_put_cases simp: vec_look_def)
next
  fix v and t :: "'a list" and i t'
  assume "\<not> free v" "slot_put free v t = (i, t')"
  then show "vec_look free t' = (vec_look free t)(i \<mapsto> v)"
    by (auto dest!: slot_put_cases simp: vec_look_def fun_eq_iff nth_append nth_list_update
        less_Suc_eq split: if_splits)
next
  fix i and t :: "'a list"
  show "vec_look free (vec_clear hole i t) = (vec_look free t)(i := None)"
    using assms by (auto simp: vec_look_def vec_clear_def fun_eq_iff nth_list_update)
qed

end
