(* ===== verification/Proc.thy ===== *)
theory Proc
  imports LocalFs Slots
begin

text \<open>
  \<^verbatim>\<open>src/server/process.cpp\<close>: a process of the platform. Strings and string vectors the
  process owns are values, NULL being \<open>None\<close>; each malloc is asked of the operating
  system and may fail. \<open>pr_argc\<close>, \<open>pr_argv\<close>, \<open>pr_main\<close>, \<open>pr_syscall\<close> and
  \<open>pr_info_environ\<close> are the fields of the \<^verbatim>\<open>SysCommonProcInfo\<close> inside; of its two syscall
  pointers only whether they are set is kept. \<open>pr_start\<close> and \<open>pr_restart\<close> are not
  written by the constructor. Entering the loaded program, which never returns, is the
  outcome \<open>RunEntered\<close> of the functions that run a process; they yield the process as the
  program finds it.
\<close>

datatype proc_state = PrNone | PrLoaded | PrRunning

record process =
  pr_argc :: int
  pr_argv :: "string list option"
  pr_main :: "nat option"
  pr_syscall :: bool
  pr_info_environ :: "string list option"
  pr_dlHandle :: "nat option"
  pr_start :: "nat option"
  pr_restart :: "nat option"
  pr_name :: "string option"
  pr_path :: "string option"
  pr_state :: proc_state
  pr_posixPID :: int
  pr_environ :: "string list option"
  pr_cwd :: "string option"
  pr_fds :: "int list"

definition Process_new :: process where
  "Process_new =
     \<lparr>pr_argc = 0, pr_argv = None, pr_main = None, pr_syscall = False, pr_info_environ = None,
      pr_dlHandle = None, pr_start = None, pr_restart = None, pr_name = None, pr_path = None,
      pr_state = PrNone, pr_posixPID = -1, pr_environ = None, pr_cwd = None, pr_fds = []\<rparr>"

definition Process_destroy :: "'w posix \<Rightarrow> process \<Rightarrow> 'w \<Rightarrow> process \<times> 'w" where
  "Process_destroy K p w =
     (p\<lparr>pr_argv := None, pr_argc := 0, pr_dlHandle := None, pr_name := None, pr_path := None,
        pr_environ := None, pr_cwd := None, pr_syscall := False, pr_info_environ := None,
        pr_state := PrNone, pr_posixPID := -1\<rparr>,
      case pr_dlHandle p of None \<Rightarrow> w | Some h \<Rightarrow> px_dlclose K h w)"

text \<open>The methods that read or set one field.\<close>

definition getCwd :: "process \<Rightarrow> string option" where
  [simp]: "getCwd p = pr_cwd p"

definition getEnviron :: "process \<Rightarrow> string list option" where
  [simp]: "getEnviron p = pr_environ p"

definition getState :: "process \<Rightarrow> proc_state" where
  [simp]: "getState p = pr_state p"

definition getPosixPID :: "process \<Rightarrow> int" where
  [simp]: "getPosixPID p = pr_posixPID p"

definition setPosixPID :: "int \<Rightarrow> process \<Rightarrow> process" where
  [simp]: "setPosixPID pid p = p\<lparr>pr_posixPID := pid\<rparr>"

section \<open>Loading a program\<close>

text \<open>The code after label \<^verbatim>\<open>error\<close> of loadFileLocal, reached with the handle, if any.\<close>

definition load_error :: "'w posix \<Rightarrow> process \<Rightarrow> 'w \<Rightarrow> (bool \<times> process) \<times> 'w" where
  "load_error K p w =
     ((False, p\<lparr>pr_dlHandle := None, pr_name := None, pr_path := None\<rparr>),
      case pr_dlHandle p of None \<Rightarrow> w | Some h \<Rightarrow> px_dlclose K h w)"

definition loadFileLocal ::
    "'w posix \<Rightarrow> string \<Rightarrow> process \<Rightarrow> 'w \<Rightarrow> fault + ((bool \<times> process) \<times> 'w)" where
  "loadFileLocal K gpath p w =
     (if pr_state p \<noteq> PrNone then Inr ((False, p), w)
      else case px_dlopen K gpath w of
        (None, w1) \<Rightarrow> Inr (load_error K (p\<lparr>pr_dlHandle := None\<rparr>) w1)
      | (Some h, w1) \<Rightarrow>
          (let p1 = p\<lparr>pr_dlHandle := Some h, pr_main := px_dlsym K h ''main'' w1,
                      pr_start := px_dlsym K h ''_start'' w1,
                      pr_restart := px_dlsym K h ''_restart'' w1\<rparr>
           in if pr_main p1 = None \<or> pr_start p1 = None \<or> pr_restart p1 = None
              then Inr (load_error K p1 w1)
              else case strstrrev gpath ''/'' of
                None \<Rightarrow> Inl NullDeref
              | Some i \<Rightarrow>
                  (let nm = drop (Suc i) gpath
                   in case px_malloc K (cstr_size nm) w1 of (ok1, w2) \<Rightarrow>
                     if \<not> ok1 then Inr (load_error K (p1\<lparr>pr_name := None\<rparr>) w2)
                     else case px_malloc K (cstr_size gpath) w2 of (ok2, w3) \<Rightarrow>
                       if \<not> ok2 then Inr (load_error K (p1\<lparr>pr_name := Some nm, pr_path := None\<rparr>) w3)
                       else Inr ((True, p1\<lparr>pr_name := Some nm, pr_path := Some gpath,
                                           pr_state := PrLoaded\<rparr>), w3))))"

definition is_absolute :: "string \<Rightarrow> bool" where
  "is_absolute s \<longleftrightarrow> s \<noteq> [] \<and> hd s = CHR ''/''"

definition loadFileFS ::
    "'w posix \<Rightarrow> 'w file_map \<Rightarrow> string option \<Rightarrow> process \<Rightarrow> 'w \<Rightarrow> fault + ((bool \<times> process) \<times> 'w)" where
  "loadFileFS K loc pathArg p w =
     (if pr_state p \<noteq> PrNone then Inr ((False, p), w)
      else case pathArg of
        None \<Rightarrow> Inr ((False, p), w)
      | Some pth \<Rightarrow>
          if \<not> is_absolute pth then Inr ((False, p), w)
          else and_then (loc pth w) (\<lambda>(localPath, w1).
            case localPath of
              None \<Rightarrow> Inr ((False, p\<lparr>pr_cwd := None\<rparr>), w1)
            | Some l \<Rightarrow>
                if pr_cwd p \<noteq> None then Inl AssertFailed
                else case px_malloc K (cstr_size pth) w1 of (ok, w2) \<Rightarrow>
                  if \<not> ok then Inr ((False, p\<lparr>pr_cwd := None\<rparr>), w2)
                  else and_then (loadFileLocal K l (p\<lparr>pr_cwd := Some (dirname pth)\<rparr>) w2)
                    (\<lambda>((done, p'), w3).
                      if done then Inr ((True, p'), w3)
                      else Inr ((False, p'\<lparr>pr_cwd := None\<rparr>), w3))))"

section \<open>Working directory and environment\<close>

definition setCwd ::
    "'w posix \<Rightarrow> string option \<Rightarrow> process \<Rightarrow> 'w \<Rightarrow> fault + ((bool \<times> process) \<times> 'w)" where
  "setCwd K gcwd p w =
     (case gcwd of
        None \<Rightarrow> Inl NullDeref
      | Some d \<Rightarrow>
          (case px_malloc K (cstr_size d) w of (ok, w') \<Rightarrow>
            if \<not> ok then Inr ((False, p), w') else Inr ((True, p\<lparr>pr_cwd := Some d\<rparr>), w')))"

definition environ_sizes :: "string list \<Rightarrow> nat list" where
  "environ_sizes env = 8 * (length env + 1) # map cstr_size env"

definition setEnviron ::
    "'w posix \<Rightarrow> string list option \<Rightarrow> process \<Rightarrow> 'w \<Rightarrow> (bool \<times> process) \<times> 'w" where
  "setEnviron K env p w =
     (let p0 = p\<lparr>pr_environ := None, pr_info_environ := None\<rparr>
      in case env of
        None \<Rightarrow> ((True, p0), w)
      | Some e \<Rightarrow>
          (case mallocs K (environ_sizes e) w of (ok, w') \<Rightarrow>
            if ok then ((True, p0\<lparr>pr_environ := Some e, pr_info_environ := Some e\<rparr>), w')
            else ((False, p0), w')))"

section \<open>Running\<close>

datatype run_outcome =
    RunFailed \<comment> \<open>returned false\<close>
  | RunParent \<comment> \<open>returned true, the child runs the program\<close>
  | RunEntered process \<comment> \<open>this POSIX process now executes the program\<close>

definition arun ::
    "'w posix \<Rightarrow> bool \<Rightarrow> string list \<Rightarrow> process \<Rightarrow> 'w \<Rightarrow> fault + (run_outcome \<times> 'w)" where
  "arun K doFork argv p w =
     (if pr_state p \<noteq> PrLoaded then Inr (RunFailed, w)
      else case (if doFork then px_fork K w else (0, w)) of (pid, w') \<Rightarrow>
        if pid < 0 then Inr (RunFailed, w')
        else if pid = 0 then
          (case pr_start p of
             None \<Rightarrow> Inl UninitRead
           | Some _ \<Rightarrow> Inr (RunEntered (p\<lparr>pr_state := PrRunning, pr_posixPID := px_getpid K w',
               pr_argc := int (length argv), pr_argv := Some argv, pr_syscall := True\<rparr>), w'))
        else Inr (RunParent, w'))"

definition vrun ::
    "'w posix \<Rightarrow> bool \<Rightarrow> string list \<Rightarrow> process \<Rightarrow> 'w \<Rightarrow> fault + (run_outcome \<times> 'w)" where
  "vrun K doFork args p w =
     (case px_malloc K (8 * (length args + 1)) w of (ok, w1) \<Rightarrow>
        if \<not> ok then Inr (RunFailed, w1)
        else case pr_name p of
          None \<Rightarrow> Inl NullDeref
        | Some nm \<Rightarrow>
            (case mallocs K (map cstr_size (nm # args)) w1 of (ok2, w2) \<Rightarrow>
              if \<not> ok2 then Inr (RunFailed, w2) else arun K doFork (nm # args) p w2))"

definition Process_run ::
    "'w posix \<Rightarrow> bool \<Rightarrow> string list \<Rightarrow> process \<Rightarrow> 'w \<Rightarrow> fault + (run_outcome \<times> 'w)" where
  "Process_run K doFork args p w = vrun K doFork args p w"

section \<open>Copying for fork\<close>

definition info_args :: "process \<Rightarrow> fault + string list" where
  \<comment> \<open>the elements the loop \<^verbatim>\<open>for(..;child->info.argc<info.argc;..)\<close> reads\<close>
  "info_args p =
     (if pr_argc p \<le> 0 then Inr []
      else case pr_argv p of
        None \<Rightarrow> Inl NullDeref
      | Some a \<Rightarrow> if pr_argc p \<le> int (length a) then Inr (take (nat (pr_argc p)) a) else Inl OutOfBounds)"

definition need :: "'a option \<Rightarrow> fault + 'a" where
  "need x = (case x of None \<Rightarrow> Inl NullDeref | Some v \<Rightarrow> Inr v)"

text \<open>
  The code after label \<^verbatim>\<open>error\<close> of forkCopy frees what the child owns, sets none of the
  pointers to NULL and then deletes the child, whose destructor frees the same blocks
  again: with \<^verbatim>\<open>child->info.argv\<close> allocated this is a double free. What \<^verbatim>\<open>dlclose\<close> does with
  the null handle of a child without library is the error return POSIX gives it.
\<close>

definition fork_error :: "process \<Rightarrow> 'w \<Rightarrow> fault + (process option \<times> 'w)" where
  "fork_error child w = (if pr_argv child \<noteq> None then Inl DoubleFree else Inr (None, w))"

definition restart_child :: "'w posix \<Rightarrow> process \<Rightarrow> 'w \<Rightarrow> 'w" where
  \<comment> \<open>\<^verbatim>\<open>(*child->restart)(&child->info)\<close>, which runs in the library of the program and
      switches the environment of whoever uses that library, the parent too\<close>
  "restart_child K child w =
     (case pr_restart child of None \<Rightarrow> w | Some f \<Rightarrow> px_restart K f (pr_info_environ child) w)"

definition fork_load ::
    "'w posix \<Rightarrow> process \<Rightarrow> string \<Rightarrow> string \<Rightarrow> string \<Rightarrow> process \<Rightarrow> 'w \<Rightarrow> fault + (process option \<times> 'w)" where
  \<comment> \<open>from the reloading of the shared library to the return\<close>
  "fork_load K p nm pt cw child0 w =
     (case px_dlopen K pt w of
        (None, w1) \<Rightarrow> fork_error child0 w1
      | (Some h, w1) \<Rightarrow>
          (let child1 = child0\<lparr>pr_name := Some nm, pr_path := Some pt, pr_cwd := Some cw,
                 pr_dlHandle := Some h, pr_main := px_dlsym K h ''main'' w1,
                 pr_start := px_dlsym K h ''_start'' w1,
                 pr_restart := px_dlsym K h ''_restart'' w1\<rparr>
           in if pr_main child1 = None \<or> pr_start child1 = None \<or> pr_restart child1 = None
              then fork_error child1 w1
              else case setEnviron K (getEnviron p)
                     (child1\<lparr>pr_syscall := True, pr_state := pr_state p\<rparr>) w1 of
                ((_, child2), w2) \<Rightarrow> Inr (Some child2, restart_child K child2 w2)))"

definition fork_strings ::
    "'w posix \<Rightarrow> process \<Rightarrow> process \<Rightarrow> 'w \<Rightarrow> fault + (process option \<times> 'w)" where
  \<comment> \<open>the copies of name, path and working directory, and what follows\<close>
  "fork_strings K p child0 w =
     and_then (need (pr_name p)) (\<lambda>nm.
       case px_malloc K (cstr_size nm) w of (ok1, w1) \<Rightarrow>
       if \<not> ok1 then fork_error child0 w1
       else and_then (need (pr_path p)) (\<lambda>pt.
         case px_malloc K (cstr_size pt) w1 of (ok2, w2) \<Rightarrow>
         if \<not> ok2 then fork_error child0 w2
         else and_then (need (pr_cwd p)) (\<lambda>cw.
           case px_malloc K (cstr_size cw) w2 of (ok3, w3) \<Rightarrow>
           if \<not> ok3 then fork_error child0 w3 else fork_load K p nm pt cw child0 w3)))"

definition forkCopy :: "'w posix \<Rightarrow> process \<Rightarrow> 'w \<Rightarrow> fault + (process option \<times> 'w)" where
  "forkCopy K p w =
     (case px_malloc K (8 * nat (pr_argc p)) w of (ok0, w0) \<Rightarrow>
        if \<not> ok0 then fork_error Process_new w0
        else and_then (info_args p) (\<lambda>args.
          let child0 = Process_new\<lparr>pr_argv := Some args, pr_argc := int (length args)\<rparr>
          in case mallocs K (map cstr_size args) w0 of (ok1, w1) \<Rightarrow>
            if \<not> ok1 then fork_error child0 w1 else fork_strings K p child0 w1))"

section \<open>Descriptors\<close>

definition fdAdd :: "int \<Rightarrow> int list \<Rightarrow> int \<times> int list" where
  "fdAdd serverFd fds = (case slot_put (\<lambda>x. x = -1) serverFd fds of (i, fds') \<Rightarrow> (c_int i, fds'))"

definition fdRemove :: "int \<Rightarrow> int list \<Rightarrow> int list" where
  "fdRemove serverFd fds =
     (let i = slot_index (\<lambda>x. x = serverFd) fds in if i < length fds then fds[i := -1] else fds)"

interpretation proc_fds:
  slot_table "vec_look (\<lambda>x::int. x = -1)" length "\<lambda>v. \<not> v = -1" "slot_put (\<lambda>x. x = -1)" "vec_clear (-1)"
  by (rule vec_slot_table) simp

section \<open>Well-formed processes\<close>

text \<open>
  What every operation keeps: a loaded or running process has all it needs to be run and
  copied, a process that is not loaded owns no string, the argument count is the length
  of the argument vector, and only a running process has a POSIX pid.
\<close>

definition proc_wf :: "process \<Rightarrow> bool" where
  "proc_wf p \<longleftrightarrow>
     (pr_state p \<noteq> PrNone \<longrightarrow> pr_name p \<noteq> None \<and> pr_path p \<noteq> None \<and> pr_cwd p \<noteq> None \<and>
        pr_start p \<noteq> None \<and> pr_restart p \<noteq> None \<and> pr_main p \<noteq> None \<and> pr_dlHandle p \<noteq> None) \<and>
     (pr_state p = PrNone \<longrightarrow> pr_name p = None \<and> pr_path p = None \<and> pr_cwd p = None \<and>
        pr_dlHandle p = None) \<and>
     pr_argc p = (case pr_argv p of None \<Rightarrow> 0 | Some a \<Rightarrow> int (length a)) \<and>
     pr_info_environ p = pr_environ p \<and>
     (pr_state p \<noteq> PrRunning \<longrightarrow> pr_posixPID p = -1)"

lemma proc_wf_new: "proc_wf Process_new"
  by (simp add: proc_wf_def Process_new_def)

lemma proc_wf_destroy: "proc_wf (fst (Process_destroy K p w))"
  by (simp add: proc_wf_def Process_destroy_def)

lemma proc_wf_fds: "proc_wf p \<Longrightarrow> proc_wf (p\<lparr>pr_fds := fds\<rparr>)"
  by (simp add: proc_wf_def)

lemma proc_wf_posixPID: "proc_wf p \<Longrightarrow> pr_state p = PrRunning \<Longrightarrow> proc_wf (p\<lparr>pr_posixPID := i\<rparr>)"
  by (simp add: proc_wf_def)

lemma load_error_result:
  "load_error K p w = ((b, p'), w') \<Longrightarrow>
   \<not> b \<and> p' = p\<lparr>pr_dlHandle := None, pr_name := None, pr_path := None\<rparr>"
  by (auto simp: load_error_def)

lemma loadFileLocal_True:
  assumes "loadFileLocal K l p w = Inr ((True, p'), w')"
  shows "pr_state p = PrNone \<and> (\<exists>h mn st rs. p' = p\<lparr>pr_dlHandle := Some h, pr_main := Some mn,
     pr_start := Some st, pr_restart := Some rs, pr_name := Some (base_name l),
     pr_path := Some l, pr_state := PrLoaded\<rparr>)"
  using assms
  by (auto simp: loadFileLocal_def load_error_def base_name_def Let_def
      split: if_splits option.splits prod.splits)

lemma loadFileLocal_False:
  assumes "loadFileLocal K l p w = Inr ((False, p'), w')" "pr_state p = PrNone"
  shows "\<exists>mn st rs. p' = p\<lparr>pr_dlHandle := None, pr_main := mn, pr_start := st, pr_restart := rs,
     pr_name := None, pr_path := None\<rparr>"
proof -
  from assms have "pr_dlHandle p' = None \<and> pr_name p' = None \<and> pr_path p' = None \<and>
      (\<exists>mn st rs. p' = p'\<lparr>pr_main := mn\<rparr> \<and> p\<lparr>pr_dlHandle := None, pr_main := mn, pr_start := st,
        pr_restart := rs, pr_name := None, pr_path := None\<rparr> = p')"
    by (cases p) (auto simp: loadFileLocal_def load_error_def Let_def
        split: if_splits option.splits prod.splits)
  then show ?thesis by metis
qed

lemma loadFileLocal_no_fault: "CHR ''/'' \<in> set l \<Longrightarrow> loadFileLocal K l p w \<noteq> Inl e"
  using strstrrev_char_None [of l "CHR ''/''"]
  by (auto simp: loadFileLocal_def Let_def split: option.splits prod.splits)

text \<open>
  The whole of \<^verbatim>\<open>loadFileFS\<close>: on success the process is loaded with the base name of the
  local file, and its working directory is the directory of the path; on failure it still
  is a process that is not loaded and owns nothing.
\<close>

lemma loadFileFS_True:
  assumes "loadFileFS K loc (Some pth) p w = Inr ((True, p'), w')"
  shows "is_absolute pth \<and> pr_state p = PrNone \<and> (\<exists>l w1 h mn st rs. loc pth w = Inr (Some l, w1) \<and>
     p' = p\<lparr>pr_dlHandle := Some h, pr_main := Some mn, pr_start := Some st, pr_restart := Some rs,
       pr_name := Some (base_name l), pr_path := Some l, pr_state := PrLoaded,
       pr_cwd := Some (dirname pth)\<rparr>)"
proof -
  from assms obtain l w1 w2 p2 w3 where l: "loc pth w = Inr (Some l, w1)" and abs: "is_absolute pth"
    and st: "pr_state p = PrNone"
    and ld: "loadFileLocal K l (p\<lparr>pr_cwd := Some (dirname pth)\<rparr>) w2 = Inr ((True, p2), w3)" "p' = p2"
    by (auto simp: loadFileFS_def fault_simps prod_eq_iff split: if_splits option.splits)
  from loadFileLocal_True [OF ld(1)] ld(2) abs st l show ?thesis by (cases p) auto
qed

lemma loadFileFS_False:
  assumes "loadFileFS K loc a p w = Inr ((False, p'), w')" "proc_wf p"
  shows "proc_wf p' \<and> pr_state p' = pr_state p \<and> pr_fds p' = pr_fds p \<and> pr_posixPID p' = pr_posixPID p"
proof (cases "p' = p \<or> p' = p\<lparr>pr_cwd := None\<rparr>")
  case True
  with assms show ?thesis
    by (auto simp: loadFileFS_def proc_wf_def and_then_eq_Inr split: if_splits option.splits)
next
  case False
  with assms(1) obtain l pth w1 w2 p2 where st: "pr_state p = PrNone"
    and ld: "loadFileLocal K l (p\<lparr>pr_cwd := Some (dirname pth)\<rparr>) w1 = Inr ((False, p2), w2)"
    and p': "p' = p2\<lparr>pr_cwd := None\<rparr>"
    by (auto simp: loadFileFS_def fault_simps prod_eq_iff split: if_splits option.splits)
  from loadFileLocal_False [OF ld] st obtain mn sr rs where "p2 = p\<lparr>pr_cwd := Some (dirname pth),
      pr_dlHandle := None, pr_main := mn, pr_start := sr, pr_restart := rs, pr_name := None,
      pr_path := None\<rparr>"
    by auto
  with p' st assms(2) show ?thesis by (simp add: proc_wf_def)
qed

lemma proc_wf_loadFileFS:
  assumes "loadFileFS K loc a p w = Inr ((b, p'), w')" "proc_wf p"
  shows "proc_wf p'"
proof (cases b)
  case True
  with assms(1) obtain pth where "a = Some pth"
    by (auto simp: loadFileFS_def split: if_splits option.splits)
  with True assms loadFileFS_True [of K loc pth p w p' w'] show ?thesis
    by (auto simp: proc_wf_def)
next
  case False
  with assms loadFileFS_False [of K loc a p w p' w'] show ?thesis by simp
qed

context local_files
begin

lemma loadFileFS_no_fault:
  assumes "proc_wf p"
  shows "loadFileFS K loc a p w \<noteq> Inl e"
proof (cases "pr_state p = PrNone")
  case False
  then show ?thesis by (simp add: loadFileFS_def)
next
  case True
  with assms have cwd: "pr_cwd p = None" by (simp add: proc_wf_def)
  show ?thesis
  proof (cases a)
    case None
    then show ?thesis by (simp add: loadFileFS_def)
  next
    case (Some pth)
    consider w1 where "loc pth w = Inr (None, w1)" | l w1 where "loc pth w = Inr (Some l, w1)"
      using loc_cases by blast
    then show ?thesis
    proof cases
      case 1
      with Some show ?thesis by (simp add: loadFileFS_def)
    next
      case 2
      with Some cwd show ?thesis
        by (auto simp: loadFileFS_def fault_simps loadFileLocal_no_fault [OF loc_slash [OF 2]])
    qed
  qed
qed

lemma is_absolute_slash: "is_absolute p \<Longrightarrow> CHR ''/'' \<in> set p"
  by (cases p) (auto simp: is_absolute_def)

lemma loadFileFS_name:
  assumes "loadFileFS K loc (Some pth) p w = Inr ((True, p'), w')"
  shows "pr_name p' = Some (base_name pth) \<and> pr_cwd p' = Some (dirname pth)"
proof -
  from loadFileFS_True [OF assms] obtain l w1 where "is_absolute pth" "loc pth w = Inr (Some l, w1)"
    "pr_name p' = Some (base_name l)" "pr_cwd p' = Some (dirname pth)"
    by auto
  with loc_base [of pth w l w1] is_absolute_slash show ?thesis by auto
qed

end

section \<open>Working directory, environment, running\<close>

lemma setCwd_result:
  "setCwd K d p w = Inr ((b, p'), w') \<Longrightarrow>
   \<exists>s. d = Some s \<and> p' = (if b then p\<lparr>pr_cwd := Some s\<rparr> else p)"
  by (auto simp: setCwd_def split: option.splits prod.splits if_splits)

lemma setCwd_no_fault: "setCwd K (Some d) p w \<noteq> Inl e"
  by (simp add: setCwd_def split: prod.splits)

lemma proc_wf_setCwd:
  "proc_wf p \<Longrightarrow> pr_state p \<noteq> PrNone \<Longrightarrow> setCwd K d p w = Inr ((b, p'), w') \<Longrightarrow> proc_wf p'"
  by (drule setCwd_result) (auto simp: proc_wf_def split: if_splits)

lemma setEnviron_result:
  "setEnviron K env p w = ((b, p'), w') \<Longrightarrow>
   p' = p\<lparr>pr_environ := if b then env else None, pr_info_environ := if b then env else None\<rparr>"
  by (auto simp: setEnviron_def Let_def split: option.splits prod.splits if_splits)

lemma proc_wf_setEnviron: "proc_wf p \<Longrightarrow> setEnviron K env p w = ((b, p'), w') \<Longrightarrow> proc_wf p'"
  by (drule setEnviron_result) (auto simp: proc_wf_def)

lemma setEnviron_total:
  assumes "malloc_total K"
  shows "fst (fst (setEnviron K env p w))"
proof (cases env)
  case None
  then show ?thesis by (simp add: setEnviron_def)
next
  case (Some e)
  obtain ok w' where "mallocs K (environ_sizes e) w = (ok, w')" by fastforce
  moreover from this have ok using mallocs_total [OF assms, of "environ_sizes e" w] by simp
  ultimately show ?thesis using Some by (simp add: setEnviron_def Let_def)
qed

lemma arun_result:
  "arun K f argv p w = Inr (RunEntered q, w') \<Longrightarrow>
   pr_state p = PrLoaded \<and> q = p\<lparr>pr_state := PrRunning, pr_posixPID := px_getpid K w',
     pr_argc := int (length argv), pr_argv := Some argv, pr_syscall := True\<rparr>"
  by (auto simp: arun_def split: if_splits prod.splits option.splits)

lemma arun_no_fault: "proc_wf p \<Longrightarrow> arun K f argv p w \<noteq> Inl e"
  by (auto simp: arun_def proc_wf_def split: prod.splits option.splits)

lemma arun_exec: "proc_wf p \<Longrightarrow> pr_state p = PrLoaded \<Longrightarrow> \<exists>q. arun K False argv p w = Inr (RunEntered q, w)"
  by (auto simp: arun_def proc_wf_def)

lemma proc_wf_arun: "proc_wf p \<Longrightarrow> arun K f argv p w = Inr (RunEntered q, w') \<Longrightarrow> proc_wf q"
  by (drule arun_result) (auto simp: proc_wf_def)

lemma vrun_result:
  "vrun K f args p w = Inr (RunEntered q, w') \<Longrightarrow>
   pr_state p = PrLoaded \<and> (\<exists>nm. pr_name p = Some nm \<and> q = p\<lparr>pr_state := PrRunning,
     pr_posixPID := px_getpid K w', pr_argc := int (Suc (length args)),
     pr_argv := Some (nm # args), pr_syscall := True\<rparr>)"
  by (auto simp: vrun_def split: if_splits prod.splits option.splits dest: arun_result)

lemma vrun_no_fault: "proc_wf p \<Longrightarrow> pr_state p \<noteq> PrNone \<Longrightarrow> vrun K f args p w \<noteq> Inl e"
  by (auto simp: vrun_def arun_no_fault split: if_splits prod.splits option.splits)
    (simp add: proc_wf_def)

section \<open>forkCopy\<close>

lemma info_args_wf:
  "proc_wf p \<Longrightarrow> info_args p = Inr (case pr_argv p of None \<Rightarrow> [] | Some a \<Rightarrow> a)"
  by (auto simp: info_args_def proc_wf_def split: option.splits)

lemma fork_error_result: "fork_error c w = Inr (r, w') \<Longrightarrow> r = None \<and> pr_argv c = None"
  by (auto simp: fork_error_def split: if_splits)

lemma fork_error_argv: "pr_argv c = Some a \<Longrightarrow> fork_error c w = Inl DoubleFree"
  by (simp add: fork_error_def)

definition fork_spec :: "process \<Rightarrow> process \<Rightarrow> process \<Rightarrow> bool" where
  "fork_spec p c0 c \<longleftrightarrow>
     (\<exists>env h mn st rs. (env = pr_environ p \<or> env = None) \<and> pr_name p \<noteq> None \<and> pr_path p \<noteq> None \<and>
        pr_cwd p \<noteq> None \<and>
        c = c0\<lparr>pr_name := pr_name p, pr_path := pr_path p, pr_cwd := pr_cwd p, pr_dlHandle := Some h,
          pr_main := Some mn, pr_start := Some st, pr_restart := Some rs, pr_syscall := True,
          pr_state := pr_state p, pr_environ := env, pr_info_environ := env\<rparr>)"

lemma fork_load_result:
  assumes "fork_load K p nm pt cw c0 w = Inr (r, w')" "pr_argv c0 = Some a"
    "pr_name p = Some nm" "pr_path p = Some pt" "pr_cwd p = Some cw"
  shows "\<exists>c. r = Some c \<and> fork_spec p c0 c"
proof -
  obtain h w1 where d: "px_dlopen K pt w = (h, w1)" by (cases "px_dlopen K pt w")
  from assms(1,2) d obtain h' where h: "h = Some h'"
    by (cases h) (auto simp: fork_load_def fork_error_argv)
  obtain mn where mn: "px_dlsym K h' ''main'' w1 = Some mn"
    using assms(1,2) d h
    by (cases "px_dlsym K h' ''main'' w1") (auto simp: fork_load_def fork_error_argv)
  obtain st where st: "px_dlsym K h' ''_start'' w1 = Some st"
    using assms(1,2) d h mn
    by (cases "px_dlsym K h' ''_start'' w1") (auto simp: fork_load_def fork_error_argv)
  obtain rs where rs: "px_dlsym K h' ''_restart'' w1 = Some rs"
    using assms(1,2) d h mn st
    by (cases "px_dlsym K h' ''_restart'' w1") (auto simp: fork_load_def fork_error_argv)
  let ?c1 = "c0\<lparr>pr_name := Some nm, pr_path := Some pt, pr_cwd := Some cw, pr_dlHandle := Some h',
      pr_main := Some mn, pr_start := Some st, pr_restart := Some rs, pr_syscall := True,
      pr_state := pr_state p\<rparr>"
  obtain b c2 w2 where e: "setEnviron K (pr_environ p) ?c1 w1 = ((b, c2), w2)"
    by (metis surj_pair)
  from assms(1) d h mn st rs e have "r = Some c2" by (simp add: fork_load_def)
  moreover from setEnviron_result [OF e] have "fork_spec p c0 c2"
    unfolding fork_spec_def
    by (intro exI [of _ "if b then pr_environ p else None"] exI [of _ h'] exI [of _ mn]
        exI [of _ st] exI [of _ rs]) (use assms(3-5) in simp)
  ultimately show ?thesis by blast
qed

lemma fork_strings_result:
  assumes "fork_strings K p c0 w = Inr (r, w')" "pr_argv c0 = Some a"
  shows "\<exists>c. r = Some c \<and> fork_spec p c0 c"
proof -
  from assms obtain nm pt cw w1 where s: "pr_name p = Some nm" "pr_path p = Some pt" "pr_cwd p = Some cw"
    "fork_load K p nm pt cw c0 w1 = Inr (r, w')"
    by (auto simp: fork_strings_def need_def fault_simps fork_error_argv
        split: if_splits option.splits)
  from fork_load_result [OF s(4) assms(2) s(1-3)] show ?thesis .
qed

lemma forkCopy_cases:
  assumes "forkCopy K p w = Inr (r, w')" "proc_wf p"
  shows "r = None \<and> \<not> fst (px_malloc K (8 * nat (pr_argc p)) w) \<or>
    (\<exists>c args. r = Some c \<and> args = (case pr_argv p of None \<Rightarrow> [] | Some a \<Rightarrow> a) \<and>
       fork_spec p (Process_new\<lparr>pr_argv := Some args, pr_argc := int (length args)\<rparr>) c)"
proof -
  obtain ok0 w0 where m: "px_malloc K (8 * nat (pr_argc p)) w = (ok0, w0)"
    by (cases "px_malloc K (8 * nat (pr_argc p)) w")
  show ?thesis
  proof (cases ok0)
    case False
    with assms(1) m show ?thesis by (auto simp: forkCopy_def dest: fork_error_result)
  next
    case True
    define args where "args = (case pr_argv p of None \<Rightarrow> [] | Some a \<Rightarrow> a)"
    let ?c = "Process_new\<lparr>pr_argv := Some args, pr_argc := int (length args)\<rparr>"
    have ia: "info_args p = Inr args" using info_args_wf [OF assms(2)] by (simp add: args_def)
    obtain w1 where "fork_strings K p ?c w1 = Inr (r, w')"
      using assms(1) m True ia
      by (auto simp: forkCopy_def fork_error_argv Let_def split: prod.splits if_splits)
    from fork_strings_result [OF this] show ?thesis unfolding args_def by auto
  qed
qed

lemma forkCopy_Some:
  assumes "forkCopy K p w = Inr (Some c, w')" "proc_wf p"
  shows "pr_name c = pr_name p \<and> pr_path c = pr_path p \<and> pr_cwd c = pr_cwd p \<and> pr_state c = pr_state p \<and>
    pr_argv c = Some (case pr_argv p of None \<Rightarrow> [] | Some a \<Rightarrow> a) \<and>
    (pr_environ c = pr_environ p \<or> pr_environ c = None) \<and> pr_fds c = [] \<and> pr_posixPID c = -1 \<and>
    pr_name p \<noteq> None \<and> pr_path p \<noteq> None \<and> pr_cwd p \<noteq> None \<and>
    pr_dlHandle c \<noteq> None \<and> pr_main c \<noteq> None \<and> pr_start c \<noteq> None \<and> pr_restart c \<noteq> None \<and>
    pr_argc c = int (length (case pr_argv p of None \<Rightarrow> [] | Some a \<Rightarrow> a)) \<and>
    pr_info_environ c = pr_environ c"
  using forkCopy_cases [OF assms] by (auto simp: fork_spec_def Process_new_def)

lemma forkCopy_Some_wf:
  assumes "forkCopy K p w = Inr (Some c, w')" "proc_wf p" "pr_state p \<noteq> PrNone"
  shows "proc_wf c"
  using forkCopy_Some [OF assms(1,2)] assms(3) by (simp add: proc_wf_def)

lemma forkCopy_None:
  "forkCopy K p w = Inr (None, w') \<Longrightarrow> proc_wf p \<Longrightarrow> \<not> fst (px_malloc K (8 * nat (pr_argc p)) w)"
  by (drule (1) forkCopy_cases) auto

text \<open>The only fault of a copy is the double free of its error path.\<close>

lemma fork_error_fault: "fork_error c w = Inl x \<Longrightarrow> x = DoubleFree"
  by (simp add: fork_error_def split: if_splits)

lemma fork_load_fault: "fork_load K p nm pt cw c w = Inl x \<Longrightarrow> x = DoubleFree"
  by (auto simp: fork_load_def Let_def case_prod_unfold dest: fork_error_fault
      split: option.splits if_splits)

lemma fork_strings_fault:
  "fork_strings K p c w = Inl x \<Longrightarrow> proc_wf p \<Longrightarrow> pr_state p \<noteq> PrNone \<Longrightarrow> x = DoubleFree"
  by (auto simp: fork_strings_def need_def proc_wf_def case_prod_unfold
      dest: fork_error_fault fork_load_fault split: option.splits if_splits)

lemma forkCopy_fault:
  assumes "forkCopy K p w = Inl x" "proc_wf p" "pr_state p \<noteq> PrNone"
  shows "x = DoubleFree"
  using assms
  by (auto simp: forkCopy_def info_args_wf Let_def case_prod_unfold
      dest: fork_error_fault fork_strings_fault split: if_splits)

lemma fork_strings_no_library:
  assumes "proc_wf p" "pr_path p = Some pt" "malloc_total K" "\<And>v. fst (px_dlopen K pt v) = None"
    "pr_argv c = Some a"
  shows "fork_strings K p c w = Inl DoubleFree"
proof -
  have "pr_state p \<noteq> PrNone" using assms(1,2) by (auto simp: proc_wf_def)
  then obtain nm cw where "pr_name p = Some nm" "pr_cwd p = Some cw" using assms(1) by (auto simp: proc_wf_def)
  moreover have "fst (px_malloc K k v)" for k v using assms(3) by (simp add: malloc_total_def)
  ultimately show ?thesis
    using assms(2,4) fork_error_argv [OF assms(5)]
    by (simp add: fork_strings_def fork_load_def need_def case_prod_unfold)
qed

lemma forkCopy_no_library:
  assumes "proc_wf p" "pr_path p = Some pt" "malloc_total K" "\<And>v. fst (px_dlopen K pt v) = None"
  shows "forkCopy K p w = Inl DoubleFree"
proof -
  have "fst (px_malloc K k v)" for k v using assms(3) by (simp add: malloc_total_def)
  then show ?thesis
    using assms(3) fork_strings_no_library [OF assms]
    by (simp add: forkCopy_def info_args_wf [OF assms(1)] Let_def case_prod_unfold)
qed

section \<open>Descriptors\<close>

lemma fdAdd_put:
  "fdAdd v fds = (r, fds') \<Longrightarrow> \<exists>i. slot_put (\<lambda>x. x = -1) v fds = (i, fds') \<and> r = c_int i"
  by (cases "slot_put (\<lambda>x. x = -1) v fds") (simp add: fdAdd_def)

lemma fdRemove_length [simp]: "length (fdRemove v fds) = length fds"
  by (simp add: fdRemove_def Let_def)

lemma fdRemove_distinct:
  assumes "i < length fds" "fds ! i = v" "\<forall>j < length fds. fds ! j = v \<longrightarrow> j = i"
  shows "fdRemove v fds = vec_clear (-1) i fds"
proof -
  have "slot_index (\<lambda>x. x = v) fds = i"
  proof (rule slot_index_eqI)
    fix j assume "j < i"
    moreover from this assms(1) have "j < length fds" by simp
    ultimately show "fds ! j \<noteq> v" using assms(3) by blast
  qed (fact assms(1), fact assms(2))
  with assms(1) show ?thesis by (simp add: fdRemove_def vec_clear_def)
qed

lemma fdRemove_notin: "v \<notin> set fds \<Longrightarrow> fdRemove v fds = fds"
  by (simp add: fdRemove_def Let_def slot_index_less_iff)

end
