(* ===== verification/ServerState.thy ===== *)
theory ServerState
  imports DevTable Proc
begin

text \<open>
  The state of \<^verbatim>\<open>class Server\<close> (\<^verbatim>\<open>src/server/server.h\<close>), its table of descriptor entries
  and the part of the state the other classes share with it. An \<^verbatim>\<open>FdEntry\<close> has its type
  tag and union as one datatype; \<^verbatim>\<open>refCount\<close> is not written by \<^verbatim>\<open>fdCreate\<close>. A
  \<^verbatim>\<open>Process *\<close> is an index into \<open>sv_procs\<close>, a \<^verbatim>\<open>Socket *\<close> one into \<open>sv_sockets\<close>.
  \<open>server_inv\<close> is what every operation of the server keeps.
\<close>

datatype fd_data =
    FdTypeNone
  | FdTypeFd int
  | FdTypeSocket nat
  | FdTypeDevice device

record fd_entry =
  fe_fd :: int
  fe_refCount :: "u32 option"
  fe_d :: fd_data

record server =
  sv_fdEntries :: "fd_entry option list"
  sv_procs :: "process list"
  sv_filesystem :: "fsdirect option"
  sv_connections :: "connection list"
  sv_tcpSockFd :: int
  sv_tcpPort :: int
  sv_fdSetActive :: "int list"
  sv_database :: bool \<comment> \<open>not NULL\<close>
  sv_stopFlag :: bool
  sv_devices :: devices
  sv_sockets :: "socket list"

definition Server_new :: "int \<Rightarrow> server" where
  "Server_new port =
     \<lparr>sv_fdEntries = [], sv_procs = [Process_new], sv_filesystem = None, sv_connections = [],
      sv_tcpSockFd = -1, sv_tcpPort = port, sv_fdSetActive = [], sv_database = False,
      sv_stopFlag = False, sv_devices = [], sv_sockets = []\<rparr>"

section \<open>Descriptor entries\<close>

definition fdGet :: "int \<Rightarrow> fd_entry option list \<Rightarrow> fd_entry option" where
  "fdGet fd es = (if 0 \<le> fd \<and> nat fd < length es then es ! nat fd else None)"

definition fd_unused :: "fd_entry option \<Rightarrow> bool" where
  "fd_unused e \<longleftrightarrow> (case e of None \<Rightarrow> True | Some x \<Rightarrow> fe_d x = FdTypeNone)"

definition fd_entry_new :: "nat \<Rightarrow> fd_entry" where
  "fd_entry_new i = \<lparr>fe_fd = c_int i, fe_refCount = None, fe_d = FdTypeNone\<rparr>"

definition sizeof_FdEntry :: nat where
  "sizeof_FdEntry = 24"

definition fdCreate ::
    "'w posix \<Rightarrow> fd_entry option list \<Rightarrow> 'w \<Rightarrow> (int \<times> fd_entry option list) \<times> 'w" where
  "fdCreate K es w =
     (let i = slot_index fd_unused es
      in if i < length es \<and> es ! i \<noteq> None then ((c_int i, es), w)
         else case px_malloc K sizeof_FdEntry w of (ok, w') \<Rightarrow>
           if \<not> ok then ((-1, es), w')
           else if i < length es then ((c_int i, es[i := Some (fd_entry_new i)]), w')
           else ((c_int i, es @ [Some (fd_entry_new i)]), w'))"

interpretation entry_slots:
  slot_table "vec_look (\<lambda>e :: fd_entry option. e = None)" length "\<lambda>v. \<not> v = None"
    "slot_put (\<lambda>e. e = None)" "vec_clear None"
  by (rule vec_slot_table) simp

section \<open>The invariant of the server\<close>

definition entries_ok :: "fd_entry option list \<Rightarrow> bool" where
  "entries_ok es \<longleftrightarrow> length es \<le> 2 ^ 31 \<and>
     (\<forall>k e. k < length es \<longrightarrow> es ! k = Some e \<longrightarrow>
        fe_fd e = int k \<and> fe_refCount e = Some 1 \<and> fe_d e \<noteq> FdTypeNone)"

definition fd_slot :: "server \<Rightarrow> nat \<Rightarrow> nat \<Rightarrow> int option" where
  \<comment> \<open>the server descriptor in a slot of a process\<close>
  "fd_slot s p i =
     (if p < length (sv_procs s) then vec_look (\<lambda>x. x = -1) (pr_fds (sv_procs s ! p)) i else None)"

definition slots_ok :: "fd_entry option list \<Rightarrow> (nat \<Rightarrow> nat \<Rightarrow> int option) \<Rightarrow> bool" where
  "slots_ok es sl \<longleftrightarrow>
     (\<forall>p i fd. sl p i = Some fd \<longrightarrow> fdGet fd es \<noteq> None) \<and>
     (\<forall>p i q j fd. sl p i = Some fd \<longrightarrow> sl q j = Some fd \<longrightarrow> p = q \<and> i = j)"

definition dev_ok :: "nat \<Rightarrow> device \<Rightarrow> bool" where
  "dev_ok n d \<longleftrightarrow> (case d of DeviceSocket (Some i) \<Rightarrow> i < n | _ \<Rightarrow> True)"

definition data_ok :: "nat \<Rightarrow> fd_data \<Rightarrow> bool" where
  "data_ok n d \<longleftrightarrow> (case d of FdTypeSocket i \<Rightarrow> i < n | FdTypeDevice x \<Rightarrow> dev_ok n x | _ \<Rightarrow> True)"

definition sockets_ok :: "server \<Rightarrow> bool" where
  "sockets_ok s \<longleftrightarrow>
     (\<forall>sk \<in> set (sv_sockets s). sock_wf sk) \<and>
     (\<forall>c \<in> set (sv_connections s). con_sock c < length (sv_sockets s)) \<and>
     (\<forall>e \<in> set (sv_devices s). dev_ok (length (sv_sockets s)) (de_device e)) \<and>
     (\<forall>e. Some e \<in> set (sv_fdEntries s) \<longrightarrow> data_ok (length (sv_sockets s)) (fe_d e))"

definition server_inv :: "server \<Rightarrow> bool" where
  "server_inv s \<longleftrightarrow>
     entries_ok (sv_fdEntries s) \<and> slots_ok (sv_fdEntries s) (fd_slot s) \<and> sockets_ok s \<and>
     dev_inv (sv_devices s) \<and> (\<forall>p \<in> set (sv_procs s). proc_wf p)"

lemma server_invI:
  "entries_ok (sv_fdEntries s) \<Longrightarrow> slots_ok (sv_fdEntries s) (fd_slot s) \<Longrightarrow> sockets_ok s \<Longrightarrow>
   dev_inv (sv_devices s) \<Longrightarrow> (\<And>p. p \<in> set (sv_procs s) \<Longrightarrow> proc_wf p) \<Longrightarrow> server_inv s"
  by (simp add: server_inv_def)

lemma server_invD:
  assumes "server_inv s"
  shows "entries_ok (sv_fdEntries s)" "slots_ok (sv_fdEntries s) (fd_slot s)" "sockets_ok s"
    "dev_inv (sv_devices s)" "p \<in> set (sv_procs s) \<Longrightarrow> proc_wf p"
    "i < length (sv_procs s) \<Longrightarrow> proc_wf (sv_procs s ! i)"
  using assms by (auto simp: server_inv_def)

lemma server_inv_new: "server_inv (Server_new port)"
  by (rule server_invI)
    (auto simp: Server_new_def entries_ok_def slots_ok_def fd_slot_def vec_look_def sockets_ok_def
      dev_inv_def Process_new_def proc_wf_new [unfolded Process_new_def])

section \<open>Facts about entries\<close>

lemma fdGet_int: "fdGet (int k) es = (if k < length es then es ! k else None)"
  by (simp add: fdGet_def)

lemma fdGet_neg [simp]: "fdGet (-1) es = None"
  by (simp add: fdGet_def)

lemma fdGet_Some: "fdGet fd es = Some e \<Longrightarrow> 0 \<le> fd \<and> nat fd < length es \<and> es ! nat fd = Some e"
  by (simp add: fdGet_def split: if_splits)

lemma entries_ok_get:
  "entries_ok es \<Longrightarrow> fdGet fd es = Some e \<Longrightarrow>
   fe_fd e = fd \<and> fe_refCount e = Some 1 \<and> fe_d e \<noteq> FdTypeNone"
  by (drule fdGet_Some) (auto simp: entries_ok_def)

lemma entries_ok_unused:
  assumes "entries_ok es"
  shows "slot_index fd_unused es = slot_index (\<lambda>e. e = None) es"
proof -
  have "fd_unused e \<longleftrightarrow> e = None" if "e \<in> set es" for e
    using assms that by (auto simp: entries_ok_def fd_unused_def in_set_conv_nth split: option.splits)
  then show ?thesis by (induction es) auto
qed

text \<open>
  With well-formed entries \<^verbatim>\<open>fdCreate\<close> is the search for the lowest free slot, or it fails
  to allocate and changes nothing.
\<close>

lemma fdCreate_result:
  assumes "entries_ok es" "fdCreate K es w = ((r, es'), w')"
  shows "(r = -1 \<and> es' = es \<and> \<not> fst (px_malloc K sizeof_FdEntry w)) \<or>
    (\<exists>k. r = c_int k \<and> fst (px_malloc K sizeof_FdEntry w) \<and>
       slot_put (\<lambda>e. e = None) (Some (fd_entry_new k)) es = (k, es'))"
proof -
  define i where "i = slot_index (\<lambda>e. e = None) es"
  have i: "slot_index fd_unused es = i" using entries_ok_unused [OF assms(1)] by (simp add: i_def)
  have none: "i < length es \<Longrightarrow> es ! i = None"
    using slot_index_nth [of "\<lambda>e. e = None" es] by (simp add: i_def)
  obtain ok v where m: "px_malloc K sizeof_FdEntry w = (ok, v)" by fastforce
  show ?thesis
  proof (cases ok)
    case False
    with assms(2) i none m show ?thesis by (auto simp: fdCreate_def Let_def split: if_splits)
  next
    case True
    with assms(2) i none m have "r = c_int i \<and>
        es' = (if i < length es then es[i := Some (fd_entry_new i)] else es @ [Some (fd_entry_new i)])"
      by (auto simp: fdCreate_def Let_def split: if_splits)
    with True m show ?thesis by (auto simp: slot_put_def Let_def i_def)
  qed
qed

end
