(* ===== verification/FdOps.thy ===== *)
theory FdOps
  imports ServerState
begin

text \<open>
  The descriptor operations of \<^verbatim>\<open>src/server/server.cpp\<close>: fdRead, fdWrite, the fdOpen
  family and fdClose. \<open>pid\<close> is the process they are called for, by index. What the three
  fdOpen functions do once the thing to open is there (create an entry, fill it in, add
  it to the process) is the same code in each and is \<open>fd_install\<close> here; it yields \<open>None\<close>
  where \<^verbatim>\<open>fdCreate\<close> returns -1.
\<close>

definition upd_proc :: "nat \<Rightarrow> (process \<Rightarrow> process) \<Rightarrow> server \<Rightarrow> server" where
  "upd_proc pid f s = s\<lparr>sv_procs := (sv_procs s)[pid := f (sv_procs s ! pid)]\<rparr>"

definition fdWrite :: "'w posix \<Rightarrow> server \<Rightarrow> int \<Rightarrow> string \<Rightarrow> 'w \<Rightarrow> fault + (int \<times> 'w)" where
  "fdWrite K s fd buf w =
     (case fdGet fd (sv_fdEntries s) of
        None \<Rightarrow> Inr (-1, w)
      | Some e \<Rightarrow>
          (case fe_d e of
             FdTypeNone \<Rightarrow> Inr (-1, w)
           | FdTypeFd x \<Rightarrow> Inr (px_write K x buf w)
           | FdTypeSocket i \<Rightarrow> and_then (sock_at (sv_sockets s) i) (\<lambda>sk. sock_write K sk buf w)
           | FdTypeDevice d \<Rightarrow> dev_write K (sv_sockets s) d buf w))"

definition fdRead ::
    "'w posix \<Rightarrow> server \<Rightarrow> int \<Rightarrow> bool \<Rightarrow> nat \<Rightarrow> 'w \<Rightarrow> fault + ((int \<times> string) \<times> 'w)" where
  "fdRead K s fd buf count w =
     (case fdGet fd (sv_fdEntries s) of
        None \<Rightarrow> Inr ((-1, []), w)
      | Some e \<Rightarrow>
          (case fe_d e of
             FdTypeNone \<Rightarrow> Inr ((-1, []), w)
           | FdTypeFd x \<Rightarrow> Inr (px_read K x count w)
           | FdTypeSocket i \<Rightarrow> and_then (sock_at (sv_sockets s) i) (\<lambda>sk. sock_read K sk count w)
           | FdTypeDevice d \<Rightarrow> dev_read K (sv_sockets s) d buf count w))"

definition fd_install ::
    "'w posix \<Rightarrow> nat \<Rightarrow> fd_data \<Rightarrow> server \<Rightarrow> 'w \<Rightarrow> fault + ((int option \<times> server) \<times> 'w)" where
  "fd_install K pid d s w =
     (case fdCreate K (sv_fdEntries s) w of ((fd, es), w') \<Rightarrow>
        if fd = -1 then Inr ((None, s\<lparr>sv_fdEntries := es\<rparr>), w')
        else case fdGet fd es of
          None \<Rightarrow> Inl NullDeref
        | Some e \<Rightarrow>
            (let e' = e\<lparr>fe_d := d, fe_refCount := Some 1\<rparr>;
                 s1 = s\<lparr>sv_fdEntries := es[nat fd := Some e']\<rparr>
             in case fdAdd (fe_fd e') (pr_fds (sv_procs s1 ! pid)) of (procFd, fds) \<Rightarrow>
               Inr ((Some procFd, upd_proc pid (\<lambda>p. p\<lparr>pr_fds := fds\<rparr>) s1), w')))"

definition fdOpenSocket ::
    "'w posix \<Rightarrow> nat \<Rightarrow> nat \<Rightarrow> server \<Rightarrow> 'w \<Rightarrow> fault + ((int \<times> server) \<times> 'w)" where
  "fdOpenSocket K pid sock s w =
     and_then (fd_install K pid (FdTypeSocket sock) s w) (\<lambda>((r, s'), w').
       Inr ((case r of None \<Rightarrow> -1 | Some procFd \<Rightarrow> procFd, s'), w'))"

definition fdOpenFdFromDevice ::
    "'w posix \<Rightarrow> nat \<Rightarrow> string \<Rightarrow> int \<Rightarrow> int \<Rightarrow> server \<Rightarrow> 'w \<Rightarrow> fault + ((int \<times> server) \<times> 'w)" where
  "fdOpenFdFromDevice K pid name flags mode s w =
     and_then (dev_open name (sv_devices s)) (\<lambda>(device, ds).
       case device of
         None \<Rightarrow> Inr ((-1, s\<lparr>sv_devices := ds\<rparr>), w)
       | Some d \<Rightarrow>
           and_then (fd_install K pid (FdTypeDevice d) (s\<lparr>sv_devices := ds\<rparr>) w) (\<lambda>((r, s'), w').
             Inr ((case r of None \<Rightarrow> -1 | Some procFd \<Rightarrow> procFd, s'), w')))"

definition fdOpenFdFromFile ::
    "'w posix \<Rightarrow> nat \<Rightarrow> string \<Rightarrow> int \<Rightarrow> int \<Rightarrow> server \<Rightarrow> 'w \<Rightarrow> fault + ((int \<times> server) \<times> 'w)" where
  "fdOpenFdFromFile K pid pth flags mode s w =
     and_then (need (sv_filesystem s)) (\<lambda>fs.
       and_then (fileLocalPath K fs pth w) (\<lambda>(localPath, w1).
         case localPath of
           None \<Rightarrow> Inr ((-1, s), w1)
         | Some l \<Rightarrow>
             (case px_open K l flags mode w1 of (pathFd, w2) \<Rightarrow>
               if pathFd = -1 then Inr ((-1, s), w2)
               else and_then (fd_install K pid (FdTypeFd pathFd) s w2) (\<lambda>((r, s'), w3).
                 case r of
                   None \<Rightarrow> Inr ((-1, s'), if pathFd \<ge> 0 then snd (px_close K pathFd w3) else w3)
                 | Some procFd \<Rightarrow> Inr ((procFd, s'), w3)))))"

definition dev_prefix :: string where
  "dev_prefix = ''/dev/''"

definition fdOpenFdFromPath ::
    "'w posix \<Rightarrow> nat \<Rightarrow> string \<Rightarrow> int \<Rightarrow> int \<Rightarrow> server \<Rightarrow> 'w \<Rightarrow> fault + ((int \<times> server) \<times> 'w)" where
  "fdOpenFdFromPath K pid pth flags mode s w =
     (if strncmp_eq pth dev_prefix 5
      then fdOpenFdFromDevice K pid (drop 5 pth) flags mode s w
      else fdOpenFdFromFile K pid pth flags mode s w)"

text \<open>
  \<^verbatim>\<open>fdClose\<close>: the call that closes what the entry refers to, which may fail, and then the
  removal of the entry and of the descriptor in the process.
\<close>

definition close_data ::
    "'w posix \<Rightarrow> fd_data \<Rightarrow> server \<Rightarrow> 'w \<Rightarrow> fault + ((bool \<times> server) \<times> 'w)" where
  "close_data K d s w =
     (case d of
        FdTypeFd x \<Rightarrow> (case px_close K x w of (r, w') \<Rightarrow> Inr ((r \<noteq> -1, s), w'))
      | FdTypeSocket i \<Rightarrow>
          and_then (sock_at (sv_sockets s) i) (\<lambda>sk.
            and_then (sock_close K sk w) (\<lambda>((ok, sk'), w').
              Inr ((ok, s\<lparr>sv_sockets := (sv_sockets s)[i := sk']\<rparr>), w')))
      | FdTypeDevice x \<Rightarrow> Inr ((True, s), w)
      | FdTypeNone \<Rightarrow> Inr ((False, s), w))"

definition fdClose ::
    "'w posix \<Rightarrow> nat \<Rightarrow> int \<Rightarrow> server \<Rightarrow> 'w \<Rightarrow> fault + ((bool \<times> server) \<times> 'w)" where
  "fdClose K pid fd s w =
     (case fdGet fd (sv_fdEntries s) of
        None \<Rightarrow> Inr ((False, s), w)
      | Some e \<Rightarrow>
          (case fe_refCount e of
             None \<Rightarrow> Inl UninitRead
           | Some n \<Rightarrow>
               if \<not> n > 0 then Inl AssertFailed
               else
                 and_then
                   (if n \<le> 1 then
                      and_then (close_data K (fe_d e) s w) (\<lambda>((ok, s1), w1).
                        Inr ((ok, if ok then s1\<lparr>sv_fdEntries := (sv_fdEntries s1)[nat fd := None]\<rparr>
                                  else s1), w1))
                    else Inr ((True, s\<lparr>sv_fdEntries :=
                           (sv_fdEntries s)[nat fd := Some (e\<lparr>fe_refCount := Some (n - 1)\<rparr>)]\<rparr>), w))
                   (\<lambda>((ok, s2), w2).
                     if ok then Inr ((True, upd_proc pid (\<lambda>p. p\<lparr>pr_fds := fdRemove fd (pr_fds p)\<rparr>) s2), w2)
                     else Inr ((False, s2), w2))))"

end
