(* ===== verification/FdInv.thy ===== *)
theory FdInv
  imports FdOps
begin

text \<open>
  What the descriptor operations do to the table of entries and to the descriptors of
  the processes, seen as lookup functions (\<open>elook\<close>, \<open>fd_slot\<close>), and that they keep
  \<open>server_inv\<close>. The contract of \<open>slot_table\<close> supplies the facts about both tables.
\<close>

abbreviation elook :: "fd_entry option list \<Rightarrow> nat \<Rightarrow> fd_entry option option" where
  "elook es \<equiv> vec_look (\<lambda>e. e = None) es"

lemma fdGet_elook: "fdGet fd es = Some e \<longleftrightarrow> 0 \<le> fd \<and> elook es (nat fd) = Some (Some e)"
  by (auto simp: fdGet_def vec_look_def)

lemma fdGet_None_elook: "fdGet fd es = None \<longleftrightarrow> (0 \<le> fd \<longrightarrow> elook es (nat fd) = None)"
  by (auto simp: fdGet_def vec_look_def)

section \<open>Keeping slots and entries in step\<close>

lemma slots_ok_put:
  assumes "slots_ok es sl" "elook es k = None" "elook es' = (elook es)(k \<mapsto> e)" "sl p i = None"
  shows "slots_ok es' (sl(p := (sl p)(i \<mapsto> int k)))"
proof -
  have fresh: "sl q j \<noteq> Some (int k)" for q j
  proof
    assume "sl q j = Some (int k)"
    with assms(1) have "fdGet (int k) es \<noteq> None" by (auto simp: slots_ok_def)
    with assms(2) show False by (simp add: fdGet_None_elook)
  qed
  have "fdGet fd es' \<noteq> None" if "(sl(p := (sl p)(i \<mapsto> int k))) q j = Some fd" for q j fd
    using that assms(1,3) by (auto simp: slots_ok_def fdGet_None_elook split: if_splits)
  moreover have "q = q' \<and> j = j'"
    if "(sl(p := (sl p)(i \<mapsto> int k))) q j = Some fd" "(sl(p := (sl p)(i \<mapsto> int k))) q' j' = Some fd"
    for q j q' j' fd
  proof (cases "fd = int k")
    case True
    with that fresh show ?thesis by (auto split: if_splits)
  next
    case False
    with that have "sl q j = Some fd" "sl q' j' = Some fd" by (auto split: if_splits)
    with assms(1) show ?thesis by (auto simp: slots_ok_def)
  qed
  ultimately show ?thesis unfolding slots_ok_def by blast
qed

lemma slots_ok_clear:
  assumes "slots_ok es sl" "sl p i = Some fd" "elook es' = (elook es)(nat fd := None)"
  shows "slots_ok es' (sl(p := (sl p)(i := None)))"
proof -
  have other: "fd' \<noteq> fd" if "sl q j = Some fd'" "\<not> (q = p \<and> j = i)" for q j fd'
    using that assms(1,2) unfolding slots_ok_def by blast
  have "fdGet fd' es' \<noteq> None" if "(sl(p := (sl p)(i := None))) q j = Some fd'" for q j fd'
  proof -
    from that have o: "sl q j = Some fd'" "\<not> (q = p \<and> j = i)" by (auto split: if_splits)
    have "0 \<le> fd" "0 \<le> fd'" "elook es (nat fd') \<noteq> None"
      using o(1) assms(1,2) by (auto simp: slots_ok_def fdGet_None_elook)
    with other [OF o] assms(3) show ?thesis by (simp add: fdGet_None_elook nat_eq_iff)
  qed
  moreover have "q = q' \<and> j = j'"
    if "(sl(p := (sl p)(i := None))) q j = Some f" "(sl(p := (sl p)(i := None))) q' j' = Some f"
    for q j q' j' f
    using that assms(1) unfolding slots_ok_def by (metis fun_upd_apply option.distinct(1))
  ultimately show ?thesis unfolding slots_ok_def by blast
qed

lemma slots_ok_sub:
  assumes "slots_ok es sl" "\<And>p i fd. sl' p i = Some fd \<Longrightarrow> sl p i = Some fd"
  shows "slots_ok es sl'"
  using assms unfolding slots_ok_def by meson

lemma entries_ok_put:
  assumes "entries_ok es" "length es < 2 ^ 31" "slot_put (\<lambda>e. e = None) (Some e) es = (k, es')"
    "fe_fd e = int k" "fe_refCount e = Some 1" "fe_d e \<noteq> FdTypeNone"
  shows "entries_ok es'"
proof -
  note c = slot_put_cases [OF assms(3)]
  from c assms(2) have "length es' \<le> 2 ^ 31" by auto
  moreover have "fe_fd x = int j \<and> fe_refCount x = Some 1 \<and> fe_d x \<noteq> FdTypeNone"
    if "j < length es'" "es' ! j = Some x" for j x
  proof (cases "j = k")
    case True
    with that assms(3-6) slot_put_nth [OF assms(3)] show ?thesis by simp
  next
    case False
    from c that(1) False have "j < length es" by auto
    with that slot_put_other [OF assms(3) False] assms(1) show ?thesis by (simp add: entries_ok_def)
  qed
  ultimately show ?thesis by (simp add: entries_ok_def)
qed

lemma entries_ok_clear: "entries_ok es \<Longrightarrow> entries_ok (es[k := None])"
  by (auto simp: entries_ok_def nth_list_update_if split: if_splits)

lemma data_ok_mono: "data_ok n d \<Longrightarrow> n \<le> m \<Longrightarrow> data_ok m d"
  by (auto simp: data_ok_def dev_ok_def split: fd_data.splits device.splits option.splits)

section \<open>The descriptors of the processes\<close>

lemma fd_slot_upd:
  assumes "p < length (sv_procs s)"
  shows "fd_slot (upd_proc p (\<lambda>x. x\<lparr>pr_fds := fds\<rparr>) s) = (fd_slot s)(p := vec_look (\<lambda>x. x = -1) fds)"
  using assms by (auto simp: fd_slot_def upd_proc_def fun_eq_iff nth_list_update)

lemma fd_slot_frame:
  "sv_procs s' = sv_procs s \<Longrightarrow> fd_slot s' = fd_slot s"
  by (simp add: fd_slot_def fun_eq_iff)

lemma fd_slot_Some:
  "fd_slot s p i = Some fd \<longleftrightarrow>
   p < length (sv_procs s) \<and> i < length (pr_fds (sv_procs s ! p)) \<and> pr_fds (sv_procs s ! p) ! i = fd \<and> fd \<noteq> -1"
  by (auto simp: fd_slot_def vec_look_def)

lemma proc_wf_upd_fds:
  "(\<And>x. x \<in> set (sv_procs s) \<Longrightarrow> proc_wf x) \<Longrightarrow> p < length (sv_procs s) \<Longrightarrow>
   x \<in> set (sv_procs (upd_proc p (\<lambda>x. x\<lparr>pr_fds := fds\<rparr>) s)) \<Longrightarrow> proc_wf x"
  using set_list_update_sub [of "sv_procs s" p] proc_wf_fds [of "sv_procs s ! p" fds]
  by (force simp: upd_proc_def)

section \<open>Installing a descriptor\<close>

definition installed :: "server \<Rightarrow> nat \<Rightarrow> fd_data \<Rightarrow> nat \<Rightarrow> nat \<Rightarrow> server \<Rightarrow> bool" where
  \<comment> \<open>entry \<open>k\<close> and slot \<open>i\<close> of the process, both the lowest free ones, now hold it\<close>
  "installed s pid d k i s' \<longleftrightarrow>
     slot_put (\<lambda>e. e = None) (Some \<lparr>fe_fd = int k, fe_refCount = Some 1, fe_d = d\<rparr>)
       (sv_fdEntries s) = (k, sv_fdEntries s') \<and>
     (\<exists>fds. slot_put (\<lambda>x. x = -1) (int k) (pr_fds (sv_procs s ! pid)) = (i, fds) \<and>
        s' = upd_proc pid (\<lambda>p. p\<lparr>pr_fds := fds\<rparr>) (s\<lparr>sv_fdEntries := sv_fdEntries s'\<rparr>))"

lemma slot_put_replace:
  assumes "slot_put free v xs = (k, ys)"
  shows "slot_put free u xs = (k, ys[k := u])"
  using assms slot_put_cases [OF assms] by (auto simp: slot_put_def Let_def split: if_splits)

lemma fd_install_result:
  assumes "entries_ok (sv_fdEntries s)" "length (sv_fdEntries s) < 2 ^ 31"
    "fd_install K pid d s w = Inr ((r, s'), w')"
  shows "r = None \<and> s' = s \<and> \<not> fst (px_malloc K sizeof_FdEntry w) \<or>
    (\<exists>k i. r = Some (c_int i) \<and> installed s pid d k i s')"
proof -
  obtain fd es1 w1 where c: "fdCreate K (sv_fdEntries s) w = ((fd, es1), w1)" by (metis surj_pair)
  from fdCreate_result [OF assms(1) c] show ?thesis
  proof (elim disjE exE conjE)
    assume "fd = -1" "es1 = sv_fdEntries s" "\<not> fst (px_malloc K sizeof_FdEntry w)"
    with assms(3) c show ?thesis by (simp add: fd_install_def)
  next
    fix k
    assume k: "fd = c_int k"
      and put: "slot_put (\<lambda>e. e = None) (Some (fd_entry_new k)) (sv_fdEntries s) = (k, es1)"
    from slot_put_cases [OF put] assms(2) have small: "k < 2 ^ 31" by auto
    then have kfd: "fd = int k" by (simp add: k c_int_small)
    have get: "fdGet fd es1 = Some (fd_entry_new k)"
      using slot_put_nth [OF put] by (simp add: kfd fdGet_int)
    let ?e = "\<lparr>fe_fd = int k, fe_refCount = Some 1, fe_d = d\<rparr>"
    obtain i fds where f: "slot_put (\<lambda>x. x = -1) (int k) (pr_fds (sv_procs s ! pid)) = (i, fds)"
      by fastforce
    have new: "(fd_entry_new k)\<lparr>fe_d := d, fe_refCount := Some 1\<rparr> = ?e"
      using small by (simp add: fd_entry_new_def c_int_small)
    from assms(3) c get new f kfd
    have r: "r = Some (c_int i)" and s': "s' = upd_proc pid (\<lambda>p. p\<lparr>pr_fds := fds\<rparr>)
        (s\<lparr>sv_fdEntries := es1[k := Some ?e]\<rparr>)"
      by (simp_all add: fd_install_def fdAdd_def Let_def)
    from slot_put_replace [OF put, of "Some ?e"] s' f have "installed s pid d k i s'"
      by (simp add: installed_def upd_proc_def)
    with r show ?thesis by blast
  qed
qed

lemma fd_install_no_fault:
  assumes "entries_ok (sv_fdEntries s)" "length (sv_fdEntries s) < 2 ^ 31"
  shows "fd_install K pid d s w \<noteq> Inl e"
proof -
  obtain fd es1 w1 where c: "fdCreate K (sv_fdEntries s) w = ((fd, es1), w1)" by (metis surj_pair)
  from fdCreate_result [OF assms(1) c] show ?thesis
  proof (elim disjE exE conjE)
    assume "fd = -1"
    with c show ?thesis by (simp add: fd_install_def)
  next
    fix k
    assume k: "fd = c_int k"
      and put: "slot_put (\<lambda>e. e = None) (Some (fd_entry_new k)) (sv_fdEntries s) = (k, es1)"
    from slot_put_cases [OF put] assms(2) have "k < 2 ^ 31" by auto
    then have "fd = int k" by (simp add: k c_int_small)
    with slot_put_nth [OF put] have "fdGet fd es1 = Some (fd_entry_new k)" by (simp add: fdGet_int)
    with c show ?thesis by (simp add: fd_install_def Let_def split: prod.splits)
  qed
qed

lemma installed_frame:
  assumes "installed s pid d k i s'"
  shows "sv_filesystem s' = sv_filesystem s" "sv_connections s' = sv_connections s"
    "sv_devices s' = sv_devices s" "sv_sockets s' = sv_sockets s" "sv_stopFlag s' = sv_stopFlag s"
    "sv_tcpSockFd s' = sv_tcpSockFd s" "sv_tcpPort s' = sv_tcpPort s"
    "sv_fdSetActive s' = sv_fdSetActive s" "sv_database s' = sv_database s"
    "length (sv_procs s') = length (sv_procs s)"
proof -
  from assms obtain fds where s': "s' = upd_proc pid (\<lambda>p. p\<lparr>pr_fds := fds\<rparr>) (s\<lparr>sv_fdEntries := sv_fdEntries s'\<rparr>)"
    by (auto simp: installed_def)
  then obtain es where "s' = upd_proc pid (\<lambda>p. p\<lparr>pr_fds := fds\<rparr>) (s\<lparr>sv_fdEntries := es\<rparr>)"
    by blast
  then show "sv_filesystem s' = sv_filesystem s" "sv_connections s' = sv_connections s"
    "sv_devices s' = sv_devices s" "sv_sockets s' = sv_sockets s" "sv_stopFlag s' = sv_stopFlag s"
    "sv_tcpSockFd s' = sv_tcpSockFd s" "sv_tcpPort s' = sv_tcpPort s"
    "sv_fdSetActive s' = sv_fdSetActive s" "sv_database s' = sv_database s"
    "length (sv_procs s') = length (sv_procs s)"
    by (simp_all add: upd_proc_def)
qed

lemma installed_look:
  assumes "installed s pid d k i s'" "pid < length (sv_procs s)"
  shows "elook (sv_fdEntries s) k = None"
    "elook (sv_fdEntries s') = (elook (sv_fdEntries s))
       (k \<mapsto> Some \<lparr>fe_fd = int k, fe_refCount = Some 1, fe_d = d\<rparr>)"
    "fd_slot s pid i = None"
    "fd_slot s' = (fd_slot s)(pid := (fd_slot s pid)(i \<mapsto> int k))"
    "k \<le> length (sv_fdEntries s)"
    "i \<le> length (pr_fds (sv_procs s ! pid))"
    "j < k \<Longrightarrow> elook (sv_fdEntries s) j \<noteq> None"
    "j < i \<Longrightarrow> fd_slot s pid j \<noteq> None"
proof -
  from assms(1) obtain fds
    where e: "slot_put (\<lambda>e. e = None) (Some \<lparr>fe_fd = int k, fe_refCount = Some 1, fe_d = d\<rparr>)
       (sv_fdEntries s) = (k, sv_fdEntries s')"
      and f: "slot_put (\<lambda>x. x = -1) (int k) (pr_fds (sv_procs s ! pid)) = (i, fds)"
      and s': "s' = upd_proc pid (\<lambda>p. p\<lparr>pr_fds := fds\<rparr>) (s\<lparr>sv_fdEntries := sv_fdEntries s'\<rparr>)"
    by (auto simp: installed_def)
  show "elook (sv_fdEntries s) k = None" by (rule entry_slots.put_free [OF e])
  show "elook (sv_fdEntries s') = (elook (sv_fdEntries s))
       (k \<mapsto> Some \<lparr>fe_fd = int k, fe_refCount = Some 1, fe_d = d\<rparr>)"
    by (rule entry_slots.put_look [OF _ e]) simp
  show "k \<le> length (sv_fdEntries s)" by (rule entry_slots.put_index_le [OF e])
  show "i \<le> length (pr_fds (sv_procs s ! pid))" by (rule proc_fds.put_index_le [OF f])
  have slot: "fd_slot s pid = vec_look (\<lambda>x. x = -1) (pr_fds (sv_procs s ! pid))"
    using assms(2) by (simp add: fd_slot_def fun_eq_iff)
  show "fd_slot s pid i = None" unfolding slot by (rule proc_fds.put_free [OF f])
  show "j < k \<Longrightarrow> elook (sv_fdEntries s) j \<noteq> None" by (rule entry_slots.put_least [OF e])
  show "j < i \<Longrightarrow> fd_slot s pid j \<noteq> None" unfolding slot by (rule proc_fds.put_least [OF f])
  have "fd_slot s' = (fd_slot (s\<lparr>sv_fdEntries := sv_fdEntries s'\<rparr>))(pid := vec_look (\<lambda>x. x = -1) fds)"
    by (subst s') (rule fd_slot_upd, simp add: assms(2))
  also have "vec_look (\<lambda>x. x = -1) fds = (fd_slot s pid)(i \<mapsto> int k)"
    unfolding slot by (rule proc_fds.put_look [OF _ f]) simp
  also have "fd_slot (s\<lparr>sv_fdEntries := sv_fdEntries s'\<rparr>) = fd_slot s" by (rule fd_slot_frame) simp
  finally show "fd_slot s' = (fd_slot s)(pid := (fd_slot s pid)(i \<mapsto> int k))" .
qed

lemma server_inv_installed:
  assumes "server_inv s" "length (sv_fdEntries s) < 2 ^ 31" "pid < length (sv_procs s)"
    "installed s pid d k i s'" "d \<noteq> FdTypeNone" "data_ok (length (sv_sockets s)) d"
  shows "server_inv s'"
proof (rule server_invI)
  note inv = server_invD [OF assms(1)]
  note look = installed_look [OF assms(4,3)]
  note frame = installed_frame [OF assms(4)]
  let ?e = "\<lparr>fe_fd = int k, fe_refCount = Some 1, fe_d = d\<rparr>"
  from assms(4) obtain fds
    where e: "slot_put (\<lambda>e. e = None) (Some ?e) (sv_fdEntries s) = (k, sv_fdEntries s')"
      and s': "s' = upd_proc pid (\<lambda>p. p\<lparr>pr_fds := fds\<rparr>) (s\<lparr>sv_fdEntries := sv_fdEntries s'\<rparr>)"
    by (auto simp: installed_def)
  show "entries_ok (sv_fdEntries s')"
    by (rule entries_ok_put [OF inv(1) assms(2) e]) (simp_all add: assms(5))
  show "slots_ok (sv_fdEntries s') (fd_slot s')"
    unfolding look(4) by (rule slots_ok_put [OF inv(2) look(1,2,3)])
  show "dev_inv (sv_devices s')" using inv(4) frame by simp
  show "proc_wf x" if "x \<in> set (sv_procs s')" for x
    using that inv(5) assms(3) proc_wf_upd_fds [of "s\<lparr>sv_fdEntries := sv_fdEntries s'\<rparr>" pid x fds] s'
    by simp
  have "data_ok (length (sv_sockets s)) (fe_d e')" if "Some e' \<in> set (sv_fdEntries s')" for e'
  proof -
    have "e' = ?e \<or> Some e' \<in> set (sv_fdEntries s)"
      using slot_put_cases [OF e] that set_list_update_sub [of "sv_fdEntries s" k "Some ?e"] by auto
    with inv(3) assms(6) show ?thesis by (auto simp: sockets_ok_def)
  qed
  with inv(3) show "sockets_ok s'" by (simp add: sockets_ok_def frame(2-4))
qed

section \<open>Closing a descriptor\<close>

definition removed :: "server \<Rightarrow> nat \<Rightarrow> nat \<Rightarrow> int \<Rightarrow> socket list \<Rightarrow> server" where
  \<comment> \<open>the state with slot \<open>i\<close> of the process and the entry \<open>fd\<close> in it free\<close>
  "removed s pid i fd socks =
     upd_proc pid (\<lambda>p. p\<lparr>pr_fds := (pr_fds p)[i := -1]\<rparr>)
       (s\<lparr>sv_fdEntries := (sv_fdEntries s)[nat fd := None], sv_sockets := socks\<rparr>)"

lemma close_data_result:
  assumes "close_data K d s w = Inr ((b, s'), w')" "sockets_ok s"
  shows "\<exists>socks. s' = s\<lparr>sv_sockets := socks\<rparr> \<and> length socks = length (sv_sockets s) \<and>
    (\<forall>sk \<in> set socks. sock_wf sk) \<and> (\<not> b \<longrightarrow> s' = s)"
proof (cases "\<exists>i. d = FdTypeSocket i")
  case False
  with assms show ?thesis
    by (auto simp: close_data_def sockets_ok_def split: fd_data.splits prod.splits
        intro!: exI [of _ "sv_sockets s"])
next
  case True
  then obtain i where "d = FdTypeSocket i" ..
  with assms(1) obtain sk' where i: "i < length (sv_sockets s)"
    and c: "sock_close K (sv_sockets s ! i) w = Inr ((b, sk'), w')"
    and s': "s' = s\<lparr>sv_sockets := (sv_sockets s)[i := sk']\<rparr>"
    by (auto simp: close_data_def sock_at_def and_then_eq_Inr split: if_splits)
  from assms(2) i have "sock_wf (sv_sockets s ! i)" by (simp add: sockets_ok_def)
  from sock_wf_close [OF this c] assms(2) have "\<forall>sk \<in> set ((sv_sockets s)[i := sk']). sock_wf sk"
    using set_list_update_sub [of "sv_sockets s" i sk'] by (auto simp: sockets_ok_def)
  moreover have "\<not> b \<longrightarrow> sk' = sv_sockets s ! i"
    using c by (auto simp: sock_close_def fault_simps split: sock_type.splits if_splits)
  ultimately show ?thesis using s' by (auto intro!: exI [of _ "(sv_sockets s)[i := sk']"])
qed

lemma close_data_no_fault:
  "sockets_ok s \<Longrightarrow> data_ok (length (sv_sockets s)) d \<Longrightarrow> close_data K d s w \<noteq> Inl e"
  by (auto simp: close_data_def data_ok_def sock_at_def sockets_ok_def and_then_eq_Inl sock_no_fault
      split: fd_data.splits prod.splits)

lemma fdClose_result:
  assumes "server_inv s" "fd_slot s pid i = Some fd" "fdClose K pid fd s w = Inr ((b, s'), w')"
  shows "(b \<longrightarrow> (\<exists>socks. s' = removed s pid i fd socks \<and> length socks = length (sv_sockets s) \<and>
      (\<forall>sk \<in> set socks. sock_wf sk))) \<and> (\<not> b \<longrightarrow> s' = s)"
proof -
  note inv = server_invD [OF assms(1)]
  from assms(2) inv(2) have "fdGet fd (sv_fdEntries s) \<noteq> None" by (auto simp: slots_ok_def)
  then obtain e where e: "fdGet fd (sv_fdEntries s) = Some e" by blast
  from entries_ok_get [OF inv(1) e] have rc: "fe_refCount e = Some 1" by simp
  from assms(3) e rc obtain ok s1 w1 where c: "close_data K (fe_d e) s w = Inr ((ok, s1), w1)"
    and b: "b = ok"
    and s': "s' = (if ok then upd_proc pid (\<lambda>p. p\<lparr>pr_fds := fdRemove fd (pr_fds p)\<rparr>)
        (s1\<lparr>sv_fdEntries := (sv_fdEntries s1)[nat fd := None]\<rparr>) else s1)"
    by (auto simp: fdClose_def fault_simps split: if_splits)
  from close_data_result [OF c inv(3)] obtain socks where s1: "s1 = s\<lparr>sv_sockets := socks\<rparr>"
    and socks: "length socks = length (sv_sockets s)" "\<forall>sk \<in> set socks. sock_wf sk" "\<not> ok \<longrightarrow> s1 = s"
    by blast
  from assms(2) have sl: "pid < length (sv_procs s)" "i < length (pr_fds (sv_procs s ! pid))"
    "pr_fds (sv_procs s ! pid) ! i = fd" "fd \<noteq> -1"
    by (auto simp: fd_slot_Some)
  have uniq: "\<forall>j < length (pr_fds (sv_procs s ! pid)). pr_fds (sv_procs s ! pid) ! j = fd \<longrightarrow> j = i"
  proof (intro allI impI)
    fix j assume "j < length (pr_fds (sv_procs s ! pid))" "pr_fds (sv_procs s ! pid) ! j = fd"
    with sl have "fd_slot s pid j = Some fd" by (simp add: fd_slot_Some)
    with assms(2) inv(2) show "j = i" unfolding slots_ok_def by blast
  qed
  from fdRemove_distinct [OF sl(2,3) uniq]
  have "fdRemove fd (pr_fds (sv_procs s ! pid)) = (pr_fds (sv_procs s ! pid))[i := -1]"
    by (simp add: vec_clear_def)
  then have "s' = removed s pid i fd socks" if ok
    using that s' s1 by (simp add: removed_def upd_proc_def)
  with b socks s' show ?thesis by auto
qed

lemma fdClose_no_fault:
  assumes "server_inv s"
  shows "fdClose K pid fd s w \<noteq> Inl x"
proof (cases "fdGet fd (sv_fdEntries s)")
  case None
  then show ?thesis by (simp add: fdClose_def)
next
  case (Some e)
  note inv = server_invD [OF assms]
  from entries_ok_get [OF inv(1) Some] have rc: "fe_refCount e = Some 1" by simp
  from fdGet_Some [OF Some] inv(3) have "data_ok (length (sv_sockets s)) (fe_d e)"
    unfolding sockets_ok_def by (metis nth_mem)
  with rc Some inv(3) show ?thesis
    by (auto simp: fdClose_def and_then_eq_Inl close_data_no_fault)
qed

lemma removed_frame:
  "sv_filesystem (removed s p i fd x) = sv_filesystem s"
  "sv_connections (removed s p i fd x) = sv_connections s"
  "sv_devices (removed s p i fd x) = sv_devices s" "sv_sockets (removed s p i fd x) = x"
  "sv_stopFlag (removed s p i fd x) = sv_stopFlag s"
  "sv_fdEntries (removed s p i fd x) = (sv_fdEntries s)[nat fd := None]"
  "sv_procs (removed s p i fd x) = (sv_procs s)[p := (sv_procs s ! p)\<lparr>pr_fds := (pr_fds (sv_procs s ! p))[i := -1]\<rparr>]"
  "length (sv_procs (removed s p i fd x)) = length (sv_procs s)"
  by (simp_all add: removed_def upd_proc_def)

lemma removed_look:
  assumes "fd_slot s p i = Some fd"
  shows "elook (sv_fdEntries (removed s p i fd x)) = (elook (sv_fdEntries s))(nat fd := None)"
    "fd_slot (removed s p i fd x) = (fd_slot s)(p := (fd_slot s p)(i := None))"
proof -
  show "elook (sv_fdEntries (removed s p i fd x)) = (elook (sv_fdEntries s))(nat fd := None)"
    using entry_slots.clear_look [of "nat fd" "sv_fdEntries s"] by (simp add: removed_frame vec_clear_def)
  from assms have p: "p < length (sv_procs s)" by (simp add: fd_slot_Some)
  have slot: "fd_slot s p = vec_look (\<lambda>x. x = -1) (pr_fds (sv_procs s ! p))"
    using p by (simp add: fd_slot_def fun_eq_iff)
  have "fd_slot (removed s p i fd x) = fd_slot (upd_proc p (\<lambda>x. x\<lparr>pr_fds := (pr_fds (sv_procs s ! p))[i := -1]\<rparr>) s)"
    by (rule fd_slot_frame) (simp add: removed_frame upd_proc_def)
  also have "\<dots> = (fd_slot s)(p := vec_look (\<lambda>x. x = -1) ((pr_fds (sv_procs s ! p))[i := -1]))"
    by (rule fd_slot_upd [OF p])
  finally show "fd_slot (removed s p i fd x) = (fd_slot s)(p := (fd_slot s p)(i := None))"
    using proc_fds.clear_look [of i "pr_fds (sv_procs s ! p)"] by (simp add: slot vec_clear_def)
qed

lemma server_inv_removed:
  assumes "server_inv s" "fd_slot s p i = Some fd" "length x = length (sv_sockets s)"
    "\<forall>sk \<in> set x. sock_wf sk"
  shows "server_inv (removed s p i fd x)"
proof (rule server_invI)
  note inv = server_invD [OF assms(1)]
  note look = removed_look [OF assms(2), of x]
  show "entries_ok (sv_fdEntries (removed s p i fd x))"
    using entries_ok_clear [OF inv(1)] by (simp add: removed_frame)
  show "slots_ok (sv_fdEntries (removed s p i fd x)) (fd_slot (removed s p i fd x))"
    unfolding look(2) by (rule slots_ok_clear [OF inv(2) assms(2) look(1)])
  show "dev_inv (sv_devices (removed s p i fd x))" using inv(4) by (simp add: removed_frame)
  show "proc_wf y" if "y \<in> set (sv_procs (removed s p i fd x))" for y
    using that inv(5) assms(2) proc_wf_fds
      set_list_update_sub [of "sv_procs s" p "(sv_procs s ! p)\<lparr>pr_fds := (pr_fds (sv_procs s ! p))[i := -1]\<rparr>"]
    by (force simp: removed_frame fd_slot_Some)
  have "Some e \<in> set (sv_fdEntries s)" if "Some e \<in> set ((sv_fdEntries s)[nat fd := None])" for e
    using that set_list_update_sub [of "sv_fdEntries s" "nat fd" None] by auto
  with inv(3) assms(3,4) show "sockets_ok (removed s p i fd x)"
    by (auto simp: sockets_ok_def removed_frame)
qed

lemma server_inv_fdClose:
  assumes "server_inv s" "fd_slot s pid i = Some fd" "fdClose K pid fd s w = Inr ((b, s'), w')"
  shows "server_inv s'"
  using fdClose_result [OF assms] server_inv_removed [OF assms(1,2)] assms(1) by (cases b) auto

end
