(* ===== verification/Syscalls.thy ===== *)
theory Syscalls
  imports FdInv
begin

text \<open>
  Processes of the server and its system calls (\<^verbatim>\<open>src/server/server.cpp\<close>,
  \<^verbatim>\<open>src/misc/syscommon.h\<close>). A call is its id with the arguments the server takes from the
  argument list; pointers the server only tests or stores through are a Boolean or the
  stored bytes. \<open>reply\<close> is what the caller sees: \<open>Ret\<close> and \<open>RetData\<close> are the value
  written to \<^verbatim>\<open>*ret\<close> and the bytes stored in the caller's buffer, \<open>NoRet\<close> is a return with
  \<^verbatim>\<open>*ret\<close> untouched. \<open>Exits\<close> and \<open>Enters\<close> do not return: the POSIX process exits, or
  executes another program from there on.
\<close>

section \<open>Processes\<close>

definition processAdd :: "process \<Rightarrow> server \<Rightarrow> int \<times> server" where
  "processAdd proc s =
     (if getState proc \<noteq> PrLoaded then (-1, s)
      else (c_int (length (sv_procs s)), s\<lparr>sv_procs := sv_procs s @ [proc]\<rparr>))"

fun processFree_loop ::
    "'w posix \<Rightarrow> nat \<Rightarrow> nat list \<Rightarrow> server \<Rightarrow> 'w \<Rightarrow> fault + (server \<times> 'w)" where
  "processFree_loop K pid [] s w = Inr (s, w)"
| "processFree_loop K pid (procFd # rest) s w =
     (let serverFd = pr_fds (sv_procs s ! pid) ! procFd
      in if serverFd = -1 then processFree_loop K pid rest s w
         else and_then (fdClose K pid serverFd s w) (\<lambda>((ok, s'), w'). processFree_loop K pid rest s' w'))"

definition processFree :: "'w posix \<Rightarrow> nat \<Rightarrow> server \<Rightarrow> 'w \<Rightarrow> fault + (server \<times> 'w)" where
  "processFree K pid s w =
     and_then (processFree_loop K pid [0 ..< length (pr_fds (sv_procs s ! pid))] s w) (\<lambda>(s1, w1).
       case Process_destroy K (sv_procs s1 ! pid) w1 of (p', w2) \<Rightarrow> Inr (upd_proc pid (\<lambda>_. p') s1, w2))"

definition processRun ::
    "'w posix \<Rightarrow> int \<Rightarrow> bool \<Rightarrow> string list \<Rightarrow> server \<Rightarrow> 'w \<Rightarrow> fault + (run_outcome \<times> 'w)" where
  "processRun K pid doFork args s w =
     (if \<not> (1 \<le> pid \<and> pid < int (length (sv_procs s))) then Inl AssertFailed
      else vrun K doFork args (sv_procs s ! nat pid) w)"

definition processFork :: "'w posix \<Rightarrow> nat \<Rightarrow> server \<Rightarrow> 'w \<Rightarrow> fault + ((int \<times> server) \<times> 'w)" where
  "processFork K parentPID s w =
     and_then (forkCopy K (sv_procs s ! parentPID) w) (\<lambda>(child, w1).
       case child of
         None \<Rightarrow> Inr ((-1, s), w1)
       | Some c \<Rightarrow>
           (let childPID = length (sv_procs s);
                s1 = s\<lparr>sv_procs := sv_procs s @ [c]\<rparr>
            in case px_fork K w1 of (pid, w2) \<Rightarrow>
              if pid < 0 then Inr ((-1, s1\<lparr>sv_procs := butlast (sv_procs s1)\<rparr>), w2)
              else if pid = 0
              then Inr ((0, upd_proc childPID (setPosixPID (px_getpid K w2)) s1), w2)
              else Inr ((c_int childPID, s1), w2)))"

section \<open>System calls\<close>

datatype sysreq =
    SysExit int
  | SysFork
  | SysRead int bool nat \<comment> \<open>descriptor, buffer not NULL, count\<close>
  | SysWrite int string
  | SysOpen "string option" int int \<comment> \<open>path, flags, mode\<close>
  | SysClose int
  | SysExec "string option" "string list"
  | SysChDir "string option"
  | SysGetPid
  | SysGetCwd bool nat \<comment> \<open>buffer not NULL, size\<close>
  | SysAlloc "nat option" nat
  | SysInvalid int

fun sys_id :: "sysreq \<Rightarrow> int" where
  "sys_id (SysExit _) = 1"
| "sys_id SysFork = 2"
| "sys_id (SysRead _ _ _) = 3"
| "sys_id (SysWrite _ _) = 4"
| "sys_id (SysOpen _ _ _) = 5"
| "sys_id (SysClose _) = 6"
| "sys_id (SysExec _ _) = 11"
| "sys_id (SysChDir _) = 12"
| "sys_id SysGetPid = 20"
| "sys_id (SysGetCwd _ _) = 183"
| "sys_id (SysAlloc _ _) = 184"
| "sys_id (SysInvalid i) = i"

datatype reply =
    Ret int
  | RetData int string
  | RetPtr "nat option"
  | NoRet
  | Exits int
  | Enters process

definition proc_fd :: "process \<Rightarrow> int \<Rightarrow> fault + int" where
  \<comment> \<open>\<^verbatim>\<open>curr->fds[procFd]\<close>, which is not checked\<close>
  "proc_fd p procFd =
     (if 0 \<le> procFd \<and> nat procFd < length (pr_fds p) then Inr (pr_fds p ! nat procFd) else Inl OutOfBounds)"

definition getcwd_buf :: "string \<Rightarrow> nat \<Rightarrow> string" where
  \<comment> \<open>the buffer after strncpy and the store of the final NUL\<close>
  "getcwd_buf cwd n = (take n (cwd @ replicate n NUL))[n - 1 := NUL]"

definition server_loc :: "'w posix \<Rightarrow> server \<Rightarrow> 'w file_map" where
  "server_loc K s pth w = and_then (need (sv_filesystem s)) (\<lambda>fs. fileLocalPath K fs pth w)"

definition sysExec ::
    "'w posix \<Rightarrow> nat \<Rightarrow> string option \<Rightarrow> string list \<Rightarrow> server \<Rightarrow> 'w \<Rightarrow> fault + ((reply \<times> server) \<times> 'w)" where
  "sysExec K pid pth argv s w =
     (let curr = sv_procs s ! pid
      in and_then (loadFileFS K (server_loc K s) pth Process_new w) (\<lambda>((ok, newProc), w1).
        if \<not> ok then Inr ((NoRet, s), w1)
        else case setEnviron K (getEnviron curr) newProc w1 of ((_, newProc2), w2) \<Rightarrow>
          and_then (setCwd K (getCwd curr) newProc2 w2) (\<lambda>((_, newProc3), w3).
            and_then (processFree K pid s w3) (\<lambda>(s1, w4).
              let s2 = upd_proc pid (\<lambda>_. newProc3) s1
              in and_then (arun K False argv newProc3 w4) (\<lambda>(out, w5).
                case out of
                  RunEntered q \<Rightarrow> Inr ((Enters q, upd_proc pid (\<lambda>_. q) s2), w5)
                | _ \<Rightarrow> Inr ((Exits 0, s2), w5))))))"

definition syscallExit ::
    "'w posix \<Rightarrow> nat \<Rightarrow> int \<Rightarrow> server \<Rightarrow> 'w \<Rightarrow> fault + ((reply \<times> server) \<times> 'w)" where
  "syscallExit K pid status s w =
     and_then (processFree K pid s w) (\<lambda>(s', w'). Inr ((Exits status, s'), w'))"

definition syscall ::
    "'w posix \<Rightarrow> nat \<Rightarrow> sysreq \<Rightarrow> server \<Rightarrow> 'w \<Rightarrow> fault + ((reply \<times> server) \<times> 'w)" where
  "syscall K pid req s w =
     (if \<not> pid < length (sv_procs s) then Inl OutOfBounds
      else
        let curr = sv_procs s ! pid
        in case req of
          SysExit status \<Rightarrow> syscallExit K pid status s w
        | SysFork \<Rightarrow> and_then (processFork K pid s w) (\<lambda>((r, s'), w'). Inr ((Ret r, s'), w'))
        | SysGetPid \<Rightarrow> Inr ((Ret (c_int pid), s), w)
        | SysAlloc ptr n \<Rightarrow> (case px_realloc K ptr n w of (r, w') \<Rightarrow> Inr ((RetPtr r, s), w'))
        | SysExec pth argv \<Rightarrow> sysExec K pid pth argv s w
        | SysGetCwd buf n \<Rightarrow>
            (case getCwd curr of
               None \<Rightarrow> Inr ((Ret 0, s), w)
             | Some cwd \<Rightarrow>
                 if \<not> buf then Inr ((NoRet, s), w)
                 else if n = 0 then Inl OutOfBounds
                 else Inr ((RetData (to_u32 (int (length cwd + 1))) (getcwd_buf cwd n), s), w))
        | SysChDir pth \<Rightarrow>
            and_then (setCwd K pth curr w) (\<lambda>((ok, p'), w').
              Inr ((Ret (if ok then 0 else -1), upd_proc pid (\<lambda>_. p') s), w'))
        | SysRead procFd buf count \<Rightarrow>
            and_then (proc_fd curr procFd) (\<lambda>serverFd.
              and_then (fdRead K s serverFd buf count w) (\<lambda>((r, bs), w').
                Inr ((RetData (to_s32 r) bs, s), w')))
        | SysWrite procFd data \<Rightarrow>
            and_then (proc_fd curr procFd) (\<lambda>serverFd.
              and_then (fdWrite K s serverFd data w) (\<lambda>(r, w'). Inr ((Ret (to_s32 r), s), w')))
        | SysOpen pathname flags mode \<Rightarrow>
            and_then (need pathname) (\<lambda>pth.
              and_then (fdOpenFdFromPath K pid pth mode flags s w) (\<lambda>((r, s'), w').
                Inr ((Ret r, s'), w')))
        | SysClose procFd \<Rightarrow>
            and_then (proc_fd curr procFd) (\<lambda>serverFd.
              and_then (fdClose K pid serverFd s w) (\<lambda>((ok, s'), w').
                Inr ((Ret (if ok then 0 else -1), s'), w')))
        | SysInvalid i \<Rightarrow> Inr ((NoRet, s), w))"

definition callerPID :: "server \<Rightarrow> int \<Rightarrow> nat option" where
  \<comment> \<open>the search for the calling process by its POSIX pid\<close>
  "callerPID s posixPID =
     (let i = slot_index (\<lambda>p. getPosixPID p = posixPID) (sv_procs s)
      in if i < length (sv_procs s) then Some i else None)"

definition serverSysCall ::
    "'w posix \<Rightarrow> sysreq \<Rightarrow> server \<Rightarrow> 'w \<Rightarrow> fault + ((reply \<times> server) \<times> 'w)" where
  "serverSysCall K req s w =
     (case callerPID s (px_getpid K w) of
        None \<Rightarrow> Inr ((NoRet, s), w)
      | Some pid \<Rightarrow> syscall K pid req s w)"

end
