(* ===== verification/SysInv.thy ===== *)
theory SysInv
  imports Syscalls
begin

text \<open>
  Every descriptor operation, process operation and system call keeps \<open>server_inv\<close>, and
  which of them can fault. The hypothesis \<open>room s\<close> says that a descriptor entry can still
  be added without its index leaving the range of \<^verbatim>\<open>int\<close>.
\<close>

definition room :: "server \<Rightarrow> bool" where
  "room s \<longleftrightarrow> length (sv_fdEntries s) < 2 ^ 31"

section \<open>Opening\<close>

lemma server_inv_devices:
  assumes "server_inv s" "dev_inv ds" "\<forall>e \<in> set ds. dev_ok (length (sv_sockets s)) (de_device e)"
  shows "server_inv (s\<lparr>sv_devices := ds\<rparr>)"
proof -
  have "fd_slot (s\<lparr>sv_devices := ds\<rparr>) = fd_slot s" by (rule fd_slot_frame) simp
  with assms show ?thesis by (auto simp: server_inv_def sockets_ok_def)
qed

lemma dev_open_devices:
  assumes "dev_open n es = Inr (r, es')"
  shows "(\<forall>e' \<in> set es'. \<exists>e \<in> set es. de_device e' = de_device e) \<and>
    (\<forall>d. r = Some d \<longrightarrow> (\<exists>e \<in> set es. de_device e = d))"
proof (cases "dev_get n es")
  case None
  with assms show ?thesis by (auto simp: dev_open_def)
next
  case (Some i)
  with dev_get_Some [OF Some] have i: "i < length es" by simp
  let ?e = "(es ! i)\<lparr>de_refCount := de_refCount (es ! i) + 1\<rparr>"
  from assms Some have r: "r = Some (de_device (es ! i))" "es' = es[i := ?e]"
    by (auto simp: dev_open_def Let_def split: if_splits)
  have "de_device ?e = de_device (es ! i)" by simp
  with i r set_list_update_sub [of es i ?e] nth_mem [OF i] show ?thesis
    by (metis (no_types, lifting) insertE option.inject subsetD)
qed

lemma installed_server:
  assumes "server_inv s" "room s" "pid < length (sv_procs s)" "d \<noteq> FdTypeNone"
    "data_ok (length (sv_sockets s)) d" "fd_install K pid d s w = Inr ((r, s'), w')"
  shows "server_inv s'"
  using fd_install_result [OF server_invD(1) [OF assms(1)] assms(2) [unfolded room_def] assms(6)]
    server_inv_installed [OF assms(1) assms(2) [unfolded room_def] assms(3) _ assms(4,5)] assms(1)
  by blast

lemma server_inv_fdOpenFdFromDevice:
  assumes "server_inv s" "room s" "pid < length (sv_procs s)"
    "fdOpenFdFromDevice K pid n fl md s w = Inr ((r, s'), w')"
  shows "server_inv s'"
proof -
  note inv = server_invD [OF assms(1)]
  from assms(4) obtain dv ds where o: "dev_open n (sv_devices s) = Inr (dv, ds)"
    by (auto simp: fdOpenFdFromDevice_def and_then_eq_Inr)
  let ?s = "s\<lparr>sv_devices := ds\<rparr>"
  from dev_open_devices [OF o] inv(3)
  have ds: "\<forall>e \<in> set ds. dev_ok (length (sv_sockets s)) (de_device e)"
    and dv: "\<And>d. dv = Some d \<Longrightarrow> dev_ok (length (sv_sockets s)) d"
    by (force simp: sockets_ok_def)+
  have s1: "server_inv ?s" by (rule server_inv_devices [OF assms(1) dev_inv_open [OF inv(4) o] ds])
  show ?thesis
  proof (cases dv)
    case None
    with assms(4) o s1 show ?thesis by (simp add: fdOpenFdFromDevice_def)
  next
    case (Some d)
    with assms(4) o obtain q where i: "fd_install K pid (FdTypeDevice d) ?s w = Inr ((q, s'), w')"
      by (auto simp: fdOpenFdFromDevice_def fault_simps)
    show ?thesis
      by (rule installed_server [OF s1 _ _ _ _ i])
        (use assms(2,3) dv [OF Some] in \<open>simp_all add: room_def data_ok_def\<close>)
  qed
qed

lemma server_inv_fdOpenFdFromFile:
  assumes "server_inv s" "room s" "pid < length (sv_procs s)"
    "fdOpenFdFromFile K pid n fl md s w = Inr ((r, s'), w')"
  shows "server_inv s'"
proof -
  from assms(4) consider "s' = s" | q x w2 w3 where "fd_install K pid (FdTypeFd x) s w2 = Inr ((q, s'), w3)"
    by (auto simp: fdOpenFdFromFile_def fault_simps split: option.splits if_splits)
  then show ?thesis
  proof cases
    case 1
    with assms(1) show ?thesis by simp
  next
    case 2
    from installed_server [OF assms(1-3) _ _ this] show ?thesis by (simp add: data_ok_def)
  qed
qed

lemma server_inv_fdOpenFdFromPath:
  assumes "server_inv s" "room s" "pid < length (sv_procs s)"
    "fdOpenFdFromPath K pid n fl md s w = Inr ((r, s'), w')"
  shows "server_inv s'"
  using server_inv_fdOpenFdFromDevice [OF assms(1-3)] server_inv_fdOpenFdFromFile [OF assms(1-3)] assms(4)
  by (auto simp: fdOpenFdFromPath_def split: if_splits)

section \<open>Replacing and adding processes\<close>

lemma server_inv_proc_same_fds:
  assumes "server_inv s" "p < length (sv_procs s)" "proc_wf q"
    "pr_fds q = pr_fds (sv_procs s ! p) \<or> pr_fds q = []"
  shows "server_inv (upd_proc p (\<lambda>_. q) s)"
proof (rule server_invI)
  let ?s = "upd_proc p (\<lambda>_. q) s"
  note inv = server_invD [OF assms(1)]
  show "entries_ok (sv_fdEntries ?s)" using inv(1) by (simp add: upd_proc_def)
  have "slots_ok (sv_fdEntries s) (fd_slot ?s)"
  proof (rule slots_ok_sub [OF inv(2)])
    fix p' i fd assume "fd_slot ?s p' i = Some fd"
    with assms(2,4) show "fd_slot s p' i = Some fd"
      by (auto simp: fd_slot_Some upd_proc_def nth_list_update_if split: if_splits)
  qed
  then show "slots_ok (sv_fdEntries ?s) (fd_slot ?s)" by (simp add: upd_proc_def)
  show "sockets_ok ?s" using inv(3) by (simp add: sockets_ok_def upd_proc_def)
  show "dev_inv (sv_devices ?s)" using inv(4) by (simp add: upd_proc_def)
  show "proc_wf x" if "x \<in> set (sv_procs ?s)" for x
    using that inv(5) assms(3) set_list_update_sub [of "sv_procs s" p q] by (auto simp: upd_proc_def)
qed

lemma server_inv_push:
  assumes "server_inv s" "proc_wf q" "pr_fds q = []"
  shows "server_inv (s\<lparr>sv_procs := sv_procs s @ [q]\<rparr>)"
proof (rule server_invI)
  let ?s = "s\<lparr>sv_procs := sv_procs s @ [q]\<rparr>"
  note inv = server_invD [OF assms(1)]
  show "entries_ok (sv_fdEntries ?s)" "dev_inv (sv_devices ?s)" using inv by simp_all
  have "slots_ok (sv_fdEntries s) (fd_slot ?s)"
  proof (rule slots_ok_sub [OF inv(2)])
    fix p' i fd assume "fd_slot ?s p' i = Some fd"
    with assms(3) show "fd_slot s p' i = Some fd"
      by (auto simp: fd_slot_Some nth_append less_Suc_eq)
  qed
  then show "slots_ok (sv_fdEntries ?s) (fd_slot ?s)" by simp
  show "sockets_ok ?s" using inv(3) by (simp add: sockets_ok_def)
  show "proc_wf x" if "x \<in> set (sv_procs ?s)" for x using that inv(5) assms(2) by auto
qed

lemma server_inv_processAdd:
  "server_inv s \<Longrightarrow> proc_wf q \<Longrightarrow> pr_fds q = [] \<Longrightarrow> processAdd q s = (r, s') \<Longrightarrow> server_inv s'"
  by (auto simp: processAdd_def server_inv_push split: if_splits)

section \<open>Freeing a process\<close>

definition kept :: "server \<Rightarrow> server \<Rightarrow> bool" where
  \<comment> \<open>all that closing descriptors leaves as it was\<close>
  "kept s s' \<longleftrightarrow> sv_filesystem s' = sv_filesystem s \<and> sv_connections s' = sv_connections s \<and>
     sv_devices s' = sv_devices s \<and> sv_stopFlag s' = sv_stopFlag s \<and>
     length (sv_procs s') = length (sv_procs s) \<and> length (sv_sockets s') = length (sv_sockets s) \<and>
     length (sv_fdEntries s') = length (sv_fdEntries s)"

lemma kept_refl: "kept s s"
  by (simp add: kept_def)

lemma kept_trans: "kept s t \<Longrightarrow> kept t u \<Longrightarrow> kept s u"
  by (simp add: kept_def)

lemma kept_removed: "length x = length (sv_sockets s) \<Longrightarrow> kept s (removed s p i fd x)"
  by (simp add: kept_def removed_frame)

text \<open>
  One turn of the loop: the slot is free afterwards, or its close failed and the state is
  the same. The other slots of the process, and other processes, are untouched.
\<close>

lemma processFree_loop_inv:
  assumes "server_inv s" "pid < length (sv_procs s)" "\<forall>i \<in> set is. i < length (pr_fds (sv_procs s ! pid))"
    "processFree_loop K pid is s w = Inr (s', w')"
  shows "server_inv s' \<and> kept s s' \<and>
    length (pr_fds (sv_procs s' ! pid)) = length (pr_fds (sv_procs s ! pid)) \<and>
    pr_environ (sv_procs s' ! pid) = pr_environ (sv_procs s ! pid)"
  using assms
proof (induction "is" arbitrary: s w)
  case Nil
  then show ?case by (simp add: kept_refl)
next
  case (Cons i rest)
  define fd where "fd = pr_fds (sv_procs s ! pid) ! i"
  show ?case
  proof (cases "fd = -1")
    case True
    with Cons show ?thesis by (simp add: fd_def)
  next
    case False
    with Cons.prems have slot: "fd_slot s pid i = Some fd" by (simp add: fd_slot_Some fd_def)
    from Cons.prems(4) False obtain b s1 w1 where c: "fdClose K pid fd s w = Inr ((b, s1), w1)"
      and rest: "processFree_loop K pid rest s1 w1 = Inr (s', w')"
      by (auto simp: fd_def and_then_eq_Inr Let_def)
    from fdClose_result [OF Cons.prems(1) slot c] obtain socks where
      s1: "s1 = s \<or> s1 = removed s pid i fd socks \<and> length socks = length (sv_sockets s)"
      by blast
    then have k: "kept s s1" by (auto simp: kept_refl kept_removed)
    have p1: "length (pr_fds (sv_procs s1 ! pid)) = length (pr_fds (sv_procs s ! pid))"
      "pr_environ (sv_procs s1 ! pid) = pr_environ (sv_procs s ! pid)"
      using s1 Cons.prems(2) by (auto simp: removed_frame)
    have "server_inv s1" by (rule server_inv_fdClose [OF Cons.prems(1) slot c])
    from Cons.IH [OF this _ _ rest] k p1 Cons.prems(2,3) show ?thesis
      by (auto simp: kept_def)
  qed
qed

lemma processFree_loop_no_fault:
  assumes "server_inv s" "pid < length (sv_procs s)" "\<forall>i \<in> set is. i < length (pr_fds (sv_procs s ! pid))"
  shows "processFree_loop K pid is s w \<noteq> Inl x"
  using assms
proof (induction "is" arbitrary: s w)
  case Nil
  then show ?case by simp
next
  case (Cons i rest)
  define fd where "fd = pr_fds (sv_procs s ! pid) ! i"
  show ?case
  proof (cases "fd = -1")
    case True
    with Cons show ?thesis by (simp add: fd_def)
  next
    case False
    with Cons.prems have slot: "fd_slot s pid i = Some fd" by (simp add: fd_slot_Some fd_def)
    obtain b s1 w1 where c: "fdClose K pid fd s w = Inr ((b, s1), w1)"
      using fdClose_no_fault [OF Cons.prems(1)] by (metis obj_sumE surj_pair)
    from fdClose_result [OF Cons.prems(1) slot c] have
      "length (sv_procs s1) = length (sv_procs s)"
      "length (pr_fds (sv_procs s1 ! pid)) = length (pr_fds (sv_procs s ! pid))"
      using Cons.prems(2) by (auto simp: removed_frame)
    with Cons.IH [OF server_inv_fdClose [OF Cons.prems(1) slot c]] Cons.prems(2,3) c False
    show ?thesis by (simp add: fd_def Let_def)
  qed
qed

lemma upt_ok: "\<forall>i \<in> set [0 ..< n]. i < n"
  by simp

lemma processFree_inv:
  assumes "server_inv s" "pid < length (sv_procs s)" "processFree K pid s w = Inr (s', w')"
  shows "\<exists>s1. server_inv s1 \<and> kept s s1 \<and> (\<exists>q. proc_wf q \<and> pr_fds q = pr_fds (sv_procs s1 ! pid) \<and>
     s' = upd_proc pid (\<lambda>_. q) s1)"
proof -
  from assms(3) obtain s1 w1 where l: "processFree_loop K pid [0 ..< length (pr_fds (sv_procs s ! pid))] s w = Inr (s1, w1)"
    and s': "s' = upd_proc pid (\<lambda>_. fst (Process_destroy K (sv_procs s1 ! pid) w1)) s1"
    by (auto simp: processFree_def fault_simps)
  have "pr_fds (fst (Process_destroy K (sv_procs s1 ! pid) w1)) = pr_fds (sv_procs s1 ! pid)"
    by (simp add: Process_destroy_def)
  with processFree_loop_inv [OF assms(1,2) upt_ok l] s' proc_wf_destroy [of K "sv_procs s1 ! pid" w1]
  show ?thesis by (intro exI [of _ s1]) auto
qed

lemma processFree_no_fault:
  assumes "server_inv s" "pid < length (sv_procs s)"
  shows "processFree K pid s w \<noteq> Inl x"
  by (auto simp: processFree_def and_then_eq_Inl processFree_loop_no_fault [OF assms upt_ok]
      split: prod.splits)

lemma server_inv_processFree:
  assumes "server_inv s" "pid < length (sv_procs s)" "processFree K pid s w = Inr (s', w')"
  shows "server_inv s' \<and> kept s s'"
proof -
  from processFree_inv [OF assms] obtain s1 q where s1: "server_inv s1" "kept s s1" "proc_wf q"
    "pr_fds q = pr_fds (sv_procs s1 ! pid)" "s' = upd_proc pid (\<lambda>_. q) s1" by blast
  from s1(2) assms(2) have "pid < length (sv_procs s1)" by (simp add: kept_def)
  from server_inv_proc_same_fds [OF s1(1) this s1(3)] s1 show ?thesis
    by (auto simp: kept_def upd_proc_def)
qed

section \<open>Fork, exec, chdir\<close>

text \<open>A process that makes a system call was loaded: it has a name, a path and a directory.\<close>

lemma forkCopy_wf:
  assumes "forkCopy K p w = Inr (Some c, w')" "proc_wf p"
  shows "proc_wf c \<and> pr_fds c = []"
proof -
  note f = forkCopy_Some [OF assms]
  have "pr_state p \<noteq> PrNone"
    using f assms(2) by (auto simp: proc_wf_def)
  with forkCopy_Some_wf [OF assms] f show ?thesis by simp
qed

lemma upd_proc_last:
  "upd_proc (length ps) f (s\<lparr>sv_procs := ps @ [c]\<rparr>) = s\<lparr>sv_procs := ps @ [f c]\<rparr>"
  by (simp add: upd_proc_def)

lemma processFork_result:
  assumes "processFork K pid s w = Inr ((r, s'), w')"
  shows "r = -1 \<and> s' = s \<or> (\<exists>c w1 i. forkCopy K (sv_procs s ! pid) w = Inr (Some c, w1) \<and>
     (r = 0 \<and> s' = s\<lparr>sv_procs := sv_procs s @ [c\<lparr>pr_posixPID := i\<rparr>]\<rparr> \<and> fst (px_fork K w1) = 0 \<and>
        i = px_getpid K (snd (px_fork K w1)) \<or>
      r = c_int (length (sv_procs s)) \<and> s' = s\<lparr>sv_procs := sv_procs s @ [c]\<rparr> \<and> 0 < fst (px_fork K w1)))"
proof -
  from assms obtain ch w1 where f: "forkCopy K (sv_procs s ! pid) w = Inr (ch, w1)"
    by (auto simp: processFork_def and_then_eq_Inr)
  show ?thesis
  proof (cases ch)
    case None
    with assms f show ?thesis by (simp add: processFork_def)
  next
    case (Some c)
    obtain x w2 where x: "px_fork K w1 = (x, w2)" by fastforce
    consider "x < 0" | "x = 0" | "0 < x" by linarith
    then show ?thesis
    proof cases
      case 1
      with assms f Some x show ?thesis by (simp add: processFork_def Let_def)
    next
      case 2
      with assms f Some x show ?thesis by (auto simp: processFork_def Let_def upd_proc_last)
    next
      case 3
      with assms f Some x show ?thesis by (auto simp add: processFork_def Let_def)
    qed
  qed
qed

lemma server_inv_processFork:
  assumes "server_inv s" "pid < length (sv_procs s)" "processFork K pid s w = Inr ((r, s'), w')"
    "pr_state (sv_procs s ! pid) = PrRunning"
  shows "server_inv s'"
proof (cases "s' = s")
  case True
  with assms(1) show ?thesis by simp
next
  case False
  with processFork_result [OF assms(3)] obtain c w1 i where
    f: "forkCopy K (sv_procs s ! pid) w = Inr (Some c, w1)"
    and s': "s' = s\<lparr>sv_procs := sv_procs s @ [c\<lparr>pr_posixPID := i\<rparr>]\<rparr> \<or> s' = s\<lparr>sv_procs := sv_procs s @ [c]\<rparr>"
    by blast
  from forkCopy_wf [OF f server_invD(6) [OF assms(1,2)]] have "proc_wf c" "pr_fds c = []" by simp_all
  moreover have "pr_state c = PrRunning"
    using forkCopy_Some [OF f server_invD(6) [OF assms(1,2)]] assms(4) by simp
  ultimately have "proc_wf c" "pr_fds c = []" "proc_wf (c\<lparr>pr_posixPID := i\<rparr>)"
    by (simp_all add: proc_wf_posixPID)
  with s' server_inv_push [OF assms(1)] show ?thesis by auto
qed

lemma sysExec_result:
  assumes "sysExec K pid pth argv s w = Inr ((r, s'), w')"
  obtains (failed) "r = NoRet" "s' = s"
  | (loaded) np1 np2 np3 s1 w1 w2 w3 w4 b2 b3 q
    where "loadFileFS K (server_loc K s) pth Process_new w = Inr ((True, np1), w1)"
      "setEnviron K (pr_environ (sv_procs s ! pid)) np1 w1 = ((b2, np2), w2)"
      "setCwd K (pr_cwd (sv_procs s ! pid)) np2 w2 = Inr ((b3, np3), w3)"
      "processFree K pid s w3 = Inr (s1, w4)" "s' = upd_proc pid (\<lambda>_. q) s1"
      "r = Exits 0 \<and> q = np3 \<or> r = Enters q \<and> arun K False argv np3 w4 = Inr (RunEntered q, w')"
proof -
  obtain ok np1 w1 where l: "loadFileFS K (server_loc K s) pth Process_new w = Inr ((ok, np1), w1)"
    using assms by (cases "loadFileFS K (server_loc K s) pth Process_new w" rule: result_cases)
      (simp_all add: sysExec_def)
  show thesis
  proof (cases ok)
    case False
    with assms l failed show thesis by (simp add: sysExec_def)
  next
    case True
    obtain b2 np2 w2 where e: "setEnviron K (pr_environ (sv_procs s ! pid)) np1 w1 = ((b2, np2), w2)"
      by (metis surj_pair)
    obtain b3 np3 w3 where c: "setCwd K (pr_cwd (sv_procs s ! pid)) np2 w2 = Inr ((b3, np3), w3)"
      using assms l True e
      by (cases "setCwd K (pr_cwd (sv_procs s ! pid)) np2 w2" rule: result_cases) (simp_all add: sysExec_def)
    obtain s1 w4 where f: "processFree K pid s w3 = Inr (s1, w4)"
      using assms l True e c by (cases "processFree K pid s w3" rule: state_cases) (simp_all add: sysExec_def)
    obtain out w5 where a: "arun K False argv np3 w4 = Inr (out, w5)"
      using assms l True e c f
      by (cases "arun K False argv np3 w4" rule: state_cases) (simp_all add: sysExec_def)
    have upd: "upd_proc pid (\<lambda>_. q) (upd_proc pid (\<lambda>_. np3) s1) = upd_proc pid (\<lambda>_. q) s1" for q
      by (simp add: upd_proc_def)
    show thesis
    proof (cases out)
      case (RunEntered q)
      show thesis
        by (rule loaded [of np1 w1 b2 np2 w2 b3 np3 w3 s1 w4 q])
          (use assms l True e c f a RunEntered in \<open>simp_all add: sysExec_def upd\<close>)
    qed (rule loaded [of np1 w1 b2 np2 w2 b3 np3 w3 s1 w4 np3],
        use assms l True e c f a in \<open>simp_all add: sysExec_def\<close>)+
  qed
qed

text \<open>
  The process a successful exec leaves: freshly loaded, with the working directory of the
  old one (unless there was no memory to copy it), its environment and no descriptor.
\<close>

lemma exec_process:
  assumes "loadFileFS K loc pth Process_new w = Inr ((True, np1), w1)"
    "setEnviron K env np1 w1 = ((b2, np2), w2)" "setCwd K cwd np2 w2 = Inr ((b3, np3), w3)"
  shows "proc_wf np3 \<and> pr_fds np3 = [] \<and> pr_state np3 = PrLoaded \<and>
    pr_environ np3 = (if b2 then env else None) \<and> pr_cwd np3 = (if b3 then cwd else pr_cwd np1)"
proof -
  from assms(1) obtain pt where pt: "pth = Some pt"
    by (auto simp: loadFileFS_def split: if_splits option.splits)
  have wf1: "proc_wf np1" by (rule proc_wf_loadFileFS [OF assms(1) proc_wf_new])
  from loadFileFS_True [OF assms(1) [unfolded pt]] have loaded1: "pr_fds np1 = []" "pr_state np1 = PrLoaded"
    by (auto simp: Process_new_def)
  have wf2: "proc_wf np2" by (rule proc_wf_setEnviron [OF wf1 assms(2)])
  from setEnviron_result [OF assms(2)] loaded1 have loaded2: "pr_fds np2 = []" "pr_state np2 = PrLoaded"
    "pr_environ np2 = (if b2 then env else None)" by auto
  have "proc_wf np3" by (rule proc_wf_setCwd [OF wf2 _ assms(3)]) (simp add: loaded2)
  moreover from setCwd_result [OF assms(3)] loaded2 have "pr_fds np3 = []" "pr_state np3 = PrLoaded"
    "pr_environ np3 = (if b2 then env else None)" by (auto split: if_splits)
  moreover have "pr_cwd np3 = (if b3 then cwd else pr_cwd np1)"
    using setCwd_result [OF assms(3)] setEnviron_result [OF assms(2)] by auto
  ultimately show ?thesis by simp
qed

lemma server_inv_sysExec:
  assumes "server_inv s" "pid < length (sv_procs s)" "sysExec K pid pth argv s w = Inr ((r, s'), w')"
  shows "server_inv s' \<and> (\<forall>q. r = Enters q \<longrightarrow> pr_fds q = [])"
  using assms(3)
proof (cases rule: sysExec_result)
  case failed
  with assms(1) show ?thesis by simp
next
  case (loaded np1 np2 np3 s1 w1 w2 w3 w4 b2 b3 q)
  note np = exec_process [OF loaded(1-3)]
  have q: "proc_wf q \<and> pr_fds q = []"
    using loaded(6) np arun_result proc_wf_arun by fastforce
  from server_inv_processFree [OF assms(1,2) loaded(4)]
  have s1: "server_inv s1" "pid < length (sv_procs s1)" using assms(2) by (simp_all add: kept_def)
  from server_inv_proc_same_fds [OF s1] q loaded(5,6) show ?thesis by auto
qed

section \<open>All system calls\<close>

lemma fdRead_no_fault:
  assumes "server_inv s"
  shows "fdRead K s fd buf n w \<noteq> Inl x"
proof (cases "fdGet fd (sv_fdEntries s)")
  case None
  then show ?thesis by (simp add: fdRead_def)
next
  case (Some e)
  note inv = server_invD [OF assms]
  from fdGet_Some [OF Some] inv(3) have "data_ok (length (sv_sockets s)) (fe_d e)"
    unfolding sockets_ok_def by (metis nth_mem)
  with Some inv(3) show ?thesis
    by (auto simp: fdRead_def data_ok_def dev_ok_def sock_at_def sockets_ok_def dev_read_def sock_no_fault
        split: fd_data.splits device.splits option.splits)
qed

lemma fdWrite_no_fault:
  assumes "server_inv s"
  shows "fdWrite K s fd d w \<noteq> Inl x"
proof (cases "fdGet fd (sv_fdEntries s)")
  case None
  then show ?thesis by (simp add: fdWrite_def)
next
  case (Some e)
  note inv = server_invD [OF assms]
  from fdGet_Some [OF Some] inv(3) have "data_ok (length (sv_sockets s)) (fe_d e)"
    unfolding sockets_ok_def by (metis nth_mem)
  with Some inv(3) show ?thesis
    by (auto simp: fdWrite_def data_ok_def dev_ok_def sock_at_def sockets_ok_def dev_write_def sock_no_fault
        split: fd_data.splits device.splits option.splits)
qed

lemma fdClose_neg: "fdClose K pid (-1) s w = Inr ((False, s), w)"
  by (simp add: fdClose_def)

lemma proc_fd_slot:
  "pid < length (sv_procs s) \<Longrightarrow> proc_fd (sv_procs s ! pid) f = Inr fd \<Longrightarrow>
   fd = -1 \<or> fd_slot s pid (nat f) = Some fd"
  by (auto simp: proc_fd_def fd_slot_Some split: if_splits)

lemma server_inv_syscall:
  assumes "server_inv s" "room s" "pr_state (sv_procs s ! pid) = PrRunning"
    "syscall K pid req s w = Inr ((r, s'), w')"
  shows "server_inv s'"
proof -
  from assms(4) have pid: "pid < length (sv_procs s)" by (auto simp: syscall_def split: if_splits)
  show ?thesis
  proof (cases req)
    case (SysExit x)
    with assms(4) pid obtain w1 where "processFree K pid s w = Inr (s', w1)"
      by (auto simp: syscall_def syscallExit_def and_then_eq_Inr)
    from server_inv_processFree [OF assms(1) pid this] show ?thesis by simp
  next
    case SysFork
    with assms(4) pid obtain q w1 where "processFork K pid s w = Inr ((q, s'), w1)"
      by (auto simp: syscall_def and_then_eq_Inr)
    from server_inv_processFork [OF assms(1) pid this assms(3)] show ?thesis .
  next
    case (SysOpen p f m)
    with assms(4) pid obtain pt q w1 where "fdOpenFdFromPath K pid pt m f s w = Inr ((q, s'), w1)"
      by (auto simp: syscall_def and_then_eq_Inr)
    from server_inv_fdOpenFdFromPath [OF assms(1,2) pid this] show ?thesis .
  next
    case (SysClose f)
    with assms(4) pid obtain fd b w1 where fd: "proc_fd (sv_procs s ! pid) f = Inr fd"
      and c: "fdClose K pid fd s w = Inr ((b, s'), w1)"
      by (auto simp: syscall_def and_then_eq_Inr)
    from proc_fd_slot [OF pid fd] show ?thesis
    proof
      assume "fd = -1"
      with c assms(1) show ?thesis by (simp add: fdClose_neg)
    next
      assume "fd_slot s pid (nat f) = Some fd"
      from server_inv_fdClose [OF assms(1) this c] show ?thesis .
    qed
  next
    case (SysExec p a)
    with assms(4) pid have "sysExec K pid p a s w = Inr ((r, s'), w')" by (simp add: syscall_def)
    from server_inv_sysExec [OF assms(1) pid this] show ?thesis by simp
  next
    case (SysChDir p)
    with assms(4) pid obtain b q w1 where c: "setCwd K p (sv_procs s ! pid) w = Inr ((b, q), w1)"
      and s': "s' = upd_proc pid (\<lambda>_. q) s"
      by (auto simp: syscall_def and_then_eq_Inr)
    have "proc_wf q"
      by (rule proc_wf_setCwd [OF server_invD(6) [OF assms(1) pid] _ c]) (simp add: assms(3))
    moreover from setCwd_result [OF c] have "pr_fds q = pr_fds (sv_procs s ! pid)" by auto
    ultimately show ?thesis using server_inv_proc_same_fds [OF assms(1) pid] s' by simp
  qed (use assms(1,4) pid in \<open>auto simp: syscall_def and_then_eq_Inr split: if_splits option.splits prod.splits\<close>)
qed

end
