(* ===== verification/SysEffects.thy ===== *)
theory SysEffects
  imports SysInv
begin

text \<open>
  What the system calls do to the state, beyond keeping the invariant: which of them can
  fault, that no call touches another process or the descriptors it holds, what freeing a
  process releases, and what exec, chdir, open and close leave behind.
\<close>

section \<open>The calling process\<close>

lemma callerPID_Some:
  assumes "callerPID s p = Some i"
  shows "i < length (sv_procs s) \<and> pr_posixPID (sv_procs s ! i) = p \<and>
    (\<forall>j < i. pr_posixPID (sv_procs s ! j) \<noteq> p)"
proof -
  from assms have "i = slot_index (\<lambda>q. pr_posixPID q = p) (sv_procs s)" "i < length (sv_procs s)"
    by (auto simp: callerPID_def Let_def split: if_splits)
  then show ?thesis
    using slot_index_nth [of "\<lambda>q. pr_posixPID q = p" "sv_procs s"]
      slot_index_before [of _ "\<lambda>q. pr_posixPID q = p" "sv_procs s"] by auto
qed

text \<open>A process found by a pid other than -1 is running.\<close>

lemma callerPID_running:
  assumes "server_inv s" "callerPID s p = Some i" "p \<noteq> -1"
  shows "i < length (sv_procs s) \<and> pr_state (sv_procs s ! i) = PrRunning"
  using callerPID_Some [OF assms(2)] server_invD(6) [OF assms(1), of i] assms(3)
  by (auto simp: proc_wf_def)

lemma server_inv_serverSysCall:
  assumes "server_inv s" "room s" "px_getpid K w \<noteq> -1" "serverSysCall K req s w = Inr ((r, s'), w')"
  shows "server_inv s'"
proof (cases "callerPID s (px_getpid K w)")
  case None
  with assms(1,4) show ?thesis by (simp add: serverSysCall_def)
next
  case (Some pid)
  with assms(4) have "syscall K pid req s w = Inr ((r, s'), w')" by (simp add: serverSysCall_def)
  from server_inv_syscall [OF assms(1,2) _ this] callerPID_running [OF assms(1) Some assms(3)]
  show ?thesis by simp
qed

section \<open>Faults\<close>

definition fd_ok :: "server \<Rightarrow> nat \<Rightarrow> int \<Rightarrow> bool" where
  \<comment> \<open>the descriptor indexes the vector of the process\<close>
  "fd_ok s pid f \<longleftrightarrow> 0 \<le> f \<and> nat f < length (pr_fds (sv_procs s ! pid))"

lemma proc_fd_fault: "proc_fd (sv_procs s ! pid) f = Inl x \<longleftrightarrow> \<not> fd_ok s pid f \<and> x = OutOfBounds"
  by (auto simp: proc_fd_def fd_ok_def)

lemma sysRead_fault:
  assumes "server_inv s" "pid < length (sv_procs s)"
  shows "syscall K pid (SysRead f b n) s w = Inl x \<longleftrightarrow> \<not> fd_ok s pid f \<and> x = OutOfBounds"
  using assms by (auto simp: syscall_def and_then_eq_Inl proc_fd_fault fdRead_no_fault)

lemma sysWrite_fault:
  assumes "server_inv s" "pid < length (sv_procs s)"
  shows "syscall K pid (SysWrite f d) s w = Inl x \<longleftrightarrow> \<not> fd_ok s pid f \<and> x = OutOfBounds"
  using assms by (auto simp: syscall_def and_then_eq_Inl proc_fd_fault fdWrite_no_fault)

lemma sysClose_fault:
  assumes "server_inv s" "pid < length (sv_procs s)"
  shows "syscall K pid (SysClose f) s w = Inl x \<longleftrightarrow> \<not> fd_ok s pid f \<and> x = OutOfBounds"
  using assms by (auto simp: syscall_def and_then_eq_Inl proc_fd_fault fdClose_no_fault)

lemma dev_open_fault:
  "dev_open n es = Inl x \<longleftrightarrow>
   x = SignedOverflow \<and> (\<exists>i. dev_get n es = Some i \<and> de_refCount (es ! i) = 2 ^ 31 - 1)"
  by (auto simp: dev_open_def Let_def split: option.splits)

lemma fd_install_devices_no_fault:
  "entries_ok (sv_fdEntries s) \<Longrightarrow> room s \<Longrightarrow> fd_install K pid d (s\<lparr>sv_devices := ds\<rparr>) w \<noteq> Inl x"
  by (rule fd_install_no_fault) (simp_all add: room_def)

definition mounted_fs :: "server \<Rightarrow> bool" where
  "mounted_fs s \<longleftrightarrow> (\<exists>fs. sv_filesystem s = Some fs \<and> containerPath fs \<noteq> None)"

lemma fileLocalPath_no_fault: "containerPath fs \<noteq> None \<Longrightarrow> fileLocalPath K fs p w \<noteq> Inl x"
  by (auto simp: fileLocalPath_def split: prod.splits if_splits)

text \<open>Opening faults only for a NULL path, without a file system, or when a count overflows.\<close>

lemma fdOpenFdFromPath_fault:
  assumes "server_inv s" "room s" "mounted_fs s" "fdOpenFdFromPath K pid p fl md s w = Inl x"
  shows "strncmp_eq p dev_prefix 5 \<and> x = SignedOverflow \<and>
    (\<exists>i. dev_get (drop 5 p) (sv_devices s) = Some i \<and> de_refCount (sv_devices s ! i) = 2 ^ 31 - 1)"
proof (cases "strncmp_eq p dev_prefix 5")
  case True
  note e = server_invD(1) [OF assms(1)]
  from True assms(4) have "dev_open (drop 5 p) (sv_devices s) = Inl x"
    by (auto simp: fdOpenFdFromPath_def fdOpenFdFromDevice_def and_then_eq_Inl
        fd_install_devices_no_fault [OF e assms(2)] split: option.splits)
  with True show ?thesis by (simp add: dev_open_fault)
next
  case False
  note e = server_invD(1) [OF assms(1)]
  from assms(3) obtain fs where fs: "sv_filesystem s = Some fs" "containerPath fs \<noteq> None"
    by (auto simp: mounted_fs_def)
  from False assms(4) fs(1) have False
    by (auto simp: fdOpenFdFromPath_def fdOpenFdFromFile_def need_def fault_simps
        fileLocalPath_no_fault [OF fs(2)] fd_install_no_fault [OF e assms(2) [unfolded room_def]]
        split: option.splits if_splits)
  then show ?thesis ..
qed

section \<open>No call touches another process\<close>

definition isolated :: "nat \<Rightarrow> server \<Rightarrow> server \<Rightarrow> bool" where
  \<comment> \<open>the other processes, and the entries their descriptors name, are what they were\<close>
  "isolated pid s s' \<longleftrightarrow> length (sv_procs s) \<le> length (sv_procs s') \<and>
     (\<forall>p < length (sv_procs s). p \<noteq> pid \<longrightarrow> sv_procs s' ! p = sv_procs s ! p \<and>
        (\<forall>i fd. fd_slot s p i = Some fd \<longrightarrow> fdGet fd (sv_fdEntries s') = fdGet fd (sv_fdEntries s)))"

lemma isolated_refl: "isolated pid s s"
  by (simp add: isolated_def)

lemma fd_slot_proc:
  "p < length (sv_procs s) \<Longrightarrow> p < length (sv_procs s') \<Longrightarrow> sv_procs s' ! p = sv_procs s ! p \<Longrightarrow>
   fd_slot s' p = fd_slot s p"
  by (simp add: fd_slot_def fun_eq_iff)

lemma isolated_trans:
  assumes "isolated pid s t" "isolated pid t u"
  shows "isolated pid s u"
  unfolding isolated_def
proof (intro conjI allI impI)
  show "length (sv_procs s) \<le> length (sv_procs u)" using assms by (simp add: isolated_def)
  fix p assume p: "p < length (sv_procs s)" "p \<noteq> pid"
  with assms have e: "p < length (sv_procs t)" "sv_procs t ! p = sv_procs s ! p"
    by (auto simp: isolated_def)
  with assms p show "sv_procs u ! p = sv_procs s ! p" by (simp add: isolated_def)
  fix i fd assume i: "fd_slot s p i = Some fd"
  from fd_slot_proc [OF p(1) e] i have "fd_slot t p i = Some fd" by simp
  with assms p e i show "fdGet fd (sv_fdEntries u) = fdGet fd (sv_fdEntries s)"
    by (metis isolated_def)
qed

lemma isolated_upd: "isolated pid s (upd_proc pid f s)"
  by (simp add: isolated_def upd_proc_def)

lemma isolated_push: "isolated pid s (s\<lparr>sv_procs := sv_procs s @ [q]\<rparr>)"
  by (simp add: isolated_def nth_append)

lemma isolated_devices: "isolated pid s s' \<Longrightarrow> isolated pid (s\<lparr>sv_devices := ds\<rparr>) s' = isolated pid s s'"
  by (simp add: isolated_def fd_slot_def)

lemma fdGet_elook_iff: "fdGet fd es = (if 0 \<le> fd then (case elook es (nat fd) of None \<Rightarrow> None | Some e \<Rightarrow> e) else None)"
  by (auto simp: fdGet_def vec_look_def)

lemma installed_isolated:
  assumes "installed s pid d k i s'" "pid < length (sv_procs s)" "server_inv s"
  shows "isolated pid s s'"
proof -
  note look = installed_look [OF assms(1,2)]
  from assms(1) obtain fds where s': "s' = upd_proc pid (\<lambda>p. p\<lparr>pr_fds := fds\<rparr>) (s\<lparr>sv_fdEntries := sv_fdEntries s'\<rparr>)"
    by (auto simp: installed_def)
  have pr: "sv_procs s' = (sv_procs s)[pid := (sv_procs s ! pid)\<lparr>pr_fds := fds\<rparr>]"
    by (subst s') (simp add: upd_proc_def)
  have "fdGet fd (sv_fdEntries s') = fdGet fd (sv_fdEntries s)"
    if "fd_slot s p j = Some fd" for p j fd
  proof -
    from that server_invD(2) [OF assms(3)] have "fdGet fd (sv_fdEntries s) \<noteq> None"
      unfolding slots_ok_def by blast
    with look(1) have "nat fd \<noteq> k" by (auto simp: fdGet_None_elook)
    with look(2) show ?thesis by (simp add: fdGet_elook_iff)
  qed
  then show ?thesis by (simp add: isolated_def pr)
qed

lemma removed_isolated:
  assumes "server_inv s" "fd_slot s pid i = Some fd"
  shows "isolated pid s (removed s pid i fd socks)"
proof -
  have "fdGet f (sv_fdEntries (removed s pid i fd socks)) = fdGet f (sv_fdEntries s)"
    if "fd_slot s p j = Some f" "p \<noteq> pid" for p j f
  proof -
    note sl = server_invD(2) [OF assms(1)]
    have "f \<noteq> fd" using sl that assms(2) unfolding slots_ok_def by metis
    moreover have "0 \<le> f" "0 \<le> fd"
      using sl that(1) assms(2) unfolding slots_ok_def by (metis fdGet_def)+
    ultimately have "nat f \<noteq> nat fd" by simp
    with removed_look(1) [OF assms(2)] show ?thesis by (simp add: fdGet_elook_iff)
  qed
  then show ?thesis by (simp add: isolated_def removed_frame)
qed

lemma fdClose_isolated:
  assumes "server_inv s" "fd_slot s pid i = Some fd" "fdClose K pid fd s w = Inr ((b, s'), w')"
  shows "isolated pid s s'"
  using fdClose_result [OF assms] removed_isolated [OF assms(1,2)] isolated_refl by (cases b) auto

lemma fd_install_isolated:
  assumes "server_inv s" "room s" "pid < length (sv_procs s)" "fd_install K pid d s w = Inr ((r, s'), w')"
  shows "isolated pid s s'"
  using fd_install_result [OF server_invD(1) [OF assms(1)] assms(2) [unfolded room_def] assms(4)]
    installed_isolated [OF _ assms(3,1)] isolated_refl by blast

lemma fdOpenFdFromPath_isolated:
  assumes "server_inv s" "room s" "pid < length (sv_procs s)"
    "fdOpenFdFromPath K pid p fl md s w = Inr ((r, s'), w')"
  shows "isolated pid s s'"
proof (cases "strncmp_eq p dev_prefix 5")
  case True
  note inv = server_invD [OF assms(1)]
  from True assms(4) obtain dv ds where o: "dev_open (drop 5 p) (sv_devices s) = Inr (dv, ds)"
    by (auto simp: fdOpenFdFromPath_def fdOpenFdFromDevice_def and_then_eq_Inr)
  let ?s = "s\<lparr>sv_devices := ds\<rparr>"
  from dev_open_devices [OF o] inv(3) have ds: "\<forall>e \<in> set ds. dev_ok (length (sv_sockets s)) (de_device e)"
    by (force simp: sockets_ok_def)
  have s1: "server_inv ?s" by (rule server_inv_devices [OF assms(1) dev_inv_open [OF inv(4) o] ds])
  show ?thesis
  proof (cases dv)
    case None
    with True assms(4) o show ?thesis
      by (auto simp: fdOpenFdFromPath_def fdOpenFdFromDevice_def isolated_def)
  next
    case (Some d)
    with True assms(4) o obtain q where i: "fd_install K pid (FdTypeDevice d) ?s w = Inr ((q, s'), w')"
      by (auto simp: fdOpenFdFromPath_def fdOpenFdFromDevice_def fault_simps)
    have "isolated pid ?s s'"
      by (rule fd_install_isolated [OF s1 _ _ i]) (use assms(2,3) in \<open>simp_all add: room_def\<close>)
    then show ?thesis by (simp add: isolated_def fd_slot_def)
  qed
next
  case False
  with assms(4) consider "s' = s" | q x w2 w3 where "fd_install K pid (FdTypeFd x) s w2 = Inr ((q, s'), w3)"
    by (auto simp: fdOpenFdFromPath_def fdOpenFdFromFile_def fault_simps split: option.splits if_splits)
  then show ?thesis
    by cases (simp add: isolated_refl, rule fd_install_isolated [OF assms(1-3)])
qed

text \<open>
  A relation that every successful or failed close of a descriptor of the process
  establishes is established by freeing all of them.
\<close>

lemma processFree_loop_rel:
  assumes refl: "\<And>s. R s s" and trans: "\<And>s t u. R s t \<Longrightarrow> R t u \<Longrightarrow> R s u"
    and step: "\<And>s i fd w b s' w'. server_inv s \<Longrightarrow> fd_slot s pid i = Some fd \<Longrightarrow>
      fdClose K pid fd s w = Inr ((b, s'), w') \<Longrightarrow> R s s'"
    and "server_inv s" "pid < length (sv_procs s)" "\<forall>i \<in> set is. i < length (pr_fds (sv_procs s ! pid))"
    and "processFree_loop K pid is s w = Inr (s', w')"
  shows "R s s'"
  using assms(4-)
proof (induction "is" arbitrary: s w)
  case Nil
  then show ?case by (simp add: refl)
next
  case (Cons i rest)
  define fd where "fd = pr_fds (sv_procs s ! pid) ! i"
  show ?case
  proof (cases "fd = -1")
    case True
    with Cons show ?thesis by (simp add: fd_def)
  next
    case False
    with Cons.prems have slot: "fd_slot s pid i = Some fd" by (simp add: fd_slot_Some fd_def)
    from Cons.prems(4) False obtain b s1 w1 where c: "fdClose K pid fd s w = Inr ((b, s1), w1)"
      and rest: "processFree_loop K pid rest s1 w1 = Inr (s', w')"
      by (auto simp: fd_def and_then_eq_Inr Let_def)
    have one: "processFree_loop K pid [i] s w = Inr (s1, w1)"
      using c False by (simp add: fd_def Let_def)
    from processFree_loop_inv [OF Cons.prems(1,2) _ one] Cons.prems(3)
    have "server_inv s1" "kept s s1"
      "length (pr_fds (sv_procs s1 ! pid)) = length (pr_fds (sv_procs s ! pid))" by simp_all
    with Cons.IH [of s1 w1] rest Cons.prems(2,3) have "R s1 s'" by (simp add: kept_def)
    with step [OF Cons.prems(1) slot c] show ?thesis by (rule trans)
  qed
qed

lemma processFree_isolated:
  assumes "server_inv s" "pid < length (sv_procs s)" "processFree K pid s w = Inr (s', w')"
  shows "isolated pid s s'"
proof -
  from assms(3) obtain s1 w1 where
    l: "processFree_loop K pid [0 ..< length (pr_fds (sv_procs s ! pid))] s w = Inr (s1, w1)"
    and s': "s' = upd_proc pid (\<lambda>_. fst (Process_destroy K (sv_procs s1 ! pid) w1)) s1"
    by (auto simp: processFree_def fault_simps)
  have "isolated pid s s1"
    by (rule processFree_loop_rel [OF isolated_refl isolated_trans fdClose_isolated assms(1,2) upt_ok l])
  with s' isolated_upd isolated_trans show ?thesis by blast
qed

lemma processFork_isolated:
  assumes "processFork K pid s w = Inr ((r, s'), w')"
  shows "isolated pid s s'"
  using processFork_result [OF assms] isolated_push isolated_refl by blast

lemma sysExec_isolated:
  assumes "server_inv s" "pid < length (sv_procs s)" "sysExec K pid pth argv s w = Inr ((r, s'), w')"
  shows "isolated pid s s'"
  using assms(3)
proof (cases rule: sysExec_result)
  case failed
  then show ?thesis by (simp add: isolated_refl)
next
  case (loaded np1 np2 np3 s1 w1 w2 w3 w4 b2 b3 q)
  from processFree_isolated [OF assms(1,2) loaded(4)] isolated_upd [of pid s1 "\<lambda>_. q"] loaded(5)
  show ?thesis by (metis isolated_trans)
qed

lemma syscall_isolated:
  assumes "server_inv s" "room s" "syscall K pid req s w = Inr ((r, s'), w')"
  shows "isolated pid s s'"
proof -
  from assms(3) have pid: "pid < length (sv_procs s)" by (auto simp: syscall_def split: if_splits)
  show ?thesis
  proof (cases req)
    case (SysExit x)
    with assms(3) pid obtain w1 where "processFree K pid s w = Inr (s', w1)"
      by (auto simp: syscall_def syscallExit_def and_then_eq_Inr)
    from processFree_isolated [OF assms(1) pid this] show ?thesis .
  next
    case SysFork
    with assms(3) pid obtain q w1 where "processFork K pid s w = Inr ((q, s'), w1)"
      by (auto simp: syscall_def and_then_eq_Inr)
    from processFork_isolated [OF this] show ?thesis .
  next
    case (SysOpen p f m)
    with assms(3) pid obtain pt q w1 where "fdOpenFdFromPath K pid pt m f s w = Inr ((q, s'), w1)"
      by (auto simp: syscall_def and_then_eq_Inr)
    from fdOpenFdFromPath_isolated [OF assms(1,2) pid this] show ?thesis .
  next
    case (SysClose f)
    with assms(3) pid obtain fd b w1 where fd: "proc_fd (sv_procs s ! pid) f = Inr fd"
      and c: "fdClose K pid fd s w = Inr ((b, s'), w1)"
      by (auto simp: syscall_def and_then_eq_Inr)
    from proc_fd_slot [OF pid fd] c show ?thesis
      by (auto simp: fdClose_neg isolated_refl dest: fdClose_isolated [OF assms(1) _ c])
  next
    case (SysExec p a)
    with assms(3) pid have "sysExec K pid p a s w = Inr ((r, s'), w')" by (simp add: syscall_def)
    from sysExec_isolated [OF assms(1) pid this] show ?thesis .
  next
    case (SysChDir p)
    with assms(3) pid obtain q where "s' = upd_proc pid (\<lambda>_. q) s"
      by (auto simp: syscall_def and_then_eq_Inr)
    then show ?thesis by (simp add: isolated_upd)
  qed (use assms(3) pid in \<open>auto simp: syscall_def and_then_eq_Inr isolated_refl
        split: if_splits option.splits prod.splits\<close>)
qed

section \<open>What freeing a process releases\<close>

definition closes_ok :: "'w posix \<Rightarrow> bool" where
  "closes_ok K \<longleftrightarrow> (\<forall>fd w. fst (px_close K fd w) \<noteq> -1)"

definition live_sockets :: "server \<Rightarrow> bool" where
  \<comment> \<open>every socket object is a TCP socket that was connected or accepted\<close>
  "live_sockets s \<longleftrightarrow> (\<forall>sk \<in> set (sv_sockets s). sk_type sk = TypeTcp \<and> sk_state sk \<noteq> StateNone)"

lemma close_data_True:
  assumes "closes_ok K" "live_sockets s" "d \<noteq> FdTypeNone" "data_ok (length (sv_sockets s)) d"
    "close_data K d s w = Inr ((b, s'), w')"
  shows "b \<and> live_sockets s'"
proof (cases d)
  case (FdTypeSocket i)
  with assms(4,5) obtain sk' where i: "i < length (sv_sockets s)"
    and c: "sock_close K (sv_sockets s ! i) w = Inr ((b, sk'), w')"
    and s': "s' = s\<lparr>sv_sockets := (sv_sockets s)[i := sk']\<rparr>"
    by (auto simp: close_data_def data_ok_def sock_at_def and_then_eq_Inr split: if_splits)
  from i assms(2) have live: "sk_type (sv_sockets s ! i) = TypeTcp" "sk_state (sv_sockets s ! i) \<noteq> StateNone"
    by (simp_all add: live_sockets_def)
  with c assms(1) have "b" by (auto simp: sock_close_def fault_simps closes_ok_def split: if_splits)
  moreover from sock_close_keeps [OF c] live have "sk_type sk' = TypeTcp" "sk_state sk' \<noteq> StateNone" by simp_all
  ultimately show ?thesis
    using s' assms(2) set_list_update_sub [of "sv_sockets s" i sk'] by (auto simp: live_sockets_def)
qed (use assms in \<open>auto simp: close_data_def closes_ok_def case_prod_unfold\<close>)

lemma fdClose_True:
  assumes "server_inv s" "closes_ok K" "live_sockets s" "fd_slot s pid i = Some fd"
    "fdClose K pid fd s w = Inr ((b, s'), w')"
  shows "b \<and> live_sockets s'"
proof -
  note inv = server_invD [OF assms(1)]
  from assms(4) inv(2) obtain e where e: "fdGet fd (sv_fdEntries s) = Some e"
    unfolding slots_ok_def by blast
  note ee = entries_ok_get [OF inv(1) e]
  have "data_ok (length (sv_sockets s)) (fe_d e)"
    using fdGet_Some [OF e] inv(3) unfolding sockets_ok_def by (metis nth_mem)
  from close_data_True [OF assms(2,3) _ this] e ee assms(5) show ?thesis
    by (auto simp: fdClose_def fault_simps live_sockets_def upd_proc_def split: if_splits)
qed

lemma processFree_loop_frees:
  assumes "server_inv s" "closes_ok K" "live_sockets s" "pid < length (sv_procs s)"
    "\<forall>i \<in> set is. i < length (pr_fds (sv_procs s ! pid))"
    "processFree_loop K pid is s w = Inr (s', w')"
  shows "fd_slot s' pid = (\<lambda>i. if i \<in> set is then None else fd_slot s pid i) \<and>
    (\<forall>fd. fdGet fd (sv_fdEntries s') =
       (if \<exists>i \<in> set is. fd_slot s pid i = Some fd then None else fdGet fd (sv_fdEntries s)))"
  using assms
proof (induction "is" arbitrary: s w)
  case Nil
  then show ?case by simp
next
  case (Cons i rest)
  define fd where "fd = pr_fds (sv_procs s ! pid) ! i"
  show ?case
  proof (cases "fd = -1")
    case True
    then have "fd_slot s pid i = None" by (simp add: fd_slot_def vec_look_def fd_def)
    with True Cons show ?thesis by (auto simp: fd_def fun_eq_iff)
  next
    case False
    with Cons.prems have slot: "fd_slot s pid i = Some fd" by (simp add: fd_slot_Some fd_def)
    from Cons.prems(6) False obtain b s1 w1 where c: "fdClose K pid fd s w = Inr ((b, s1), w1)"
      and rest: "processFree_loop K pid rest s1 w1 = Inr (s', w')"
      by (auto simp: fd_def and_then_eq_Inr Let_def)
    from fdClose_True [OF Cons.prems(1-3) slot c] have b: "b" "live_sockets s1" by simp_all
    with fdClose_result [OF Cons.prems(1) slot c] obtain socks where s1: "s1 = removed s pid i fd socks"
      by blast
    note look = removed_look [OF slot, of socks]
    have "server_inv s1" by (rule server_inv_fdClose [OF Cons.prems(1) slot c])
    from Cons.IH [OF this Cons.prems(2) b(2) _ _ rest] Cons.prems(4,5)
    have IH: "fd_slot s' pid = (\<lambda>i. if i \<in> set rest then None else fd_slot s1 pid i)"
      "\<And>f. fdGet f (sv_fdEntries s') =
       (if \<exists>i \<in> set rest. fd_slot s1 pid i = Some f then None else fdGet f (sv_fdEntries s1))"
      by (simp_all add: s1 removed_frame)
    have sl: "fd_slot s1 pid = (fd_slot s pid)(i := None)" using look(2) by (simp add: s1)
    have nn: "0 \<le> fd" using Cons.prems(1) slot server_invD(2) unfolding slots_ok_def by (metis fdGet_def)
    have ent: "fdGet f (sv_fdEntries s1) = (if f = fd then None else fdGet f (sv_fdEntries s))" for f
      using look(1) nn by (auto simp: s1 fdGet_elook_iff)
    show ?thesis using IH slot by (auto simp: sl ent fun_eq_iff)
  qed
qed

text \<open>With no failing close, exactly the entries of the process are gone and it holds none.\<close>

lemma processFree_frees:
  assumes "server_inv s" "closes_ok K" "live_sockets s" "pid < length (sv_procs s)"
    "processFree K pid s w = Inr (s', w')"
  shows "fd_slot s' pid i = None \<and>
    fdGet fd (sv_fdEntries s') = (if fd \<in> ran (fd_slot s pid) then None else fdGet fd (sv_fdEntries s))"
proof -
  let ?n = "length (pr_fds (sv_procs s ! pid))"
  from assms(5) obtain s1 w1 where l: "processFree_loop K pid [0 ..< ?n] s w = Inr (s1, w1)"
    and s': "s' = upd_proc pid (\<lambda>_. fst (Process_destroy K (sv_procs s1 ! pid) w1)) s1"
    by (auto simp: processFree_def fault_simps)
  note f = processFree_loop_frees [OF assms(1-4) upt_ok l]
  have dom: "fd_slot s pid j = Some x \<Longrightarrow> j < ?n" for j x by (simp add: fd_slot_Some)
  have "kept s s1" using processFree_loop_inv [OF assms(1,4) upt_ok l] by simp
  then have "pid < length (sv_procs s1)" using assms(4) by (simp add: kept_def)
  then have "fd_slot s' pid = fd_slot s1 pid"
    by (simp add: s' fd_slot_def upd_proc_def Process_destroy_def fun_eq_iff)
  moreover have "fd_slot s1 pid i = None"
    using f dom [of i] by (cases "fd_slot s pid i") auto
  moreover have "(\<exists>j \<in> set [0 ..< ?n]. fd_slot s pid j = Some fd) \<longleftrightarrow> fd \<in> ran (fd_slot s pid)"
    using dom by (auto simp: ran_def)
  ultimately show ?thesis using f by (simp add: s' upd_proc_def)
qed

end
