(* ===== verification/SysResults.thy ===== *)
theory SysResults
  imports SysEffects
begin

text \<open>
  The results of the system calls: the descriptor an open hands out and what reading and
  closing it does, which arguments of open(2) a platform program controls, the process an
  exec enters, and the working directory a chdir leaves for getcwd.
\<close>

section \<open>The descriptor handed out\<close>

text \<open>
  The slots of a process name distinct entries, so the lowest free slot is no further than
  the number of entries of the server.
\<close>

lemma lowest_slot_le:
  assumes "server_inv s" "\<And>j. j < i \<Longrightarrow> fd_slot s pid j \<noteq> None"
  shows "i \<le> length (sv_fdEntries s)"
proof -
  let ?f = "\<lambda>j. nat (the (fd_slot s pid j))"
  note sl = server_invD(2) [OF assms(1)]
  have pos: "0 \<le> fd \<and> nat fd < length (sv_fdEntries s)" if "fd_slot s pid j = Some fd" for j fd
    using sl that unfolding slots_ok_def by (metis fdGet_def)
  have inj: "inj_on ?f {..<i}"
  proof (rule inj_onI)
    fix j j' assume j: "j \<in> {..<i}" "j' \<in> {..<i}" "?f j = ?f j'"
    from j assms(2) obtain a b where ab: "fd_slot s pid j = Some a" "fd_slot s pid j' = Some b"
      by (metis lessThan_iff not_None_eq)
    with j(3) have "nat a = nat b" by simp
    with pos [OF ab(1)] pos [OF ab(2)] have "a = b" by linarith
    with ab sl show "j = j'" unfolding slots_ok_def by blast
  qed
  have "?f ` {..<i} \<subseteq> {..<length (sv_fdEntries s)}"
    using assms(2) pos by (force simp: image_subset_iff)
  from card_inj_on_le [OF inj this] show ?thesis by simp
qed

lemma installed_fd:
  assumes "installed s pid d k i s'" "server_inv s" "room s" "pid < length (sv_procs s)"
  shows "c_int i = int i" "proc_fd (sv_procs s' ! pid) (int i) = Inr (int k)"
    "fdGet (int k) (sv_fdEntries s') = Some \<lparr>fe_fd = int k, fe_refCount = Some 1, fe_d = d\<rparr>"
    "fd_slot s' pid i = Some (int k)" "i \<le> length (sv_fdEntries s)"
proof -
  note look = installed_look [OF assms(1,4)]
  show i: "i \<le> length (sv_fdEntries s)" by (rule lowest_slot_le [OF assms(2) look(8)])
  with assms(3) have "i < 2 ^ 31" by (simp add: room_def)
  then show "c_int i = int i" by (rule c_int_small)
  show sl: "fd_slot s' pid i = Some (int k)" using look(4) by simp
  then show "proc_fd (sv_procs s' ! pid) (int i) = Inr (int k)" by (simp add: proc_fd_def fd_slot_Some)
  show "fdGet (int k) (sv_fdEntries s') = Some \<lparr>fe_fd = int k, fe_refCount = Some 1, fe_d = d\<rparr>"
    using look(2) by (simp add: fdGet_elook_iff)
qed

text \<open>Opening and then closing leaves every descriptor and every entry as it was.\<close>

lemma installed_close:
  assumes "installed s pid d k i s'" "pid < length (sv_procs s)" "server_inv s'"
    "fdClose K pid (int k) s' w = Inr ((True, s''), w')"
  shows "fd_slot s'' = fd_slot s \<and> (\<forall>fd. fdGet fd (sv_fdEntries s'') = fdGet fd (sv_fdEntries s))"
proof -
  note look = installed_look [OF assms(1,2)]
  have slot: "fd_slot s' pid i = Some (int k)" using look(4) by simp
  with fdClose_result [OF assms(3) slot assms(4)] obtain socks where s'': "s'' = removed s' pid i (int k) socks"
    by blast
  note r = removed_look [OF slot, of socks]
  have "fd_slot s'' = fd_slot s" unfolding s'' r(2) look(4) using look(3) by (auto simp: fun_eq_iff)
  moreover have "elook (sv_fdEntries s'') = elook (sv_fdEntries s)"
    unfolding s'' r(1) look(2) using look(1) by (auto simp: fun_eq_iff)
  ultimately show ?thesis by (simp add: fdGet_elook_iff)
qed

section \<open>Opening a file\<close>

text \<open>
  The system call hands its mode to open(2) as the flags and its flags as the mode.
\<close>

lemma sysOpen_file:
  assumes "server_inv s" "room s" "pid < length (sv_procs s)" "\<not> strncmp_eq p dev_prefix 5"
    "sv_filesystem s = Some fs" "fileLocalPath K fs p w = Inr (Some l, w1)"
    "px_open K l mode flags w1 = (x, w2)" "malloc_total K"
  shows "if x = -1 then syscall K pid (SysOpen (Some p) flags mode) s w = Inr ((Ret (-1), s), w2)
    else \<exists>k i s' w'. syscall K pid (SysOpen (Some p) flags mode) s w = Inr ((Ret (int i), s'), w') \<and>
      installed s pid (FdTypeFd x) k i s'"
proof (cases "x = -1")
  case True
  with assms show ?thesis
    by (simp add: syscall_def need_def fdOpenFdFromPath_def fdOpenFdFromFile_def)
next
  case False
  note e = server_invD(1) [OF assms(1)]
  obtain r s' w3 where f: "fd_install K pid (FdTypeFd x) s w2 = Inr ((r, s'), w3)"
    by (cases "fd_install K pid (FdTypeFd x) s w2" rule: result_cases)
      (simp_all add: fd_install_no_fault [OF e assms(2) [unfolded room_def]])
  from fd_install_result [OF e assms(2) [unfolded room_def] f] assms(8) obtain k i where
    ki: "r = Some (c_int i)" "installed s pid (FdTypeFd x) k i s'"
    by (auto simp: malloc_total_def)
  from installed_fd(1) [OF ki(2) assms(1-3)] False assms f ki show ?thesis
    by (auto simp: syscall_def need_def fdOpenFdFromPath_def fdOpenFdFromFile_def)
qed

section \<open>Opening a device\<close>

lemma sysOpen_device:
  assumes "server_inv s" "room s" "pid < length (sv_procs s)" "malloc_total K"
    "dev_abs (sv_devices s) n = Some (d, c)" "c < 2 ^ 31 - 1"
  shows "\<exists>ds k i s' w'. syscall K pid (SysOpen (Some (dev_prefix @ n)) flags mode) s w =
      Inr ((Ret (int i), s'), w') \<and> installed (s\<lparr>sv_devices := ds\<rparr>) pid (FdTypeDevice d) k i s' \<and>
    dev_abs ds = (dev_abs (sv_devices s))(n \<mapsto> (d, c + 1)) \<and> server_inv (s\<lparr>sv_devices := ds\<rparr>) \<and>
    server_inv s'"
proof -
  note inv = server_invD [OF assms(1)]
  have "dev_open n (sv_devices s) \<noteq> Inl x" for x
    using assms(5,6) dev_get_abs [OF inv(4)] by (auto simp: dev_open_fault)
  then obtain dv ds where o: "dev_open n (sv_devices s) = Inr (dv, ds)"
    by (metis obj_sumE surj_pair)
  from o assms(5) dev_open_None [of n "sv_devices s" ds] obtain d' where dv: "dv = Some d'"
    by (cases dv) auto
  from dev_open_Some [OF inv(4) o [unfolded dv]] assms(5) have ds:
    "d' = d" "dev_abs ds = (dev_abs (sv_devices s))(n \<mapsto> (d, c + 1))" "dev_inv ds" by auto
  let ?s = "s\<lparr>sv_devices := ds\<rparr>"
  from dev_open_devices [OF o] inv(3) dv ds(1)
  have ok: "\<forall>e \<in> set ds. dev_ok (length (sv_sockets s)) (de_device e)"
    and dok: "dev_ok (length (sv_sockets s)) d"
    by (force simp: sockets_ok_def)+
  have s1: "server_inv ?s" by (rule server_inv_devices [OF assms(1) ds(3) ok])
  have rm: "room ?s" "pid < length (sv_procs ?s)" using assms(2,3) by (simp_all add: room_def)
  note e = server_invD(1) [OF s1]
  obtain r s' w3 where f: "fd_install K pid (FdTypeDevice d) ?s w = Inr ((r, s'), w3)"
    by (cases "fd_install K pid (FdTypeDevice d) ?s w" rule: result_cases)
      (simp_all add: fd_install_no_fault [OF e rm(1) [unfolded room_def]])
  from fd_install_result [OF e rm(1) [unfolded room_def] f] assms(4) obtain k i where
    ki: "r = Some (c_int i)" "installed ?s pid (FdTypeDevice d) k i s'"
    by (auto simp: malloc_total_def)
  have pre: "strncmp_eq (dev_prefix @ n) dev_prefix 5" "drop 5 (dev_prefix @ n) = n"
    by (simp_all add: strncmp_eq_def dev_prefix_def)
  have "server_inv s'" by (rule installed_server [OF s1 rm _ _ f]) (use dok in \<open>simp_all add: data_ok_def\<close>)
  with installed_fd(1) [OF ki(2) s1 rm] o dv ds f ki pre assms(3) s1 show ?thesis
    by (auto simp: syscall_def need_def fdOpenFdFromPath_def fdOpenFdFromDevice_def)
qed

text \<open>\<^verbatim>\<open>/dev/zero\<close>: what was opened reads as NULs and its descriptor can be given back.\<close>

lemma sysOpen_zero_read:
  assumes "server_inv s" "room s" "pid < length (sv_procs s)" "malloc_total K"
    "dev_abs (sv_devices s) n = Some (DeviceZero, c)" "c < 2 ^ 31 - 1" "m < 2 ^ 31"
  shows "\<exists>i s' w'. syscall K pid (SysOpen (Some (dev_prefix @ n)) flags mode) s w = Inr ((Ret (int i), s'), w') \<and>
    syscall K pid (SysRead (int i) True m) s' w' = Inr ((RetData (int m) (replicate m NUL), s'), w')"
proof -
  obtain ds k i s' w' where
    o: "syscall K pid (SysOpen (Some (dev_prefix @ n)) flags mode) s w = Inr ((Ret (int i), s'), w')"
    and ins: "installed (s\<lparr>sv_devices := ds\<rparr>) pid (FdTypeDevice DeviceZero) k i s'"
    and inv: "server_inv (s\<lparr>sv_devices := ds\<rparr>)"
    using sysOpen_device [OF assms(1-6)] by blast
  have rm: "room (s\<lparr>sv_devices := ds\<rparr>)" "pid < length (sv_procs (s\<lparr>sv_devices := ds\<rparr>))"
    using assms(2,3) by (simp_all add: room_def)
  note fd = installed_fd [OF ins inv rm]
  have len: "pid < length (sv_procs s')" using installed_frame(10) [OF ins] assms(3) by simp
  have m: "to_s32 (int m) = int m" using assms(7) by (intro to_s32_id) simp_all
  have "syscall K pid (SysRead (int i) True m) s' w' = Inr ((RetData (int m) (replicate m NUL), s'), w')"
    using fd len m by (cases m) (simp_all add: syscall_def fdRead_def dev_read_def)
  with o show ?thesis by blast
qed

lemma sysClose_device:
  assumes "server_inv s" "room s" "pid < length (sv_procs s)" "malloc_total K"
    "dev_abs (sv_devices s) n = Some (d, c)" "c < 2 ^ 31 - 1"
  shows "\<exists>i s' w' s''. syscall K pid (SysOpen (Some (dev_prefix @ n)) flags mode) s w = Inr ((Ret (int i), s'), w') \<and>
    syscall K pid (SysClose (int i)) s' w' = Inr ((Ret 0, s''), w') \<and>
    fd_slot s'' = fd_slot s \<and> (\<forall>fd. fdGet fd (sv_fdEntries s'') = fdGet fd (sv_fdEntries s)) \<and>
    dev_abs (sv_devices s'') = (dev_abs (sv_devices s))(n \<mapsto> (d, c + 1)) \<and> dev_inv (sv_devices s'')"
proof -
  obtain ds k i s' w' where
    o: "syscall K pid (SysOpen (Some (dev_prefix @ n)) flags mode) s w = Inr ((Ret (int i), s'), w')"
    and ins: "installed (s\<lparr>sv_devices := ds\<rparr>) pid (FdTypeDevice d) k i s'"
    and ds: "dev_abs ds = (dev_abs (sv_devices s))(n \<mapsto> (d, c + 1))"
    and inv: "server_inv (s\<lparr>sv_devices := ds\<rparr>)" "server_inv s'"
    using sysOpen_device [OF assms(1-6)] by blast
  have rm: "room (s\<lparr>sv_devices := ds\<rparr>)" "pid < length (sv_procs (s\<lparr>sv_devices := ds\<rparr>))"
    using assms(2,3) by (simp_all add: room_def)
  note fd = installed_fd [OF ins inv(1) rm]
  have len: "pid < length (sv_procs s')" using installed_frame(10) [OF ins] assms(3) by simp
  obtain s'' where c: "fdClose K pid (int k) s' w' = Inr ((True, s''), w')"
    using fd(3) by (simp add: fdClose_def close_data_def)
  have "sv_devices s'' = ds"
    using c fd(3) installed_frame(3) [OF ins] by (auto simp: fdClose_def close_data_def upd_proc_def)
  moreover have "fd_slot (s\<lparr>sv_devices := ds\<rparr>) = fd_slot s" by (rule fd_slot_frame) simp
  moreover have "syscall K pid (SysClose (int i)) s' w' = Inr ((Ret 0, s''), w')"
    using fd(2) len c by (simp add: syscall_def)
  ultimately show ?thesis
    using o ds installed_close [OF ins rm(2) inv(2) c] server_invD(4) [OF inv(1)] by auto
qed

text \<open>Whatever is opened gets the lowest free descriptor and the lowest free entry.\<close>

lemma sysOpen_installed:
  assumes "server_inv s" "room s" "syscall K pid (SysOpen (Some p) flags mode) s w = Inr ((Ret r, s'), w')" "r \<noteq> -1"
  shows "\<exists>ds d k i. r = int i \<and> installed (s\<lparr>sv_devices := ds\<rparr>) pid d k i s'"
proof -
  have pid: "pid < length (sv_procs s)" using assms(3) by (auto simp: syscall_def split: if_splits)
  have inst: "\<exists>k i. q = int i \<and> installed t pid d k i s'"
    if t: "server_inv t" "room t" "pid < length (sv_procs t)"
      and f: "fd_install K pid d t v = Inr ((Some q, s'), v')" for t d v q v'
    using fd_install_result [OF server_invD(1) [OF t(1)] t(2) [unfolded room_def] f] installed_fd(1) [OF _ t]
    by auto
  show ?thesis
  proof (cases "strncmp_eq p dev_prefix 5")
    case True
    with assms(3,4) pid obtain d ds w2 where o: "dev_open (drop 5 p) (sv_devices s) = Inr (Some d, ds)"
      and f: "fd_install K pid (FdTypeDevice d) (s\<lparr>sv_devices := ds\<rparr>) w = Inr ((Some r, s'), w2)"
      by (auto simp: syscall_def need_def fdOpenFdFromPath_def fdOpenFdFromDevice_def fault_simps
          split: option.splits)
    have s1: "server_inv (s\<lparr>sv_devices := ds\<rparr>)"
    proof (rule server_inv_devices [OF assms(1) dev_inv_open [OF server_invD(4) [OF assms(1)] o]])
      show "\<forall>e \<in> set ds. dev_ok (length (sv_sockets s)) (de_device e)"
        using dev_open_devices [OF o] server_invD(3) [OF assms(1)] by (force simp: sockets_ok_def)
    qed
    show ?thesis using inst [OF s1 _ _ f] assms(2) pid by (auto simp: room_def)
  next
    case False
    with assms(3,4) pid obtain x w1 w2 where f: "fd_install K pid (FdTypeFd x) s w1 = Inr ((Some r, s'), w2)"
      by (auto simp: syscall_def need_def fdOpenFdFromPath_def fdOpenFdFromFile_def fault_simps
          split: option.splits if_splits)
    have "s\<lparr>sv_devices := sv_devices s\<rparr> = s" by simp
    with inst [OF assms(1,2) pid f] show ?thesis by metis
  qed
qed

section \<open>Exec\<close>

lemma server_loc_mounted:
  "sv_filesystem s = Some fs \<Longrightarrow> server_loc K s = fileLocalPath K fs"
  by (simp add: server_loc_def need_def fun_eq_iff)

lemma setCwd_total: "malloc_total K \<Longrightarrow> setCwd K d p w = Inr ((b, p'), w') \<Longrightarrow> b"
  by (auto simp: setCwd_def malloc_total_def case_prod_unfold split: option.splits if_splits)

lemma sysExec_enters:
  assumes "server_inv s" "sv_filesystem s = Some \<lparr>containerPath = Some (c @ ''/'')\<rparr>"
    "syscall K pid (SysExec (Some p) argv) s w = Inr ((Enters q, s'), w')"
  shows "pr_cwd q \<in> {pr_cwd (sv_procs s ! pid), Some (dirname p)} \<and> pr_environ q \<in> {pr_environ (sv_procs s ! pid), None} \<and>
    (malloc_total K \<longrightarrow> pr_cwd q = pr_cwd (sv_procs s ! pid) \<and> pr_environ q = pr_environ (sv_procs s ! pid)) \<and>
    pr_name q = Some (base_name p) \<and> pr_argv q = Some argv \<and> pr_argc q = int (length argv) \<and>
    pr_state q = PrRunning \<and> pr_posixPID q = px_getpid K w' \<and> pr_fds q = [] \<and> sv_procs s' ! pid = q"
proof -
  from assms(3) have pid: "pid < length (sv_procs s)" by (auto simp: syscall_def split: if_splits)
  with assms(3) have "sysExec K pid (Some p) argv s w = Inr ((Enters q, s'), w')" by (simp add: syscall_def)
  then show ?thesis
  proof (cases rule: sysExec_result)
    case failed
    then show ?thesis by simp
  next
    case (loaded np1 np2 np3 s1 w1 w2 w3 w4 b2 b3 q')
    have b: "b2" "b3" if "malloc_total K"
      using setEnviron_total [OF that, of "pr_environ (sv_procs s ! pid)" np1 w1] loaded(2)
        setCwd_total [OF that loaded(3)] by simp_all
    note np = exec_process [OF loaded(1-3)]
    from loaded(6) have q': "q' = q" and a: "arun K False argv np3 w4 = Inr (RunEntered q, w')" by auto
    from mounted.loadFileFS_name [OF loaded(1) [unfolded server_loc_mounted [OF assms(2)]]]
    have nm: "pr_name np1 = Some (base_name p)" "pr_cwd np1 = Some (dirname p)" by simp_all
    have "pr_name np3 = pr_name np1"
      using setEnviron_result [OF loaded(2)] setCwd_result [OF loaded(3)] by auto
    moreover have "pid < length (sv_procs s1)"
      using server_inv_processFree [OF assms(1) pid loaded(4)] pid by (simp add: kept_def)
    ultimately show ?thesis
      using np b nm arun_result [OF a] loaded(5) q' by (auto simp: upd_proc_def)
  qed
qed

text \<open>An exec whose program was loaded does not come back with a failure: it never ends in exit.\<close>

lemma sysExec_no_exit:
  assumes "sysExec K pid p argv s w = Inr ((r, s'), w')"
  shows "r \<noteq> Exits c"
proof -
  obtain ok np1 w1 where l: "loadFileFS K (server_loc K s) p Process_new w = Inr ((ok, np1), w1)"
    using assms by (cases "loadFileFS K (server_loc K s) p Process_new w" rule: result_cases)
      (simp_all add: sysExec_def)
  show ?thesis
  proof (cases ok)
    case False
    with assms l show ?thesis by (simp add: sysExec_def)
  next
    case True
    obtain b2 np2 w2 where e: "setEnviron K (pr_environ (sv_procs s ! pid)) np1 w1 = ((b2, np2), w2)"
      by (metis surj_pair)
    obtain b3 np3 w3 where c: "setCwd K (pr_cwd (sv_procs s ! pid)) np2 w2 = Inr ((b3, np3), w3)"
      using assms l True e
      by (cases "setCwd K (pr_cwd (sv_procs s ! pid)) np2 w2" rule: result_cases) (simp_all add: sysExec_def)
    obtain s1 w4 where f: "processFree K pid s w3 = Inr (s1, w4)"
      using assms l True e c by (cases "processFree K pid s w3" rule: state_cases) (simp_all add: sysExec_def)
    from l True have "loadFileFS K (server_loc K s) p Process_new w = Inr ((True, np1), w1)" by simp
    from exec_process [OF this e c] have "proc_wf np3" "pr_state np3 = PrLoaded" by simp_all
    from arun_exec [OF this, of K argv w4] obtain q where "arun K False argv np3 w4 = Inr (RunEntered q, w4)"
      by blast
    with assms l True e c f show ?thesis by (auto simp: sysExec_def)
  qed
qed

section \<open>The working directory\<close>

lemma getcwd_buf_result:
  assumes "0 < n" "NUL \<notin> set d"
  shows "length (getcwd_buf d n) = n \<and> last (getcwd_buf d n) = NUL \<and>
    c_str (getcwd_buf d n) = take (n - 1) d"
proof -
  have len: "length (getcwd_buf d n) = n" by (simp add: getcwd_buf_def)
  then have "last (getcwd_buf d n) = getcwd_buf d n ! (n - 1)"
    using assms(1) by (metis last_conv_nth length_greater_0_conv)
  then have l: "last (getcwd_buf d n) = NUL" using assms(1) by (simp add: getcwd_buf_def)
  have "take n (d @ replicate n NUL) = d @ NUL # replicate (n - 1 - length d) NUL" if "length d < n"
    using that by (simp add: Suc_diff_Suc flip: replicate_Suc)
  moreover have "(d @ NUL # replicate (n - 1 - length d) NUL)[n - 1 := NUL] =
      d @ NUL # replicate (n - 1 - length d) NUL" if "length d < n"
    using that by (intro list_update_same_conv [THEN iffD2]) (auto simp: nth_append nth_Cons' )
  moreover have "(take n d)[n - 1 := NUL] = take (n - 1) d @ [NUL]" if "n \<le> length d"
    using that assms(1) by (cases n) (simp_all add: take_Suc_conv_app_nth list_update_append)
  ultimately have "getcwd_buf d n = (if length d < n then d @ NUL # replicate (n - 1 - length d) NUL
      else take (n - 1) d @ [NUL])"
    by (simp add: getcwd_buf_def)
  moreover have "NUL \<notin> set (take (n - 1) d)" using assms(2) by (meson in_set_takeD)
  ultimately show ?thesis using len l assms(2) by simp
qed

lemma sysChDir_getcwd:
  assumes "syscall K pid (SysChDir (Some d)) s w = Inr ((Ret 0, s'), w')" "0 < n" "NUL \<notin> set d"
  shows "\<exists>buf. syscall K pid (SysGetCwd True n) s' v = Inr ((RetData (to_u32 (int (length d + 1))) buf, s'), v) \<and>
    length buf = n \<and> c_str buf = take (n - 1) d"
proof -
  from assms(1) have pid: "pid < length (sv_procs s)" by (auto simp: syscall_def split: if_splits)
  with assms(1) obtain q where c: "setCwd K (Some d) (sv_procs s ! pid) w = Inr ((True, q), w')"
    and s': "s' = upd_proc pid (\<lambda>_. q) s"
    by (auto simp: syscall_def fault_simps split: if_splits)
  from setCwd_result [OF c] have "pr_cwd (sv_procs s' ! pid) = Some d" "pid < length (sv_procs s')"
    using s' pid by (auto simp: upd_proc_def)
  then show ?thesis
    using assms(2) getcwd_buf_result [OF assms(2,3)] by (auto simp: syscall_def)
qed

text \<open>A read answers within what was asked for.\<close>

lemma sysRead_bounds:
  assumes "px_io_sane K" "syscall K pid (SysRead f b n) s w = Inr ((RetData r bs, s'), w')" "n < 2 ^ 31"
  shows "-1 \<le> r \<and> r \<le> int n \<and> length bs \<le> n \<and> s' = s"
proof -
  from assms(2) obtain fd r' where s': "s' = s" and r: "r = to_s32 r'"
    and rd: "fdRead K s fd b n w = Inr ((r', bs), w')"
    by (auto simp: syscall_def fault_simps split: if_splits)
  have "-1 \<le> r' \<and> r' \<le> int n \<and> length bs \<le> n"
  proof (cases "fdGet fd (sv_fdEntries s)")
    case None
    with rd show ?thesis by (simp add: fdRead_def)
  next
    case (Some e)
    show ?thesis
    proof (cases "fe_d e")
      case (FdTypeSocket i)
      with Some rd show ?thesis
        by (auto simp: fdRead_def and_then_eq_Inr dest: io_channel.rd_bound [OF io_channel_sock [OF assms(1)]])
    next
      case (FdTypeDevice d)
      with Some rd show ?thesis
        by (auto simp: fdRead_def dest: io_channel.rd_bound [OF io_channel_device [OF assms(1)]])
    next
      case (FdTypeFd x)
      with Some rd px_read_sane [OF assms(1), of x n w r' bs w'] show ?thesis by (simp add: fdRead_def)
    qed (use Some rd in \<open>simp add: fdRead_def\<close>)
  qed
  moreover from this have "to_s32 r' = r'" using assms(3) by (intro to_s32_id) auto
  ultimately show ?thesis using r s' by simp
qed

end
