(* ===== verification/TcpServer.thy ===== *)
theory TcpServer
  imports SysResults
begin

text \<open>
  The TCP side of the server and its life cycle (\<^verbatim>\<open>src/server/server.cpp\<close>: tcpListen,
  tcpClose, tcpPoll, tcpRead, databaseLoad, run, stop). An \<^verbatim>\<open>fd_set\<close> is the list of the
  descriptors in it; a descriptor outside \<open>0 ..< FD_SETSIZE\<close> indexes outside its bits. The
  loop over the connections keeps its iterator as the split of the list it stands at, so
  that erasing an element and advancing is the list operation of the code. Where a fork
  is part of an operation its outcome says which side the model follows: \<open>Entered\<close> is the
  child, which executes the program and never returns to the code.
\<close>

section \<open>Descriptor sets\<close>

definition FD_SETSIZE :: int where
  "FD_SETSIZE = 1024"

definition fd_in_range :: "int \<Rightarrow> bool" where
  "fd_in_range fd \<longleftrightarrow> 0 \<le> fd \<and> fd < FD_SETSIZE"

definition FD_SET :: "int \<Rightarrow> int list \<Rightarrow> fault + int list" where
  "FD_SET fd fs = (if fd_in_range fd then Inr (if fd \<in> set fs then fs else fs @ [fd]) else Inl OutOfBounds)"

definition FD_CLR :: "int \<Rightarrow> int list \<Rightarrow> fault + int list" where
  "FD_CLR fd fs = (if fd_in_range fd then Inr (removeAll fd fs) else Inl OutOfBounds)"

definition FD_ISSET :: "int \<Rightarrow> int list \<Rightarrow> fault + bool" where
  "FD_ISSET fd fs = (if fd_in_range fd then Inr (fd \<in> set fs) else Inl OutOfBounds)"

section \<open>Listening\<close>

definition tcpListen :: "'w posix \<Rightarrow> int \<Rightarrow> server \<Rightarrow> 'w \<Rightarrow> (bool \<times> server) \<times> 'w" where
  "tcpListen K port s w =
     (case px_socket K w of (fd, w1) \<Rightarrow>
        let s1 = s\<lparr>sv_tcpSockFd := fd\<rparr>
        in if fd < 0 then ((False, s1), w1)
           else case px_bind K fd port w1 of (b, w2) \<Rightarrow>
             if b < 0 then ((False, s1), w2)
             else case px_listen K fd w2 of (l, w3) \<Rightarrow> ((l = 0, s1), w3))"

definition tcpClose :: "'w posix \<Rightarrow> server \<Rightarrow> 'w \<Rightarrow> server \<times> 'w" where
  "tcpClose K s w =
     (if sv_tcpSockFd s \<noteq> -1
      then case px_close K (sv_tcpSockFd s) w of (r, w') \<Rightarrow> (s\<lparr>sv_tcpSockFd := -1\<rparr>, w')
      else (s, w))"

definition stop :: "server \<Rightarrow> server" where
  "stop s = s\<lparr>sv_stopFlag := True\<rparr>"

section \<open>A message from a client\<close>

definition is_line_end :: "char \<Rightarrow> bool" where
  "is_line_end c \<longleftrightarrow> c = NUL \<or> c = CHR 0x0A \<or> c = CHR 0x0D"

text \<open>The do-while loop on \<^verbatim>\<open>buffer\<close> and \<^verbatim>\<open>nbytes\<close>, entered with \<open>nbytes > 0\<close>.\<close>

fun strip_loop :: "nat \<Rightarrow> string \<Rightarrow> string" where
  "strip_loop nbytes buffer =
     (let n = nbytes - 1; buf = buffer[n := NUL]
      in if n > 0 \<and> is_line_end (buf ! (n - 1)) then strip_loop n buf else buf)"

declare strip_loop.simps [simp del]

definition tcp_text :: "string \<Rightarrow> string" where
  \<comment> \<open>the C string left in the buffer after a read of \<open>length bs\<close> bytes\<close>
  "tcp_text bs = c_str (strip_loop (length bs) bs)"

text \<open>\<^verbatim>\<open>sprintf(name, "tty%u", i)\<close>\<close>

definition tty_name :: "nat \<Rightarrow> string" where
  "tty_name i = ''tty'' @ decimal i"

fun tty_search :: "nat \<Rightarrow> nat \<Rightarrow> devices \<Rightarrow> string" where
  \<comment> \<open>the name left by \<^verbatim>\<open>for(i=0;i<1024;++i)\<close>, from \<open>i\<close> with \<open>Suc k\<close> turns left\<close>
  "tty_search 0 i ds = tty_name i"
| "tty_search (Suc k) i ds =
     (if \<not> dev_exists (tty_name i) ds then tty_name i else tty_search k (Suc i) ds)"

definition shell_path :: string where
  "shell_path = ''/bin/shell''"

datatype tcp_outcome =
    Handled bool \<comment> \<open>returned; False: end of file or error\<close>
  | Entered process \<comment> \<open>this is the forked child, executing the program\<close>

text \<open>The branch \<^verbatim>\<open>type tty\<close> of \<^verbatim>\<open>tcpRead\<close>.\<close>

definition start_tty ::
    "'w posix \<Rightarrow> connection \<Rightarrow> server \<Rightarrow> 'w \<Rightarrow> fault + ((tcp_outcome \<times> connection \<times> server) \<times> 'w)" where
  "start_tty K con s w =
     (let name = tty_search 1023 0 (sv_devices s)
      in case dev_add K name (Some (DeviceSocket (Some (con_sock con)))) (sv_devices s) w of ((ok, ds), w1) \<Rightarrow>
        let s1 = s\<lparr>sv_devices := ds\<rparr>
        in if \<not> ok then Inr ((Handled True, con, s1), w1)
           else and_then (loadFileFS K (server_loc K s1) (Some shell_path) Process_new w1) (\<lambda>((ok2, shell), w2).
             if \<not> ok2 then Inr ((Handled True, con, s1), w2)
             else case processAdd shell s1 of (shellPID, s2) \<Rightarrow>
               if shellPID = -1 then Inr ((Handled True, con, s2), w2)
               else and_then (processRun K shellPID True [dev_prefix @ name] s2 w2) (\<lambda>(out, w3).
                 case out of
                   RunFailed \<Rightarrow> Inr ((Handled True, con, s2), w3)
                 | RunParent \<Rightarrow> Inr ((Handled True, con\<lparr>con_type := ConTTY\<rparr>, s2), w3)
                 | RunEntered q \<Rightarrow> Inr ((Entered q, con, upd_proc (nat shellPID) (\<lambda>_. q) s2), w3))))"

definition tcp_command ::
    "'w posix \<Rightarrow> connection \<Rightarrow> string \<Rightarrow> server \<Rightarrow> 'w \<Rightarrow> fault + ((tcp_outcome \<times> connection \<times> server) \<times> 'w)" where
  \<comment> \<open>from the parsing of the message on\<close>
  "tcp_command K con msg s w =
     (case strtok_r msg '' '' of
        (None, save) \<Rightarrow> Inr ((Handled True, con, s), w)
      | (Some part, save) \<Rightarrow>
          if part = ''type'' then
            (if con_type con \<noteq> ConNone then Inr ((Handled True, con, s), w)
             else case strtok_r save '' '' of
               (None, _) \<Rightarrow> Inr ((Handled True, con, s), w)
             | (Some ty, _) \<Rightarrow>
                 if ty = ''tty'' then start_tty K con s w else Inr ((Handled True, con, s), w))
          else if part = ''stop'' then Inr ((Handled True, con, stop s), w)
          else Inr ((Handled True, con, s), w))"

definition tcpRead ::
    "'w posix \<Rightarrow> connection \<Rightarrow> server \<Rightarrow> 'w \<Rightarrow> fault + ((tcp_outcome \<times> connection \<times> server) \<times> 'w)" where
  "tcpRead K con s w =
     and_then (sock_at (sv_sockets s) (con_sock con)) (\<lambda>sk.
       and_then (sock_fd sk) (\<lambda>fd.
         case px_read K fd 1024 w of ((nbytes, bs), w1) \<Rightarrow>
           if nbytes \<le> 0 then Inr ((Handled False, con, s), w1)
           else if int (length bs) < nbytes then Inl UninitRead
           else tcp_command K con (tcp_text (take (nat nbytes) bs)) s w1))"

section \<open>Polling\<close>

fun tcp_conns ::
    "'w posix \<Rightarrow> int list \<Rightarrow> connection list \<Rightarrow> connection list \<Rightarrow> server \<Rightarrow> 'w \<Rightarrow>
     fault + ((tcp_outcome \<times> server) \<times> 'w)" where
  \<comment> \<open>the iterator stands between the connections passed and those to come\<close>
  "tcp_conns K ready passed [] s w = Inr ((Handled True, s\<lparr>sv_connections := passed\<rparr>), w)"
| "tcp_conns K ready passed (con # rest) s w =
     and_then (sock_at (sv_sockets s) (con_sock con)) (\<lambda>sk.
       if sk_type sk \<noteq> TypeTcp then tcp_conns K ready (passed @ [con]) rest s w
       else and_then (sock_fd sk) (\<lambda>clientFd.
         and_then (FD_ISSET clientFd ready) (\<lambda>active.
           if \<not> active then tcp_conns K ready (passed @ [con]) rest s w
           else and_then (tcpRead K con s w) (\<lambda>((out, con', s1), w1).
             case out of
               Entered q \<Rightarrow> Inr ((Entered q, s1\<lparr>sv_connections := passed @ con' # rest\<rparr>), w1)
             | Handled ok \<Rightarrow>
                 if ok then tcp_conns K ready (passed @ [con']) rest s1 w1
                 else case px_close K clientFd w1 of (r, w2) \<Rightarrow>
                   and_then (FD_CLR clientFd (sv_fdSetActive s1)) (\<lambda>active'.
                     case rest of
                       [] \<Rightarrow> Inl BadIterator
                     | c2 # rest2 \<Rightarrow>
                         tcp_conns K ready (passed @ [c2]) rest2 (s1\<lparr>sv_fdSetActive := active'\<rparr>) w2)))))"

definition tcp_accept :: "'w posix \<Rightarrow> server \<Rightarrow> 'w \<Rightarrow> fault + (server \<times> 'w)" where
  "tcp_accept K s w =
     (case px_accept K (sv_tcpSockFd s) w of (newFd, w1) \<Rightarrow>
        if newFd < 0 then Inr (s, w1)
        else let sk = snd (tcp_listen newFd SocketTcp_new);
                 i = length (sv_sockets s)
             in and_then (FD_SET newFd (sv_fdSetActive s)) (\<lambda>active.
               Inr (s\<lparr>sv_sockets := sv_sockets s @ [sk],
                      sv_connections := sv_connections s @ [Connection_new i],
                      sv_fdSetActive := active\<rparr>, w1)))"

definition tcpPoll ::
    "'w posix \<Rightarrow> server \<Rightarrow> 'w \<Rightarrow> fault + ((tcp_outcome \<times> server) \<times> 'w)" where
  "tcpPoll K s w =
     (if sv_tcpSockFd s < 0 then Inr ((Handled True, s), w)
      else case px_select K (sv_fdSetActive s) w of
        (None, w1) \<Rightarrow> Inr ((Handled True, s), w1)
      | (Some ready, w1) \<Rightarrow>
          and_then (FD_ISSET (sv_tcpSockFd s) ready) (\<lambda>pending.
            and_then (if pending then tcp_accept K s w1 else Inr (s, w1)) (\<lambda>(s1, w2).
              tcp_conns K ready [] (sv_connections s1) s1 w2)))"

section \<open>Life cycle\<close>

definition path_database :: string where
  "path_database = ''sys/database.db''"

definition sql_find :: string where
  "sql_find = ''SELECT name FROM sqlite_master WHERE type='table' AND name='DEVICES';''"

definition sql_create :: string where
  "sql_create = ''CREATE TABLE DEVICES(ID INT PRIMARY KEY NOT NULL, NAME TEXT NOT NULL);''"

definition callbackInc :: "int \<Rightarrow> int \<times> int" where
  \<comment> \<open>what it returns and what \<^verbatim>\<open>*user\<close> is then\<close>
  "callbackInc user = (0, user + 1)"

fun sql_rows :: "(int \<Rightarrow> int \<times> int) \<Rightarrow> nat \<Rightarrow> int \<Rightarrow> int" where
  \<comment> \<open>sqlite hands every row to the callback, until it returns something else than 0\<close>
  "sql_rows f 0 u = u"
| "sql_rows f (Suc n) u = (case f u of (r, u') \<Rightarrow> if r \<noteq> 0 then u' else sql_rows f n u')"

lemma sql_rows_callbackInc [simp]: "sql_rows callbackInc n u = u + int n"
  by (induction n arbitrary: u) (simp_all add: callbackInc_def)

definition databaseLoad :: "'w posix \<Rightarrow> server \<Rightarrow> 'w \<Rightarrow> fault + ((bool \<times> server) \<times> 'w)" where
  "databaseLoad K s w =
     and_then (server_loc K s path_database w) (\<lambda>(localPath, w1).
       case px_sqlite_open K localPath w1 of (ret, w2) \<Rightarrow>
         if ret \<noteq> 0 then Inr ((False, s\<lparr>sv_database := False\<rparr>), w2)
         else case px_sqlite_exec K sql_find w2 of ((rows, _), w3) \<Rightarrow>
           if sql_rows callbackInc rows 0 \<noteq> 0 then Inr ((True, s\<lparr>sv_database := True\<rparr>), w3)
           else case px_sqlite_exec K sql_create w3 of ((_, ret2), w4) \<Rightarrow>
             if ret2 \<noteq> 0 then Inr ((False, s\<lparr>sv_database := False\<rparr>), px_sqlite_close K w4)
             else Inr ((True, s\<lparr>sv_database := True\<rparr>), w4))"

definition add_devices :: "'w posix \<Rightarrow> server \<Rightarrow> 'w \<Rightarrow> server \<times> 'w" where
  "add_devices K s w =
     (case dev_add K ''full'' (Some DeviceFull) (sv_devices s) w of ((_, ds1), w1) \<Rightarrow>
      case dev_add K ''null'' (Some DeviceNull) ds1 w1 of ((_, ds2), w2) \<Rightarrow>
      case dev_add K ''zero'' (Some DeviceZero) ds2 w2 of ((_, ds3), w3) \<Rightarrow>
        (s\<lparr>sv_devices := ds3\<rparr>, w3))"

text \<open>\<^verbatim>\<open>run\<close> up to its main loop.\<close>

definition boot ::
    "'w posix \<Rightarrow> fsdirect \<Rightarrow> string option \<Rightarrow> server \<Rightarrow> 'w \<Rightarrow> fault + ((tcp_outcome \<times> server) \<times> 'w)" where
  "boot K fs initPath s0 w0 =
     and_then (databaseLoad K (s0\<lparr>sv_filesystem := Some fs\<rparr>) w0) (\<lambda>((_, s1), w1).
       case add_devices K s1 w1 of (s2, w2) \<Rightarrow>
         and_then (loadFileFS K (fileLocalPath K fs) initPath Process_new w2) (\<lambda>((ok, initProc), w3).
           if \<not> ok then Inr ((Handled False, s2), w3)
           else case processAdd initProc s2 of (initPID, s3) \<Rightarrow>
             if initPID = -1 then Inr ((Handled False, s3), w3)
             else and_then (processRun K initPID True [] s3 w3) (\<lambda>(out, w4).
               case out of
                 RunFailed \<Rightarrow> Inr ((Handled False, s3), w4)
               | RunEntered q \<Rightarrow> Inr ((Entered q, upd_proc (nat initPID) (\<lambda>_. q) s3), w4)
               | RunParent \<Rightarrow>
                   (case (if sv_tcpPort s3 \<ge> 0 then tcpListen K (sv_tcpPort s3) s3 w4 else ((True, s3), w4)) of
                      ((ok5, s5), w5) \<Rightarrow>
                        if \<not> ok5 then Inr ((Handled False, s5), w5)
                        else and_then (FD_SET (sv_tcpSockFd s5) []) (\<lambda>active.
                          Inr ((Handled True, s5\<lparr>sv_fdSetActive := active\<rparr>), w5))))))"

text \<open>The main loop need not end: not returning is the value \<open>None\<close>.\<close>

partial_function (option) main_loop ::
    "'w posix \<Rightarrow> server \<Rightarrow> 'w \<Rightarrow> (fault + ((tcp_outcome \<times> server) \<times> 'w)) option" where
  "main_loop K s w =
     (if sv_stopFlag s then Some (Inr ((Handled True, s), w))
      else case tcpPoll K s w of
        Inl e \<Rightarrow> Some (Inl e)
      | Inr r \<Rightarrow>
          (case fst (fst r) of
             Entered q \<Rightarrow> Some (Inr r)
           | Handled _ \<Rightarrow> main_loop K (snd (fst r)) (snd r)))"

definition shut_down :: "'w posix \<Rightarrow> server \<Rightarrow> 'w \<Rightarrow> server \<times> 'w" where
  \<comment> \<open>for a null database \<^verbatim>\<open>sqlite3_close\<close> does nothing\<close>
  "shut_down K s w =
     (case tcpClose K s w of (s', w') \<Rightarrow>
        (s'\<lparr>sv_database := False\<rparr>, if sv_database s' then px_sqlite_close K w' else w'))"

definition run ::
    "'w posix \<Rightarrow> fsdirect \<Rightarrow> string option \<Rightarrow> server \<Rightarrow> 'w \<Rightarrow>
     (fault + ((tcp_outcome \<times> server) \<times> 'w)) option" where
  "run K fs initPath s0 w0 =
     (case boot K fs initPath s0 w0 of
        Inl e \<Rightarrow> Some (Inl e)
      | Inr ((Handled True, s1), w1) \<Rightarrow>
          (case main_loop K s1 w1 of
             Some (Inr ((Handled _, s2), w2)) \<Rightarrow>
               (case shut_down K s2 w2 of (s3, w3) \<Rightarrow> Some (Inr ((Handled True, s3), w3)))
           | r \<Rightarrow> r)
      | r \<Rightarrow> Some r)"

end
