(* ===== verification/TcpInv.thy ===== *)
theory TcpInv
  imports TcpServer
begin

text \<open>
  The TCP side keeps the invariant of the server; what text a message leaves to be parsed;
  which name a new terminal gets; what starting and stopping the server amounts to; and
  the exact effect of a disconnect on the loop over the connections.
\<close>

section \<open>The text of a message\<close>

lemma c_str_cut: "c_str (xs @ NUL # ys) = c_str xs"
  by (induction xs) (auto simp: c_str_def)

definition strip_end :: "string \<Rightarrow> string" where
  \<comment> \<open>the message without the line ends and NULs it ends with\<close>
  "strip_end s = rev (dropWhile is_line_end (rev s))"

lemma strip_loop_text:
  assumes "0 < n" "n \<le> length buf"
  shows "c_str (strip_loop n buf) = c_str (strip_end (take (n - 1) buf))"
  using assms
proof (induction n arbitrary: buf rule: less_induct)
  case (less n)
  define b where "b = buf[n - 1 := NUL]"
  have len: "length b = length buf" by (simp add: b_def)
  show ?case
  proof (cases "n - 1 > 0 \<and> is_line_end (b ! (n - 1 - 1))")
    case True
    then obtain m where m: "n = Suc (Suc m)" by (metis Suc_diff_1 less.prems(1))
    from True m have e: "is_line_end (buf ! m)" by (simp add: b_def)
    have "take (Suc m) buf = take m buf @ [buf ! m]"
      using less.prems m by (simp add: take_Suc_conv_app_nth)
    with e have "strip_end (take (Suc m) buf) = strip_end (take m buf)" by (simp add: strip_end_def)
    moreover have "take m b = take m buf" by (simp add: b_def m)
    moreover have "strip_loop n buf = strip_loop (Suc m) b"
      using True m by (subst strip_loop.simps) (simp add: b_def Let_def)
    ultimately show ?thesis using less.IH [of "Suc m" b] less.prems m len by simp
  next
    case False
    have "strip_loop n buf = b"
      using False by (subst strip_loop.simps) (simp only: Let_def b_def [symmetric] if_False)
    moreover have "b = take (n - 1) buf @ NUL # drop n buf"
      using less.prems by (simp add: b_def upd_conv_take_nth_drop)
    moreover have "strip_end (take (n - 1) buf) = take (n - 1) buf"
    proof (cases "n - 1")
      case 0
      then show ?thesis by (simp add: strip_end_def)
    next
      case (Suc m)
      then have "n = Suc (Suc m)" by simp
      with False have "\<not> is_line_end (buf ! m)" by (simp add: b_def)
      with Suc less.prems show ?thesis by (simp add: strip_end_def take_Suc_conv_app_nth)
    qed
    ultimately show ?thesis by (simp add: c_str_cut)
  qed
qed

text \<open>The last byte is dropped whatever it is, then the line ends before it.\<close>

lemma tcp_text_snoc: "tcp_text (m @ [x]) = c_str (strip_end m)"
  by (simp add: tcp_text_def strip_loop_text)

lemma tcp_text_line:
  "NUL \<notin> set m \<Longrightarrow> m \<noteq> [] \<Longrightarrow> \<not> is_line_end (last m) \<Longrightarrow> tcp_text (m @ [x]) = m"
  unfolding tcp_text_snoc by (cases m rule: rev_cases) (simp_all add: strip_end_def)

lemma tcp_text_crlf:
  assumes "NUL \<notin> set m" "m \<noteq> []" "\<not> is_line_end (last m)"
  shows "tcp_text (m @ [CHR 0x0D, CHR 0x0A]) = m"
proof -
  have "m @ [CHR 0x0D, CHR 0x0A] = (m @ [CHR 0x0D]) @ [CHR 0x0A]" by simp
  moreover have "tcp_text ((m @ [CHR 0x0D]) @ [CHR 0x0A]) = m"
    using assms by (cases m rule: rev_cases)
      (simp_all only: tcp_text_snoc, simp_all add: strip_end_def is_line_end_def)
  ultimately show ?thesis by simp
qed

section \<open>Terminal names\<close>

lemma tty_name_length: "i < 1024 \<Longrightarrow> length (tty_name i) \<le> 7"
  using length_decimal [of i 4] by (simp add: tty_name_def)

lemma tty_search_result:
  "(\<exists>j. i \<le> j \<and> j \<le> i + k \<and> tty_search k i ds = tty_name j \<and> \<not> dev_exists (tty_name j) ds \<and>
      (\<forall>l. i \<le> l \<longrightarrow> l < j \<longrightarrow> dev_exists (tty_name l) ds)) \<or>
   (tty_search k i ds = tty_name (i + k) \<and> (\<forall>l. i \<le> l \<longrightarrow> l \<le> i + k \<longrightarrow> dev_exists (tty_name l) ds))"
proof (induction k arbitrary: i)
  case 0
  show ?case by (cases "dev_exists (tty_name i) ds") (auto simp: le_less)
next
  case (Suc k)
  show ?case
  proof (cases "dev_exists (tty_name i) ds")
    case False
    then show ?thesis by (intro disjI1 exI [of _ i]) simp
  next
    case True
    from Suc.IH [of "Suc i"] show ?thesis
    proof (elim disjE exE conjE)
      fix j assume j: "Suc i \<le> j" "j \<le> Suc i + k" "tty_search k (Suc i) ds = tty_name j"
        "\<not> dev_exists (tty_name j) ds" "\<forall>l. Suc i \<le> l \<longrightarrow> l < j \<longrightarrow> dev_exists (tty_name l) ds"
      have "dev_exists (tty_name l) ds" if "i \<le> l" "l < j" for l
        using that True j(5) by (cases "l = i") auto
      with True j(1-4) show ?thesis by (intro disjI1 exI [of _ j]) simp
    next
      assume a: "tty_search k (Suc i) ds = tty_name (Suc i + k)"
        "\<forall>l. Suc i \<le> l \<longrightarrow> l \<le> Suc i + k \<longrightarrow> dev_exists (tty_name l) ds"
      have "dev_exists (tty_name l) ds" if "i \<le> l" "l \<le> i + Suc k" for l
        using that True a(2) by (cases "l = i") auto
      with True a(1) show ?thesis by (intro disjI2) simp
    qed
  qed
qed

section \<open>The invariant\<close>

text \<open>It speaks of the entries, processes, connections, devices and sockets only.\<close>

lemma server_inv_cong:
  assumes "sv_fdEntries s' = sv_fdEntries s" "sv_procs s' = sv_procs s"
    "sv_connections s' = sv_connections s" "sv_devices s' = sv_devices s" "sv_sockets s' = sv_sockets s"
  shows "server_inv s' \<longleftrightarrow> server_inv s"
proof -
  have "fd_slot s' = fd_slot s" by (rule fd_slot_frame [OF assms(2)])
  with assms show ?thesis by (simp add: server_inv_def sockets_ok_def)
qed

lemma server_inv_fields [simp]:
  "server_inv (s\<lparr>sv_stopFlag := b\<rparr>) \<longleftrightarrow> server_inv s"
  "server_inv (s\<lparr>sv_fdSetActive := fs\<rparr>) \<longleftrightarrow> server_inv s"
  "server_inv (s\<lparr>sv_tcpSockFd := i\<rparr>) \<longleftrightarrow> server_inv s"
  "server_inv (s\<lparr>sv_database := b\<rparr>) \<longleftrightarrow> server_inv s"
  "server_inv (s\<lparr>sv_filesystem := f\<rparr>) \<longleftrightarrow> server_inv s"
  by (rule server_inv_cong; simp)+

definition cons_ok :: "connection list \<Rightarrow> server \<Rightarrow> bool" where
  "cons_ok cs s \<longleftrightarrow> (\<forall>c \<in> set cs. con_sock c < length (sv_sockets s))"

lemma server_inv_cons_ok: "server_inv s \<Longrightarrow> cons_ok (sv_connections s) s"
  by (simp add: server_inv_def sockets_ok_def cons_ok_def)

lemma server_inv_connections:
  assumes "server_inv s" "cons_ok cs s"
  shows "server_inv (s\<lparr>sv_connections := cs\<rparr>)"
proof -
  have "fd_slot (s\<lparr>sv_connections := cs\<rparr>) = fd_slot s" by (rule fd_slot_frame) simp
  with assms show ?thesis by (simp add: server_inv_def sockets_ok_def cons_ok_def)
qed

lemma dev_ok_mono: "dev_ok n d \<Longrightarrow> n \<le> m \<Longrightarrow> dev_ok m d"
  by (auto simp: dev_ok_def split: device.splits option.splits)

lemma server_inv_new_socket:
  assumes "server_inv s" "sock_wf sk"
  shows "server_inv (s\<lparr>sv_sockets := sv_sockets s @ [sk]\<rparr>)"
proof -
  have "fd_slot (s\<lparr>sv_sockets := sv_sockets s @ [sk]\<rparr>) = fd_slot s" by (rule fd_slot_frame) simp
  moreover have "data_ok (Suc (length (sv_sockets s))) d" if "data_ok (length (sv_sockets s)) d" for d
    by (rule data_ok_mono [OF that]) simp
  moreover have "dev_ok (Suc (length (sv_sockets s))) d" if "dev_ok (length (sv_sockets s)) d" for d
    by (rule dev_ok_mono [OF that]) simp
  ultimately show ?thesis using assms by (auto simp: server_inv_def sockets_ok_def less_SucI)
qed

lemma dev_add_devices:
  "dev_add K n dev es w = ((b, es'), w') \<Longrightarrow> e \<in> set es' \<Longrightarrow> e \<in> set es \<or> dev = Some (de_device e)"
  by (auto simp: dev_add_def split: if_splits option.splits prod.splits)

lemma server_inv_dev_add:
  assumes "server_inv s" "dev_add K n (Some d) (sv_devices s) w = ((b, ds), w')"
    "dev_ok (length (sv_sockets s)) d"
  shows "server_inv (s\<lparr>sv_devices := ds\<rparr>)"
proof (rule server_inv_devices [OF assms(1)])
  show "dev_inv ds" by (rule dev_inv_add [OF server_invD(4) [OF assms(1)] assms(2)])
  show "\<forall>e \<in> set ds. dev_ok (length (sv_sockets s)) (de_device e)"
    using dev_add_devices [OF assms(2)] assms(1,3) by (auto simp: server_inv_def sockets_ok_def)
qed

lemma processAdd_result:
  "processAdd p s = (r, s') \<Longrightarrow> r \<noteq> -1 \<Longrightarrow>
   pr_state p = PrLoaded \<and> r = c_int (length (sv_procs s)) \<and> s' = s\<lparr>sv_procs := sv_procs s @ [p]\<rparr>"
  by (auto simp: processAdd_def split: if_splits)

lemma loaded_shell:
  assumes "loadFileFS K loc p Process_new w = Inr ((True, q), w')"
  shows "proc_wf q \<and> pr_fds q = [] \<and> pr_state q = PrLoaded"
proof -
  obtain pt where "p = Some pt" using assms by (cases p) (simp_all add: loadFileFS_def split: if_splits)
  with loadFileFS_True [of K loc pt Process_new w q w'] assms proc_wf_loadFileFS [OF assms proc_wf_new]
  show ?thesis by (auto simp: Process_new_def)
qed

text \<open>The child that a \<^verbatim>\<open>processRun\<close> leaves executing the program has a well-formed server.\<close>

lemma processRun_entered:
  assumes "server_inv s" "processRun K pid f args s w = Inr (RunEntered q, w')"
  shows "server_inv (upd_proc (nat pid) (\<lambda>_. q) s) \<and> nat pid < length (sv_procs s) \<and>
    pr_posixPID q = px_getpid K w' \<and> pr_state q = PrRunning"
proof -
  from assms(2) have pid: "nat pid < length (sv_procs s)" and v: "vrun K f args (sv_procs s ! nat pid) w = Inr (RunEntered q, w')"
    by (auto simp: processRun_def split: if_splits)
  note r = vrun_result [OF v]
  have "proc_wf q" using r server_invD(6) [OF assms(1) pid] by (auto simp: proc_wf_def)
  moreover have "pr_fds q = pr_fds (sv_procs s ! nat pid)" using r by auto
  ultimately show ?thesis using server_inv_proc_same_fds [OF assms(1) pid, of q] pid r by auto
qed

lemma start_tty_inv:
  assumes "server_inv s" "con_sock con < length (sv_sockets s)"
    "start_tty K con s w = Inr ((out, con', s'), w')"
  shows "server_inv s' \<and> sv_sockets s' = sv_sockets s \<and> con_sock con' = con_sock con \<and>
    sv_fdSetActive s' = sv_fdSetActive s \<and> sv_stopFlag s' = sv_stopFlag s"
proof -
  let ?nm = "tty_search 1023 0 (sv_devices s)" and ?d = "DeviceSocket (Some (con_sock con))"
  obtain ok ds w1 where a: "dev_add K ?nm (Some ?d) (sv_devices s) w = ((ok, ds), w1)" by (metis surj_pair)
  let ?s = "s\<lparr>sv_devices := ds\<rparr>"
  have s1: "server_inv ?s"
    by (rule server_inv_dev_add [OF assms(1) a]) (use assms(2) in \<open>simp add: dev_ok_def\<close>)
  obtain ok2 shell w2 where l: "\<not> ok \<or> loadFileFS K (server_loc K ?s) (Some shell_path) Process_new w1 = Inr ((ok2, shell), w2)"
    using assms(3) a by (cases "loadFileFS K (server_loc K ?s) (Some shell_path) Process_new w1" rule: result_cases)
      (auto simp: start_tty_def Let_def split: if_splits)
  obtain pid s2 where p: "processAdd shell ?s = (pid, s2)" by (metis surj_pair)
  show ?thesis
  proof (cases "ok \<and> ok2")
    case False
    with assms(3) a l p s1 show ?thesis
      by (auto simp: start_tty_def processAdd_def Let_def split: if_splits)
  next
    case True
    with l have ld: "loadFileFS K (server_loc K ?s) (Some shell_path) Process_new w1 = Inr ((True, shell), w2)"
      by simp
    note sh = loaded_shell [OF ld]
    have s2: "server_inv s2" using server_inv_processAdd [OF s1 _ _ p] sh by blast
    have f2: "sv_sockets s2 = sv_sockets s" "sv_fdSetActive s2 = sv_fdSetActive s" "sv_stopFlag s2 = sv_stopFlag s"
      using p by (auto simp: processAdd_def split: if_splits)
    show ?thesis
    proof (cases "pid = -1")
      case True
      with assms(3) a ld p s2 f2 \<open>ok \<and> ok2\<close> show ?thesis by (simp add: start_tty_def Let_def)
    next
      case False
      note True = \<open>ok \<and> ok2\<close> False
      obtain ro w3 where r: "processRun K pid True [dev_prefix @ ?nm] s2 w2 = Inr (ro, w3)"
      using assms(3) a ld p True
      by (cases "processRun K pid True [dev_prefix @ ?nm] s2 w2" rule: state_cases) (simp_all add: start_tty_def Let_def)
    show ?thesis
      using assms(3) a ld p True r s2 f2
      by (cases ro) (auto simp: start_tty_def upd_proc_def Let_def
          dest: processRun_entered [OF s2, unfolded upd_proc_def])
    qed
  qed
qed

lemma tcp_command_inv:
  assumes "server_inv s" "con_sock con < length (sv_sockets s)"
    "tcp_command K con msg s w = Inr ((out, con', s'), w')"
  shows "server_inv s' \<and> sv_sockets s' = sv_sockets s \<and> con_sock con' = con_sock con \<and>
    sv_fdSetActive s' = sv_fdSetActive s"
  using assms(1,3)
  by (auto simp: tcp_command_def stop_def split: prod.splits option.splits if_splits
      dest: start_tty_inv [OF assms(1,2)])

lemma tcpRead_inv:
  assumes "server_inv s" "con_sock con < length (sv_sockets s)"
    "tcpRead K con s w = Inr ((out, con', s'), w')"
  shows "server_inv s' \<and> sv_sockets s' = sv_sockets s \<and> con_sock con' = con_sock con \<and>
    sv_fdSetActive s' = sv_fdSetActive s"
proof -
  from assms(3) consider "s' = s" "con' = con" | m w1 where "tcp_command K con m s w1 = Inr ((out, con', s'), w')"
    by (auto simp: tcpRead_def fault_simps split: if_splits)
  then show ?thesis
    by cases (use assms(1) in simp, rule tcp_command_inv [OF assms(1,2)])
qed

lemma cons_ok_simps [simp]:
  "cons_ok [] s" "cons_ok (c # cs) s \<longleftrightarrow> con_sock c < length (sv_sockets s) \<and> cons_ok cs s"
  "cons_ok (cs @ ds) s \<longleftrightarrow> cons_ok cs s \<and> cons_ok ds s"
  by (auto simp: cons_ok_def)

lemma cons_ok_sockets: "sv_sockets s' = sv_sockets s \<Longrightarrow> cons_ok cs s' \<longleftrightarrow> cons_ok cs s"
  by (simp add: cons_ok_def)

lemma tcp_conns_inv:
  assumes "server_inv s" "cons_ok passed s" "cons_ok cs s"
    "tcp_conns K ready passed cs s w = Inr ((out, s'), w')"
  shows "server_inv s'"
  using assms
proof (induction "length cs" arbitrary: passed cs s w rule: less_induct)
  case less
  show ?case
  proof (cases cs)
    case Nil
    with less.prems show ?thesis by (auto simp: server_inv_connections)
  next
    case (Cons con rest)
    have con: "con_sock con < length (sv_sockets s)" "cons_ok rest s" using less.prems(3) Cons by simp_all
    have IH: "server_inv s'" if "tcp_conns K ready ps cs' t v = Inr ((out, s'), w')" "length cs' \<le> length rest"
      "server_inv t" "cons_ok ps t" "cons_ok cs' t" for ps cs' t v
      using less.hyps [OF _ that(3-5,1)] that(2) Cons by simp
    define sk where "sk = sv_sockets s ! con_sock con"
    have at: "sock_at (sv_sockets s) (con_sock con) = Inr sk" using con(1) by (simp add: sock_at_def sk_def)
    consider (skip) "tcp_conns K ready (passed @ [con]) rest s w = Inr ((out, s'), w')"
      | (read) fd where "sock_fd sk = Inr fd" "FD_ISSET fd ready = Inr True" "sk_type sk = TypeTcp"
      using less.prems(4) at Cons by (auto simp: and_then_eq_Inr split: if_splits)
    then show ?thesis
    proof cases
      case skip
      from IH [OF this] less.prems con show ?thesis by simp
    next
      case read
      note step = less.prems(4) Cons at read
      obtain o1 con' s1 w1 where r: "tcpRead K con s w = Inr ((o1, con', s1), w1)"
        using step by (cases "tcpRead K con s w") auto
      note inv = tcpRead_inv [OF less.prems(1) con(1) r]
      have ok: "cons_ok passed s1" "cons_ok rest s1" "con_sock con' < length (sv_sockets s1)"
        using inv con less.prems(2) by (simp_all add: cons_ok_def)
      show ?thesis
      proof (cases "o1 = Handled False")
        case False
        with step r inv ok IH [of "passed @ [con']" rest s1 w1] show ?thesis
          by (cases o1) (auto intro!: server_inv_connections split: if_splits)
      next
        case True
        from step r True obtain active c2 rest2 w2 where rest: "rest = c2 # rest2"
          and t: "tcp_conns K ready (passed @ [c2]) rest2 (s1\<lparr>sv_fdSetActive := active\<rparr>) w2 = Inr ((out, s'), w')"
          by (cases rest) (auto simp: fault_simps)
        from IH [OF t] inv ok rest show ?thesis by (simp add: cons_ok_def)
      qed
    qed
  qed
qed

lemma tcp_accept_inv:
  assumes "server_inv s" "tcp_accept K s w = Inr (s', w')"
  shows "server_inv s'"
proof (cases "fst (px_accept K (sv_tcpSockFd s) w) < 0")
  case True
  with assms show ?thesis by (auto simp: tcp_accept_def case_prod_unfold)
next
  case False
  let ?sk = "snd (tcp_listen (fst (px_accept K (sv_tcpSockFd s) w)) SocketTcp_new)"
  let ?s = "s\<lparr>sv_sockets := sv_sockets s @ [?sk]\<rparr>"
  let ?c = "sv_connections s @ [Connection_new (length (sv_sockets s))]"
  from False assms(2) obtain fs where s': "s' = ?s\<lparr>sv_connections := ?c, sv_fdSetActive := fs\<rparr>"
    by (auto simp: tcp_accept_def fault_simps Let_def)
  have "server_inv ?s"
    by (rule server_inv_new_socket [OF assms(1) sock_wf_listen [OF sock_wf_new(2)]])
  moreover have "cons_ok ?c ?s"
    using server_inv_cons_ok [OF assms(1)] by (auto simp: cons_ok_def Connection_new_def)
  ultimately show ?thesis unfolding s' server_inv_fields by (rule server_inv_connections)
qed

lemma server_inv_tcpPoll:
  assumes "server_inv s" "tcpPoll K s w = Inr ((out, s'), w')"
  shows "server_inv s'"
proof -
  from assms(2) consider "s' = s"
    | ready s1 w1 w2 where "s1 = s \<or> tcp_accept K s w1 = Inr (s1, w2)"
        "tcp_conns K ready [] (sv_connections s1) s1 w2 = Inr ((out, s'), w')"
    by (auto simp: tcpPoll_def fault_simps split: if_splits option.splits)
  then show ?thesis
  proof cases
    case 1
    with assms(1) show ?thesis by simp
  next
    case 2
    from 2(1) have "server_inv s1"
      by (elim disjE) (use assms(1) in simp, rule tcp_accept_inv [OF assms(1)])
    from tcp_conns_inv [OF this _ server_inv_cons_ok [OF this] 2(2)] show ?thesis by simp
  qed
qed

section \<open>Starting\<close>

lemma databaseLoad_result:
  "databaseLoad K s w = Inr ((b, s'), w') \<Longrightarrow> s' = s\<lparr>sv_database := b\<rparr>"
  by (auto simp: databaseLoad_def fault_simps split: if_splits)

lemma add_devices_inv:
  assumes "server_inv s" "add_devices K s w = (s', w')"
  shows "server_inv s' \<and> (\<exists>ds. s' = s\<lparr>sv_devices := ds\<rparr>)"
proof -
  obtain b1 ds1 w1 where a1: "dev_add K ''full'' (Some DeviceFull) (sv_devices s) w = ((b1, ds1), w1)"
    by (metis surj_pair)
  obtain b2 ds2 w2 where a2: "dev_add K ''null'' (Some DeviceNull) ds1 w1 = ((b2, ds2), w2)"
    by (metis surj_pair)
  obtain b3 ds3 w3 where a3: "dev_add K ''zero'' (Some DeviceZero) ds2 w2 = ((b3, ds3), w3)"
    by (metis surj_pair)
  have "server_inv (s\<lparr>sv_devices := ds1\<rparr>)"
    by (rule server_inv_dev_add [OF assms(1) a1]) (simp add: dev_ok_def)
  from server_inv_dev_add [OF this, of K "''null''" DeviceNull w1 b2 ds2 w2] a2
  have "server_inv (s\<lparr>sv_devices := ds2\<rparr>)" by (simp add: dev_ok_def)
  from server_inv_dev_add [OF this, of K "''zero''" DeviceZero w2 b3 ds3 w3] a3
  have "server_inv (s\<lparr>sv_devices := ds3\<rparr>)" by (simp add: dev_ok_def)
  with assms(2) a1 a2 a3 show ?thesis by (auto simp: add_devices_def)
qed

lemma dev_add_total:
  assumes "malloc_total K" "dev_abs es n = None" "dev_inv es" "dev_add K n (Some d) es w = ((b, es'), w')"
  shows "dev_inv es' \<and> dev_abs es' = (dev_abs es)(n \<mapsto> (d, 0))"
proof -
  have b: "b" using assms(1,2,4)
    by (auto simp: dev_add_def dev_exists_abs malloc_total_def case_prod_unfold split: if_splits)
  then show ?thesis using dev_add_True [OF assms(3), of K n "Some d" w es' w'] assms(4) by auto
qed

text \<open>The devices a boot adds; those whose addition fails are left out, which is only logged.\<close>

definition std_devices :: "string \<rightharpoonup> device \<times> int" where
  "std_devices = [''full'' \<mapsto> (DeviceFull, 0), ''null'' \<mapsto> (DeviceNull, 0), ''zero'' \<mapsto> (DeviceZero, 0)]"

lemma dev_add_le:
  assumes "dev_inv es" "dev_add K n (Some d) es w = ((b, es'), w')" "map_le (dev_abs es) m" "m n = Some (d, 0)"
  shows "dev_inv es' \<and> map_le (dev_abs es') m"
proof (cases b)
  case True
  with dev_add_True [OF assms(1), of K n "Some d" w es' w'] assms(2-4) show ?thesis by (auto simp: map_le_def)
next
  case False
  with dev_add_False [of K n "Some d" es w es' w'] assms show ?thesis by simp
qed

lemma add_devices_le:
  assumes "sv_devices s = []" "add_devices K s w = (s', w')"
  shows "map_le (dev_abs (sv_devices s')) std_devices"
proof -
  obtain b1 ds1 w1 b2 ds2 w2 b3 ds3 w3 where a: "dev_add K ''full'' (Some DeviceFull) [] w = ((b1, ds1), w1)"
    "dev_add K ''null'' (Some DeviceNull) ds1 w1 = ((b2, ds2), w2)" "dev_add K ''zero'' (Some DeviceZero) ds2 w2 = ((b3, ds3), w3)"
    by (metis surj_pair)
  have "map_le (dev_abs []) std_devices" by (simp add: dev_abs_def)
  from dev_add_le [OF dev_inv_Nil a(1) this] have "dev_inv ds1 \<and> map_le (dev_abs ds1) std_devices"
    by (simp add: std_devices_def [THEN fun_cong])
  with dev_add_le [OF _ a(2), of std_devices] have "dev_inv ds2 \<and> map_le (dev_abs ds2) std_devices"
    by (simp add: std_devices_def [THEN fun_cong])
  with dev_add_le [OF _ a(3), of std_devices] have "map_le (dev_abs ds3) std_devices"
    by (simp add: std_devices_def [THEN fun_cong])
  with assms a show ?thesis by (auto simp: add_devices_def)
qed

lemma add_devices_abs:
  assumes "malloc_total K" "sv_devices s = []" "add_devices K s w = (s', w')"
  shows "dev_abs (sv_devices s') = std_devices"
proof -
  obtain b1 ds1 w1 where a1: "dev_add K ''full'' (Some DeviceFull) [] w = ((b1, ds1), w1)"
    by (metis surj_pair)
  obtain b2 ds2 w2 where a2: "dev_add K ''null'' (Some DeviceNull) ds1 w1 = ((b2, ds2), w2)"
    by (metis surj_pair)
  obtain b3 ds3 w3 where a3: "dev_add K ''zero'' (Some DeviceZero) ds2 w2 = ((b3, ds3), w3)"
    by (metis surj_pair)
  have e: "dev_abs [] = Map.empty" by (simp add: dev_abs_def)
  note r1 = dev_add_total [OF assms(1) _ dev_inv_Nil a1, simplified e, simplified]
  note r2 = dev_add_total [OF assms(1) _ _ a2]
  note r3 = dev_add_total [OF assms(1) _ _ a3]
  have d1: "dev_inv ds1" "dev_abs ds1 = [''full'' \<mapsto> (DeviceFull, 0)]" using r1 by simp_all
  then have d2: "dev_inv ds2" "dev_abs ds2 = [''full'' \<mapsto> (DeviceFull, 0), ''null'' \<mapsto> (DeviceNull, 0)]"
    using r2 by simp_all
  then have "dev_abs ds3 = (dev_abs ds2)(''zero'' \<mapsto> (DeviceZero, 0))" using r3 by simp
  moreover from assms(2,3) a1 a2 a3 have "s' = s\<lparr>sv_devices := ds3\<rparr>" by (auto simp: add_devices_def)
  ultimately show ?thesis using d2 by (simp add: std_devices_def)
qed

text \<open>The stages of a boot that does not fail.\<close>

lemma boot_stages:
  assumes "boot K fs ip s0 w = Inr ((out, s'), w')" "out \<noteq> Handled False"
  obtains b s1 w1 s2 w2 p s3 w3 ro w4 where
    "databaseLoad K (s0\<lparr>sv_filesystem := Some fs\<rparr>) w = Inr ((b, s1), w1)"
    "add_devices K s1 w1 = (s2, w2)" "loadFileFS K (fileLocalPath K fs) ip Process_new w2 = Inr ((True, p), w3)"
    "processAdd p s2 = (c_int (length (sv_procs s2)), s3)" "s3 = s2\<lparr>sv_procs := sv_procs s2 @ [p]\<rparr>"
    "processRun K (c_int (length (sv_procs s2))) True [] s3 w3 = Inr (ro, w4)"
    "(\<exists>q. ro = RunEntered q \<and> out = Entered q \<and> w' = w4 \<and>
        s' = upd_proc (nat (c_int (length (sv_procs s2)))) (\<lambda>_. q) s3) \<or>
     (\<exists>s5 active. ro = RunParent \<and> out = Handled True \<and> s' = s5\<lparr>sv_fdSetActive := active\<rparr> \<and>
        FD_SET (sv_tcpSockFd s5) [] = Inr active \<and>
        (s5 = s3 \<or> (0 \<le> sv_tcpPort s3 \<and> (\<exists>fd. s5 = s3\<lparr>sv_tcpSockFd := fd\<rparr>))))"
proof -
  obtain b s1 w1 where d: "databaseLoad K (s0\<lparr>sv_filesystem := Some fs\<rparr>) w = Inr ((b, s1), w1)"
    using assms(1) by (cases "databaseLoad K (s0\<lparr>sv_filesystem := Some fs\<rparr>) w" rule: result_cases)
      (simp_all add: boot_def)
  obtain s2 w2 where a: "add_devices K s1 w1 = (s2, w2)" by fastforce
  obtain p w3 where l: "loadFileFS K (fileLocalPath K fs) ip Process_new w2 = Inr ((True, p), w3)"
    using assms d a by (cases "loadFileFS K (fileLocalPath K fs) ip Process_new w2" rule: result_cases)
      (auto simp: boot_def split: if_splits)
  obtain pid s3 where pa: "processAdd p s2 = (pid, s3)" by fastforce
  have pid: "pid \<noteq> -1" using assms d a l pa by (auto simp: boot_def)
  note pr = processAdd_result [OF pa pid]
  obtain ro w4 where r: "processRun K pid True [] s3 w3 = Inr (ro, w4)"
    using assms(1) d a l pa pid by (cases "processRun K pid True [] s3 w3" rule: state_cases)
      (simp_all add: boot_def)
  show thesis
  proof (rule that [OF d a l])
    show "processAdd p s2 = (c_int (length (sv_procs s2)), s3)" "s3 = s2\<lparr>sv_procs := sv_procs s2 @ [p]\<rparr>"
      "processRun K (c_int (length (sv_procs s2))) True [] s3 w3 = Inr (ro, w4)"
      using pa pr r by simp_all
    show "(\<exists>q. ro = RunEntered q \<and> out = Entered q \<and> w' = w4 \<and>
        s' = upd_proc (nat (c_int (length (sv_procs s2)))) (\<lambda>_. q) s3) \<or>
     (\<exists>s5 active. ro = RunParent \<and> out = Handled True \<and> s' = s5\<lparr>sv_fdSetActive := active\<rparr> \<and>
        FD_SET (sv_tcpSockFd s5) [] = Inr active \<and>
        (s5 = s3 \<or> (0 \<le> sv_tcpPort s3 \<and> (\<exists>fd. s5 = s3\<lparr>sv_tcpSockFd := fd\<rparr>))))"
    proof (cases ro)
      case RunFailed
      with assms d a l pa pid r show ?thesis by (simp add: boot_def)
    next
      case (RunEntered q)
      with assms d a l pa pid r pr show ?thesis by (simp add: boot_def)
    next
      case RunParent
      define t where "t = (if sv_tcpPort s3 \<ge> 0 then tcpListen K (sv_tcpPort s3) s3 w4 else ((True, s3), w4))"
      obtain ok5 s5 w5 where t: "t = ((ok5, s5), w5)" by (metis surj_pair)
      have s5: "s5 = s3 \<or> (0 \<le> sv_tcpPort s3 \<and> (\<exists>fd. s5 = s3\<lparr>sv_tcpSockFd := fd\<rparr>))"
        using t by (auto simp: t_def tcpListen_def Let_def split: if_splits prod.splits)
      have "boot K fs ip s0 w = (if \<not> ok5 then Inr ((Handled False, s5), w5)
          else and_then (FD_SET (sv_tcpSockFd s5) []) (\<lambda>active. Inr ((Handled True, s5\<lparr>sv_fdSetActive := active\<rparr>), w5)))"
        using d a l pa pid r RunParent t by (simp add: boot_def t_def)
      with assms s5 RunParent show ?thesis by (auto simp: and_then_eq_Inr split: if_splits)
    qed
  qed
qed

text \<open>
  A successful boot of a new server. On the side of the daemon init is process 1, loaded
  and not running in this copy, and the port is open; on the side of the child process 1
  is running init.
\<close>

lemma boot_new:
  assumes "boot K fs ip (Server_new port) w = Inr ((out, s'), w')" "out \<noteq> Handled False"
  shows "server_inv s' \<and> sv_filesystem s' = Some fs \<and> length (sv_procs s') = 2 \<and>
    (case out of
       Handled _ \<Rightarrow> pr_state (sv_procs s' ! 1) = PrLoaded \<and> fd_in_range (sv_tcpSockFd s') \<and>
         sv_fdSetActive s' = [sv_tcpSockFd s']
     | Entered q \<Rightarrow> sv_procs s' ! 1 = q \<and> pr_state q = PrRunning \<and> pr_posixPID q = px_getpid K w') \<and>
    map_le (dev_abs (sv_devices s')) std_devices \<and> (malloc_total K \<longrightarrow> dev_abs (sv_devices s') = std_devices)"
  using assms
proof (rule boot_stages)
  fix b s1 w1 s2 w2 p s3 w3 ro w4
  assume d: "databaseLoad K (Server_new port\<lparr>sv_filesystem := Some fs\<rparr>) w = Inr ((b, s1), w1)"
    and a: "add_devices K s1 w1 = (s2, w2)"
    and l: "loadFileFS K (fileLocalPath K fs) ip Process_new w2 = Inr ((True, p), w3)"
    and pa: "processAdd p s2 = (c_int (length (sv_procs s2)), s3)"
    and s3: "s3 = s2\<lparr>sv_procs := sv_procs s2 @ [p]\<rparr>"
    and r: "processRun K (c_int (length (sv_procs s2))) True [] s3 w3 = Inr (ro, w4)"
    and e: "(\<exists>q. ro = RunEntered q \<and> out = Entered q \<and> w' = w4 \<and>
        s' = upd_proc (nat (c_int (length (sv_procs s2)))) (\<lambda>_. q) s3) \<or>
     (\<exists>s5 active. ro = RunParent \<and> out = Handled True \<and> s' = s5\<lparr>sv_fdSetActive := active\<rparr> \<and>
        FD_SET (sv_tcpSockFd s5) [] = Inr active \<and>
        (s5 = s3 \<or> (0 \<le> sv_tcpPort s3 \<and> (\<exists>fd. s5 = s3\<lparr>sv_tcpSockFd := fd\<rparr>))))"
  note s1 = databaseLoad_result [OF d]
  have i1: "server_inv s1" by (simp add: s1 server_inv_new)
  from add_devices_inv [OF i1 a] obtain ds where i2: "server_inv s2" and s2: "s2 = s1\<lparr>sv_devices := ds\<rparr>"
    by blast
  note ld = loaded_shell [OF l]
  have i3: "server_inv s3" using server_inv_processAdd [OF i2 _ _ pa] ld by simp
  have len: "length (sv_procs s2) = 1" by (simp add: s2 s1 Server_new_def)
  have one: "c_int (Suc 0) = 1" using c_int_small [of 1] by simp
  have r1: "processRun K 1 True [] s3 w3 = Inr (ro, w4)" using r by (simp add: len one)
  have p1: "sv_procs s3 ! 1 = p" using len by (simp add: s3 nth_append)
  have dv: "map_le (dev_abs (sv_devices s2)) std_devices" "malloc_total K \<longrightarrow> dev_abs (sv_devices s2) = std_devices"
    using add_devices_abs [OF _ _ a] add_devices_le [OF _ a] by (simp_all add: s1 Server_new_def)
  have f3: "sv_filesystem s3 = Some fs" "length (sv_procs s3) = 2" "sv_devices s3 = sv_devices s2"
    using len by (simp_all add: s3 s2 s1)
  show ?thesis
  proof (cases "\<exists>q. ro = RunEntered q \<and> out = Entered q \<and> w' = w4 \<and>
      s' = upd_proc (nat (c_int (length (sv_procs s2)))) (\<lambda>_. q) s3")
    case True
    then obtain q where q: "ro = RunEntered q" "out = Entered q" "w' = w4" "s' = upd_proc 1 (\<lambda>_. q) s3"
      by (auto simp: len one)
    from processRun_entered [OF i3 r1 [unfolded q(1)]] q dv f3 show ?thesis by (simp add: upd_proc_def)
  next
    case False
    with e obtain s5 active where c: "out = Handled True" "s' = s5\<lparr>sv_fdSetActive := active\<rparr>"
      "FD_SET (sv_tcpSockFd s5) [] = Inr active" and s5: "s5 = s3 \<or> (\<exists>fd. s5 = s3\<lparr>sv_tcpSockFd := fd\<rparr>)"
      by blast
    from s5 i3 have i5: "server_inv s5" by auto
    from s5 have f5: "sv_procs s5 = sv_procs s3" "sv_filesystem s5 = sv_filesystem s3" "sv_devices s5 = sv_devices s3"
      by auto
    show ?thesis using c i5 f5 f3 p1 ld dv by (auto simp: FD_SET_def split: if_splits)
  qed
qed

text \<open>Without a port there is no running server: -1 is put into the set of descriptors.\<close>

lemma boot_needs_port:
  assumes "port < 0"
  shows "boot K fs ip (Server_new port) w \<noteq> Inr ((Handled True, s'), w')"
proof
  assume "boot K fs ip (Server_new port) w = Inr ((Handled True, s'), w')"
  then show False
  proof (rule boot_stages)
    fix b s1 w1 s2 w2 p s3 w3 ro w4
    assume d: "databaseLoad K (Server_new port\<lparr>sv_filesystem := Some fs\<rparr>) w = Inr ((b, s1), w1)"
      and a: "add_devices K s1 w1 = (s2, w2)" and s3: "s3 = s2\<lparr>sv_procs := sv_procs s2 @ [p]\<rparr>"
      and e: "(\<exists>q. ro = RunEntered q \<and> Handled True = Entered q \<and> w' = w4 \<and>
        s' = upd_proc (nat (c_int (length (sv_procs s2)))) (\<lambda>_. q) s3) \<or>
       (\<exists>s5 active. ro = RunParent \<and> Handled True = Handled True \<and> s' = s5\<lparr>sv_fdSetActive := active\<rparr> \<and>
        FD_SET (sv_tcpSockFd s5) [] = Inr active \<and>
        (s5 = s3 \<or> (0 \<le> sv_tcpPort s3 \<and> (\<exists>fd. s5 = s3\<lparr>sv_tcpSockFd := fd\<rparr>))))"
    from databaseLoad_result [OF d] a s3 have "sv_tcpPort s3 = port" "sv_tcpSockFd s3 = -1"
      by (auto simp: add_devices_def Server_new_def split: prod.splits)
    with e assms show False by (auto simp: FD_SET_def fd_in_range_def)
  qed simp
qed

section \<open>The loop over the connections\<close>

definition con_fd :: "server \<Rightarrow> connection \<Rightarrow> int \<Rightarrow> bool" where
  \<comment> \<open>the connection is a TCP socket with that descriptor\<close>
  "con_fd s con fd \<longleftrightarrow> con_sock con < length (sv_sockets s) \<and>
     sk_type (sv_sockets s ! con_sock con) = TypeTcp \<and>
     sk_sockFd (sv_sockets s ! con_sock con) = Some fd \<and> fd_in_range fd"

definition quiet :: "int list \<Rightarrow> server \<Rightarrow> connection \<Rightarrow> bool" where
  "quiet ready s con \<longleftrightarrow> (\<exists>fd. con_fd s con fd \<and> fd \<notin> set ready)"

lemma tcp_conns_quiet:
  assumes "\<forall>c \<in> set cs. quiet ready s c"
  shows "tcp_conns K ready passed (cs @ rest) s w = tcp_conns K ready (passed @ cs) rest s w"
  using assms
proof (induction cs arbitrary: passed)
  case Nil
  show ?case by simp
next
  case (Cons c cs)
  then show ?case
    by (auto simp: quiet_def con_fd_def sock_at_def sock_fd_def FD_ISSET_def)
qed

lemma tcp_conns_active:
  assumes "con_fd s con fd" "fd \<in> set ready"
  shows "tcp_conns K ready passed (con # rest) s w =
    and_then (tcpRead K con s w) (\<lambda>((out, con', s1), w1).
      case out of
        Entered q \<Rightarrow> Inr ((Entered q, s1\<lparr>sv_connections := passed @ con' # rest\<rparr>), w1)
      | Handled ok \<Rightarrow>
          if ok then tcp_conns K ready (passed @ [con']) rest s1 w1
          else case px_close K fd w1 of (r, w2) \<Rightarrow>
            and_then (FD_CLR fd (sv_fdSetActive s1)) (\<lambda>active'.
              case rest of
                [] \<Rightarrow> Inl BadIterator
              | c2 # rest2 \<Rightarrow>
                  tcp_conns K ready (passed @ [c2]) rest2 (s1\<lparr>sv_fdSetActive := active'\<rparr>) w2))"
  using assms by (simp add: con_fd_def sock_at_def sock_fd_def FD_ISSET_def)

lemma tcpRead_eof:
  assumes "con_fd s con fd" "px_read K fd 1024 w = ((n, bs), w1)" "n \<le> 0"
  shows "tcpRead K con s w = Inr ((Handled False, con, s), w1)"
  using assms by (simp add: tcpRead_def con_fd_def sock_at_def sock_fd_def)

lemma tcpRead_message:
  assumes "con_fd s con fd" "px_read K fd 1024 w = ((int (length bs), bs), w1)" "bs \<noteq> []"
  shows "tcpRead K con s w = tcp_command K con (tcp_text bs) s w1"
  using assms by (simp add: tcpRead_def con_fd_def sock_at_def sock_fd_def)

text \<open>A disconnect: the iterator moves past the next connection, or past the end.\<close>

lemma tcp_conns_eof:
  assumes "con_fd s con fd" "fd \<in> set ready" "px_read K fd 1024 w = ((n, bs), w1)" "n \<le> 0"
  shows "tcp_conns K ready passed (con # rest) s w =
    (case rest of
       [] \<Rightarrow> Inl BadIterator
     | c2 # rest2 \<Rightarrow> tcp_conns K ready (passed @ [c2]) rest2
         (s\<lparr>sv_fdSetActive := removeAll fd (sv_fdSetActive s)\<rparr>) (snd (px_close K fd w1)))"
proof -
  have "FD_CLR fd (sv_fdSetActive s) = Inr (removeAll fd (sv_fdSetActive s))"
    using assms(1) by (simp add: FD_CLR_def con_fd_def)
  then show ?thesis
    unfolding tcp_conns_active [OF assms(1,2)] tcpRead_eof [OF assms(1,3,4)]
    by (cases rest) (simp_all add: case_prod_unfold)
qed

lemma tcp_conns_stop:
  assumes "con_fd s con fd" "fd \<in> set ready" "px_read K fd 1024 w = ((int (length bs), bs), w1)" "bs \<noteq> []"
    "fst (strtok_r (tcp_text bs) '' '') = Some ''stop''" "\<forall>c \<in> set rest. quiet ready s c"
  shows "tcp_conns K ready passed (con # rest) s w =
    Inr ((Handled True, (stop s)\<lparr>sv_connections := passed @ con # rest\<rparr>), w1)"
proof -
  obtain save where "strtok_r (tcp_text bs) '' '' = (Some ''stop'', save)"
    using assms(5) by (cases "strtok_r (tcp_text bs) '' ''") simp
  then have r: "tcpRead K con s w = Inr ((Handled True, con, stop s), w1)"
    using tcpRead_message [OF assms(1,3,4)] by (simp add: tcp_command_def)
  have "\<forall>c \<in> set rest. quiet ready (stop s) c"
    using assms(6) by (simp add: quiet_def con_fd_def stop_def)
  from tcp_conns_quiet [OF this, of K "passed @ [con]" "[]" w1] show ?thesis
    unfolding tcp_conns_active [OF assms(1,2)] r by simp
qed

end
