(* ===== verification/Kept.thy ===== *)
theory Kept
  imports TcpInv
begin

text \<open>
  What the steps of a copy of the server keep: a poll leaves the port and the database alone, and
  neither a poll nor a system call ever lowers the count of a device or takes one off the table,
  since no code of the server calls \<^verbatim>\<open>Devices::close\<close> or \<^verbatim>\<open>Devices::remove\<close>.
\<close>

section \<open>The counts of the devices\<close>

definition counts_up :: "devices \<Rightarrow> devices \<Rightarrow> bool" where
  "counts_up es es' \<longleftrightarrow>
     (dev_inv es \<longrightarrow> dev_inv es' \<and> (\<forall>n d c. dev_abs es n = Some (d, c) \<longrightarrow> (\<exists>c' \<ge> c. dev_abs es' n = Some (d, c'))))"

lemma counts_up_refl [simp]: "counts_up es es"
  by (auto simp: counts_up_def)

lemma counts_up_trans:
  assumes "counts_up a b" "counts_up b c"
  shows "counts_up a c"
  using assms unfolding counts_up_def by (meson order_trans)

lemma counts_up_add:
  assumes "dev_add K n dev es w = ((b, es'), w')"
  shows "counts_up es es'"
  unfolding counts_up_def
proof (intro impI conjI allI)
  assume inv: "dev_inv es"
  show "dev_inv es'" by (rule dev_inv_add [OF inv assms])
  fix m d c
  assume m: "dev_abs es m = Some (d, c)"
  show "\<exists>c' \<ge> c. dev_abs es' m = Some (d, c')"
  proof (cases b)
    case True
    with assms have "dev_add K n dev es w = ((True, es'), w')" by simp
    from dev_add_True [OF inv this] m show ?thesis by auto
  next
    case False
    with assms have "dev_add K n dev es w = ((False, es'), w')" by simp
    from dev_add_False [OF this] m show ?thesis by auto
  qed
qed

lemma counts_up_open:
  assumes "dev_open n es = Inr (r, es')"
  shows "counts_up es es'"
  unfolding counts_up_def
proof (intro impI conjI allI)
  assume inv: "dev_inv es"
  show "dev_inv es'" by (rule dev_inv_open [OF inv assms])
  fix m d c
  assume m: "dev_abs es m = Some (d, c)"
  show "\<exists>c' \<ge> c. dev_abs es' m = Some (d, c')"
  proof (cases r)
    case None
    with dev_open_None [of n es es'] assms m show ?thesis by simp
  next
    case (Some x)
    with assms have "dev_open n es = Inr (Some x, es')" by simp
    from dev_open_Some [OF inv this] m show ?thesis by (auto split: if_splits)
  qed
qed

section \<open>A poll\<close>

definition poll_keeps :: "server \<Rightarrow> server \<Rightarrow> bool" where
  "poll_keeps s s' \<longleftrightarrow> sv_tcpSockFd s' = sv_tcpSockFd s \<and> sv_database s' = sv_database s \<and>
     counts_up (sv_devices s) (sv_devices s')"

lemma poll_keeps_simps [simp]:
  "poll_keeps s s" "poll_keeps s (stop s')  \<longleftrightarrow> poll_keeps s s'"
  "poll_keeps s (upd_proc i f s') \<longleftrightarrow> poll_keeps s s'"
  "poll_keeps s (s'\<lparr>sv_connections := cs\<rparr>) \<longleftrightarrow> poll_keeps s s'"
  "poll_keeps s (s'\<lparr>sv_procs := ps\<rparr>) \<longleftrightarrow> poll_keeps s s'"
  "poll_keeps s (s'\<lparr>sv_fdSetActive := a\<rparr>) \<longleftrightarrow> poll_keeps s s'"
  by (simp_all add: poll_keeps_def stop_def upd_proc_def)

lemma poll_keeps_trans: "poll_keeps a b \<Longrightarrow> poll_keeps b c \<Longrightarrow> poll_keeps a c"
  using counts_up_trans by (auto simp: poll_keeps_def)

lemma processAdd_keeps [simp]: "poll_keeps s (snd (processAdd p s))"
  by (simp add: processAdd_def)

lemma start_tty_keeps:
  assumes "start_tty K con s w = Inr ((out, con', s'), w')"
  shows "poll_keeps s s'"
proof -
  let ?nm = "tty_search 1023 0 (sv_devices s)"
  obtain ok ds w1 where a: "dev_add K ?nm (Some (DeviceSocket (Some (con_sock con)))) (sv_devices s) w = ((ok, ds), w1)"
    by (metis surj_pair)
  let ?s = "s\<lparr>sv_devices := ds\<rparr>"
  have k: "poll_keeps s ?s" using counts_up_add [OF a] by (simp add: poll_keeps_def)
  have "poll_keeps ?s s'"
    using assms a
    apply (auto simp: start_tty_def fault_simps Let_def split: if_split_asm run_outcome.split_asm)
    subgoal for b sh w2 out w3 by (cases out) auto
    done
  with k show ?thesis by (rule poll_keeps_trans)
qed

lemma tcpRead_keeps:
  assumes "tcpRead K con s w = Inr ((out, con', s'), w')"
  shows "poll_keeps s s'"
proof -
  from assms consider "s' = s" | m w1 where "tcp_command K con m s w1 = Inr ((out, con', s'), w')"
    by (auto simp: tcpRead_def fault_simps split: if_splits)
  then show ?thesis
    by cases (auto simp: tcp_command_def split: prod.splits option.splits if_splits dest: start_tty_keeps)
qed

lemma tcp_conns_keeps: "tcp_conns K ready passed cs s w = Inr ((out, s'), w') \<Longrightarrow> poll_keeps s s'"
proof (induction "length cs" arbitrary: passed cs s w rule: less_induct)
  case less
  show ?case
  proof (cases cs)
    case Nil
    with less.prems show ?thesis by auto
  next
    case (Cons con rest)
    have IH: "poll_keeps t s'" if "tcp_conns K ready ps cs' t v = Inr ((out, s'), w')" "length cs' \<le> length rest" for ps cs' t v
      using less.hyps [OF _ that(1)] that(2) Cons by simp
    from less.prems Cons consider (skip) "tcp_conns K ready (passed @ [con]) rest s w = Inr ((out, s'), w')"
      | (read) sk fd where "sock_at (sv_sockets s) (con_sock con) = Inr sk" "sk_type sk = TypeTcp"
          "sock_fd sk = Inr fd" "FD_ISSET fd ready = Inr True"
      by (auto simp: and_then_eq_Inr split: if_splits)
    then show ?thesis
    proof cases
      case skip
      then show ?thesis by (rule IH) simp
    next
      case read
      obtain o1 con' s1 w1 where r: "tcpRead K con s w = Inr ((o1, con', s1), w1)"
        using less.prems Cons read by (cases "tcpRead K con s w") auto
      note k = tcpRead_keeps [OF r]
      show ?thesis
      proof (cases "o1 = Handled False")
        case True
        from less.prems Cons read r True obtain c2 rest2 active w2 where rest: "rest = c2 # rest2"
          and t: "tcp_conns K ready (passed @ [c2]) rest2 (s1\<lparr>sv_fdSetActive := active\<rparr>) w2 = Inr ((out, s'), w')"
          by (cases rest) (auto simp: fault_simps)
        have "poll_keeps s (s1\<lparr>sv_fdSetActive := active\<rparr>)" using k by simp
        then show ?thesis by (rule poll_keeps_trans) (rule IH [OF t], simp add: rest)
      next
        case False
        with less.prems Cons read r k IH [of "passed @ [con']" rest s1 w1] poll_keeps_trans [OF k] show ?thesis
          by (cases o1) auto
      qed
    qed
  qed
qed

lemma tcp_accept_keeps: "tcp_accept K s w = Inr (s', w') \<Longrightarrow> poll_keeps s s'"
  by (auto simp: tcp_accept_def Let_def poll_keeps_def fault_simps split: if_splits)

lemma tcpPoll_keeps:
  assumes "tcpPoll K s w = Inr ((out, s'), w')"
  shows "poll_keeps s s'"
proof -
  from assms consider "s' = s"
    | ready s1 w1 w2 where "s1 = s \<or> tcp_accept K s w1 = Inr (s1, w2)"
        "tcp_conns K ready [] (sv_connections s1) s1 w2 = Inr ((out, s'), w')"
    by (auto simp: tcpPoll_def fault_simps split: if_splits option.splits)
  then show ?thesis
    by cases (auto intro: poll_keeps_trans dest!: tcp_conns_keeps tcp_accept_keeps)
qed

section \<open>A system call\<close>

abbreviation devices_up :: "server \<Rightarrow> server \<Rightarrow> bool" where
  "devices_up s s' \<equiv> counts_up (sv_devices s) (sv_devices s')"

lemma fd_install_devices: "fd_install K pid d s w = Inr ((r, s'), w') \<Longrightarrow> sv_devices s' = sv_devices s"
  by (auto simp: fd_install_def upd_proc_def Let_def split: prod.splits if_splits option.splits)

lemma fdOpenFdFromPath_devices:
  assumes "fdOpenFdFromPath K pid p fl md s w = Inr ((r, s'), w')"
  shows "devices_up s s'"
proof (cases "strncmp_eq p dev_prefix 5")
  case True
  with assms obtain x where "dev_open (drop 5 p) (sv_devices s) = Inr (x, sv_devices s')"
    by (auto simp: fdOpenFdFromPath_def fdOpenFdFromDevice_def fault_simps split: option.splits dest!: fd_install_devices)
  then show ?thesis by (rule counts_up_open)
next
  case False
  with assms consider "s' = s" | q x w2 w3 where "fd_install K pid (FdTypeFd x) s w2 = Inr ((q, s'), w3)"
    by (auto simp: fdOpenFdFromPath_def fdOpenFdFromFile_def fault_simps split: option.splits if_splits)
  then show ?thesis by cases (auto dest: fd_install_devices)
qed

lemma fdClose_devices: "fdClose K pid fd s w = Inr ((b, s'), w') \<Longrightarrow> sv_devices s' = sv_devices s"
  by (auto simp: fdClose_def close_data_def upd_proc_def fault_simps
      split: if_splits option.splits fd_data.splits)

lemma processFree_loop_devices: "processFree_loop K pid is s w = Inr (s', w') \<Longrightarrow> sv_devices s' = sv_devices s"
proof (induction "is" arbitrary: s w)
  case Nil
  then show ?case by simp
next
  case (Cons i "is")
  then show ?case
    by (auto simp: Let_def fault_simps split: if_splits dest!: fdClose_devices)
qed

lemma processFree_devices: "processFree K pid s w = Inr (s', w') \<Longrightarrow> sv_devices s' = sv_devices s"
  by (auto simp: processFree_def fault_simps upd_proc_def dest: processFree_loop_devices split: prod.splits)

lemma syscall_devices:
  assumes "syscall K pid req s w = Inr ((r, s'), w')"
  shows "devices_up s s'"
proof -
  from assms have pid: "pid < length (sv_procs s)" by (auto simp: syscall_def split: if_splits)
  show ?thesis
  proof (cases req)
    case (SysExec pth a)
    with assms pid have "sysExec K pid pth a s w = Inr ((r, s'), w')" by (simp add: syscall_def)
    then show ?thesis
      by (cases rule: sysExec_result) (auto dest!: processFree_devices simp: upd_proc_def)
  next
    case SysFork
    with assms pid obtain q w1 where "processFork K pid s w = Inr ((q, s'), w1)"
      by (auto simp: syscall_def and_then_eq_Inr)
    from processFork_result [OF this] show ?thesis by auto
  next
    case (SysExit c)
    with assms pid show ?thesis
      by (auto simp: syscall_def syscallExit_def and_then_eq_Inr dest: processFree_devices)
  next
    case (SysOpen q f m)
    with assms pid show ?thesis by (auto simp: syscall_def and_then_eq_Inr dest: fdOpenFdFromPath_devices)
  next
    case (SysClose f)
    with assms pid show ?thesis by (auto simp: syscall_def and_then_eq_Inr dest: fdClose_devices)
  qed (use assms pid in \<open>auto simp: syscall_def and_then_eq_Inr upd_proc_def
      split: if_splits option.splits prod.splits\<close>)
qed

section \<open>Everything that follows\<close>

text \<open>
  A step of one copy of the server: a system call of any of its processes, or a poll, with any
  answers of the operating system, those to fork and getpid among them; the world may change by itself.
\<close>

inductive copy_step :: "server \<times> 'w \<Rightarrow> server \<times> 'w \<Rightarrow> bool" where
  call: "serverSysCall K req s w = Inr ((r, s'), w') \<Longrightarrow> copy_step (s, w) (s', w')"
| poll: "tcpPoll K s w = Inr ((out, s'), w') \<Longrightarrow> copy_step (s, w) (s', w')"
| world: "copy_step (s, w) (s, w')"

lemma copy_step_devices: "copy_step c c' \<Longrightarrow> devices_up (fst c) (fst c')"
proof (induction rule: copy_step.induct)
  case (call K req s w r s' w')
  then show ?case by (auto simp: serverSysCall_def split: option.splits dest: syscall_devices)
next
  case (poll K s w out s' w')
  from tcpPoll_keeps [OF poll] show ?case by (simp add: poll_keeps_def)
qed simp

lemma copy_steps_devices: "rtranclp copy_step c c' \<Longrightarrow> devices_up (fst c) (fst c')"
  by (induction rule: rtranclp_induct) (auto dest: copy_step_devices intro: counts_up_trans)

text \<open>A device in use stays so, and can not be removed.\<close>

lemma used_for_ever:
  assumes "rtranclp copy_step (s, w) (t, v)" "dev_inv (sv_devices s)" "dev_abs (sv_devices s) n = Some (d, c)" "0 < c"
  shows "(\<exists>c' \<ge> c. dev_abs (sv_devices t) n = Some (d, c')) \<and> dev_remove (Some n) (sv_devices t) = (False, sv_devices t)"
proof -
  from copy_steps_devices [OF assms(1)] assms(2,3) obtain c' where
    "dev_inv (sv_devices t)" "c \<le> c'" "dev_abs (sv_devices t) n = Some (d, c')"
    unfolding counts_up_def fst_conv by blast
  with devs.del_used [of "sv_devices t" n d c'] assms(4) show ?thesis by auto
qed

end
