(* ===== verification/ServerRun.thy ===== *)
theory ServerRun
  imports Kept
begin

text \<open>
  A run of the server: one poll of quiet, disconnected or stopping clients, the main loop,
  and \<^verbatim>\<open>src/server/main.cpp\<close>, which starts the daemon or tells a running one to stop.
\<close>

section \<open>One poll\<close>

text \<open>A poll that found the given connections, with no client waiting to be accepted.\<close>

definition polls :: "'w posix \<Rightarrow> server \<Rightarrow> 'w \<Rightarrow> int list \<Rightarrow> 'w \<Rightarrow> bool" where
  "polls K s w ready w1 \<longleftrightarrow> fd_in_range (sv_tcpSockFd s) \<and>
     px_select K (sv_fdSetActive s) w = (Some ready, w1) \<and> sv_tcpSockFd s \<notin> set ready"

lemma tcpPoll_polls:
  "polls K s w ready w1 \<Longrightarrow> tcpPoll K s w = tcp_conns K ready [] (sv_connections s) s w1"
  by (simp add: polls_def tcpPoll_def FD_ISSET_def fd_in_range_def)

lemma tcpPoll_quiet:
  assumes "polls K s w ready w1" "\<forall>c \<in> set (sv_connections s). quiet ready s c"
  shows "tcpPoll K s w = Inr ((Handled True, s), w1)"
  using tcpPoll_polls [OF assms(1)] tcp_conns_quiet [OF assms(2), of K "[]" "[]" w1] by simp

lemma tcpPoll_eof_last:
  assumes "polls K s w ready w1" "sv_connections s = cs @ [con]" "\<forall>c \<in> set cs. quiet ready s c"
    "con_fd s con fd" "fd \<in> set ready" "px_read K fd 1024 w1 = ((n, bs), w2)" "n \<le> 0"
  shows "tcpPoll K s w = Inl BadIterator"
  using tcpPoll_polls [OF assms(1)] tcp_conns_quiet [OF assms(3), of K "[]" "[con]" w1]
    tcp_conns_eof [OF assms(4-7), of "cs" "[]"] assms(2) by simp

lemma tcpPoll_eof_skips:
  assumes "polls K s w ready w1" "sv_connections s = cs @ con # skipped # rest"
    "\<forall>c \<in> set cs. quiet ready s c" "\<forall>c \<in> set rest. quiet ready s c"
    "con_fd s con fd" "fd \<in> set ready" "px_read K fd 1024 w1 = ((n, bs), w2)" "n \<le> 0"
  shows "tcpPoll K s w = Inr ((Handled True, s\<lparr>sv_connections := cs @ skipped # rest,
    sv_fdSetActive := removeAll fd (sv_fdSetActive s)\<rparr>), snd (px_close K fd w2))"
proof -
  let ?s = "s\<lparr>sv_fdSetActive := removeAll fd (sv_fdSetActive s)\<rparr>"
  have q: "\<forall>c \<in> set rest. quiet ready ?s c" using assms(4) by (simp add: quiet_def con_fd_def)
  show ?thesis
    using tcpPoll_polls [OF assms(1)] tcp_conns_quiet [OF assms(3), of K "[]" "con # skipped # rest" w1]
      tcp_conns_eof [OF assms(5-8), of "cs" "skipped # rest"] assms(2)
      tcp_conns_quiet [OF q, of K "cs @ [skipped]" "[]"] by simp
qed

lemma tcpPoll_stop:
  assumes "polls K s w ready w1" "sv_connections s = cs @ con # rest"
    "\<forall>c \<in> set cs. quiet ready s c" "\<forall>c \<in> set rest. quiet ready s c"
    "con_fd s con fd" "fd \<in> set ready" "px_read K fd 1024 w1 = ((int (length bs), bs), w2)" "bs \<noteq> []"
    "fst (strtok_r (tcp_text bs) '' '') = Some ''stop''"
  shows "tcpPoll K s w = Inr ((Handled True, stop s), w2)"
proof -
  have "tcpPoll K s w = tcp_conns K ready [] (cs @ con # rest) s w1"
    using tcpPoll_polls [OF assms(1)] assms(2) by simp
  also have "\<dots> = tcp_conns K ready cs (con # rest) s w1"
    using tcp_conns_quiet [OF assms(3), of K "[]" "con # rest" w1] by (simp del: tcp_conns.simps)
  also have "\<dots> = Inr ((Handled True, (stop s)\<lparr>sv_connections := cs @ con # rest\<rparr>), w2)"
    by (rule tcp_conns_stop [OF assms(5-9,4)])
  also have "(stop s)\<lparr>sv_connections := cs @ con # rest\<rparr> = stop s"
    using assms(2) by (simp add: stop_def)
  finally show ?thesis .
qed

section \<open>The main loop\<close>

lemma main_loop_stopped: "sv_stopFlag s \<Longrightarrow> main_loop K s w = Some (Inr ((Handled True, s), w))"
  by (simp add: main_loop.simps)

lemma main_loop_step:
  "\<not> sv_stopFlag s \<Longrightarrow> tcpPoll K s w = Inr ((Handled b, s1), w1) \<Longrightarrow> main_loop K s w = main_loop K s1 w1"
  by (subst main_loop.simps) simp

lemma main_loop_fault:
  "\<not> sv_stopFlag s \<Longrightarrow> tcpPoll K s w = Inl e \<Longrightarrow> main_loop K s w = Some (Inl e)"
  by (subst main_loop.simps) simp

text \<open>
  \<open>polled K n\<close>: \<open>n\<close> polls in the daemon, none of which stopped it. The loop returns exactly
  when some number of polls leads to a state that is stopped, faults or is a child.
\<close>

fun polled :: "'w posix \<Rightarrow> nat \<Rightarrow> server \<Rightarrow> 'w \<Rightarrow> (server \<times> 'w) option" where
  "polled K 0 s w = Some (s, w)"
| "polled K (Suc n) s w =
     (if sv_stopFlag s then None
      else case tcpPoll K s w of
        Inr ((Handled _, s1), w1) \<Rightarrow> polled K n s1 w1
      | _ \<Rightarrow> None)"

lemma main_loop_polled: "polled K n s w = Some (s1, w1) \<Longrightarrow> main_loop K s w = main_loop K s1 w1"
proof (induction n arbitrary: s w)
  case 0
  then show ?case by simp
next
  case (Suc n)
  then obtain b s2 w2 where "\<not> sv_stopFlag s" "tcpPoll K s w = Inr ((Handled b, s2), w2)" "polled K n s2 w2 = Some (s1, w1)"
    by (auto split: if_splits sum.splits prod.splits tcp_outcome.splits)
  with Suc.IH show ?case by (simp add: main_loop_step)
qed

lemma main_loop_stops:
  "polled K n s w = Some (s1, w1) \<Longrightarrow> sv_stopFlag s1 \<Longrightarrow> main_loop K s w = Some (Inr ((Handled True, s1), w1))"
  by (simp add: main_loop_polled main_loop_stopped)

lemma polled_keeps: "polled K n s w = Some (s', w') \<Longrightarrow> poll_keeps s s'"
proof (induction n arbitrary: s w)
  case 0
  then show ?case by simp
next
  case (Suc n)
  then obtain b s1 w1 where "tcpPoll K s w = Inr ((Handled b, s1), w1)" "polled K n s1 w1 = Some (s', w')"
    by (auto split: if_splits sum.splits prod.splits tcp_outcome.splits)
  from tcpPoll_keeps [OF this(1)] Suc.IH [OF this(2)] show ?case by (rule poll_keeps_trans)
qed

definition loop_ends_ok :: "'w posix \<Rightarrow> server \<Rightarrow> 'w \<Rightarrow> fault + ((tcp_outcome \<times> server) \<times> 'w) \<Rightarrow> bool" where
  "loop_ends_ok K s w y \<longleftrightarrow> (\<forall>out s' w'. y = Inr ((out, s'), w') \<longrightarrow>
     (server_inv s \<longrightarrow> server_inv s') \<and>
     (\<forall>b. out = Handled b \<longrightarrow> sv_stopFlag s' \<and> (\<exists>n. polled K n s w = Some (s', w'))))"

lemma polled_Suc:
  "\<not> sv_stopFlag s \<Longrightarrow> tcpPoll K s w = Inr ((Handled b, s1), w1) \<Longrightarrow> polled K n s1 w1 = x \<Longrightarrow> polled K (Suc n) s w = x"
  by simp

lemma main_loop_returned: "main_loop K s w = Some y \<Longrightarrow> loop_ends_ok K s w y"
proof (rule main_loop.raw_induct [where P = loop_ends_ok])
  fix ml K s w y
  assume IH: "\<And>K s w y. ml K s w = Some y \<Longrightarrow> loop_ends_ok K s w y"
    and step: "(if sv_stopFlag s then Some (Inr ((Handled True, s), w))
      else case tcpPoll K s w of Inl e \<Rightarrow> Some (Inl e)
        | Inr r \<Rightarrow> (case fst (fst r) of Handled x \<Rightarrow> ml K (snd (fst r)) (snd r) | Entered q \<Rightarrow> Some (Inr r)))
      = Some y"
  show "loop_ends_ok K s w y"
  proof (cases "sv_stopFlag s")
    case True
    with step show ?thesis by (auto simp: loop_ends_ok_def intro: exI [of _ 0])
  next
    case False
    show ?thesis
    proof (cases "tcpPoll K s w" rule: result_cases)
      case (fault e)
      with step False show ?thesis by (auto simp: loop_ends_ok_def)
    next
      case (ok out s1 w1)
      have inv: "server_inv s \<longrightarrow> server_inv s1" using server_inv_tcpPoll [OF _ ok] by blast
      show ?thesis
      proof (cases out)
        case (Handled b)
        with step False ok have m: "ml K s1 w1 = Some y" by simp
        note ps = polled_Suc [OF False ok [unfolded Handled]]
        from IH [OF m] inv show ?thesis unfolding loop_ends_ok_def by (metis ps)
      next
        case (Entered q)
        with step False ok inv show ?thesis by (auto simp: loop_ends_ok_def)
      qed
    qed
  qed
qed

lemma main_loop_result:
  assumes "main_loop K s w = Some (Inr ((out, s'), w'))"
  shows "(\<forall>b. out = Handled b \<longrightarrow> sv_stopFlag s' \<and> (\<exists>n. polled K n s w = Some (s', w'))) \<and>
    (server_inv s \<longrightarrow> server_inv s')"
  using main_loop_returned [OF assms] by (simp add: loop_ends_ok_def)

text \<open>
  How a run returns: false when the boot failed; true after a number of polls the last of which
  stopped it, with close(2) called on the port the boot opened and the database closed.
\<close>

lemma run_False:
  assumes "run K fs ip s0 w = Some (Inr ((Handled False, s'), w'))"
  shows "boot K fs ip s0 w = Inr ((Handled False, s'), w')"
  using assms by (auto simp: run_def shut_down_def split: sum.splits prod.splits tcp_outcome.splits bool.splits option.splits
      dest: main_loop_result)

lemma run_True:
  assumes "run K fs ip (Server_new port) w = Some (Inr ((Handled True, s'), w'))"
  obtains sd v n sl u where "boot K fs ip (Server_new port) w = Inr ((Handled True, sd), v)"
    "polled K n sd v = Some (sl, u)" "sv_stopFlag sl" "server_inv sl" "shut_down K sl u = (s', w')"
proof -
  from assms obtain s1 w1 where b: "boot K fs ip (Server_new port) w = Inr ((Handled True, s1), w1)"
    and l: "(case main_loop K s1 w1 of
             Some (Inr ((Handled _, s2), w2)) \<Rightarrow>
               (case shut_down K s2 w2 of (s3, w3) \<Rightarrow> Some (Inr ((Handled True, s3), w3)))
           | r \<Rightarrow> r) = Some (Inr ((Handled True, s'), w'))"
    by (auto simp: run_def split: sum.splits prod.splits tcp_outcome.splits bool.splits)
  from l obtain x s2 w2 where m: "main_loop K s1 w1 = Some (Inr ((Handled x, s2), w2))" "shut_down K s2 w2 = (s', w')"
    by (auto split: option.splits sum.splits prod.splits tcp_outcome.splits)
  moreover from main_loop_result [OF m(1)] boot_new [OF b] obtain n where
    "sv_stopFlag s2" "polled K n s1 w1 = Some (s2, w2)" "server_inv s2" by auto
  ultimately show ?thesis using b that by blast
qed

lemma shut_down_result:
  "sv_tcpSockFd s \<noteq> -1 \<Longrightarrow> shut_down K s w =
     (s\<lparr>sv_tcpSockFd := -1, sv_database := False\<rparr>,
      let v = snd (px_close K (sv_tcpSockFd s) w) in if sv_database s then px_sqlite_close K v else v)"
  by (simp add: shut_down_def tcpClose_def case_prod_unfold Let_def)

section \<open>The command line\<close>

text \<open>
  \<^verbatim>\<open>main.cpp\<close>. \<open>Exit c\<close> is the end of the process with that status, \<open>Runs q\<close> the forked
  child that executes a program and \<open>Finished\<close> the return from \<^verbatim>\<open>start\<close>. signal(2) and
  umask(2) change nothing the model holds. A return from \<^verbatim>\<open>main\<close> runs the destructor of its
  local socket, which closes it, a call of \<^verbatim>\<open>exit\<close> does not.
\<close>

datatype main_result = Exit int | Runs process | Finished

fun close_down :: "'w posix \<Rightarrow> nat \<Rightarrow> 'w \<Rightarrow> 'w" where
  \<comment> \<open>\<^verbatim>\<open>for (x = n; x>0; x--) close(x);\<close>\<close>
  "close_down K 0 w = w"
| "close_down K (Suc n) w = close_down K n (snd (px_close K (int (Suc n)) w))"

definition startDaemon :: "'w posix \<Rightarrow> 'w \<Rightarrow> int option \<times> 'w" where
  \<comment> \<open>the status this process exits with, or None in the daemon\<close>
  "startDaemon K w =
     (case px_fork K w of (pid, w1) \<Rightarrow>
        if pid < 0 then (Some 1, w1)
        else if pid > 0 then (Some 0, w1)
        else case px_setsid K w1 of (sid, w2) \<Rightarrow>
          if sid < 0 then (Some 1, w2)
          else case px_fork K w2 of (pid2, w3) \<Rightarrow>
            if pid2 < 0 then (Some 1, w3)
            else if pid2 > 0 then (Some 0, w3)
            else (None, close_down K (nat (px_open_max K w3)) w3))"

definition container_path :: string where
  "container_path = ''./container''"

definition init_path :: string where
  "init_path = ''/sys/init''"

definition default_port :: int where
  "default_port = 51717"

definition start :: "'w posix \<Rightarrow> 'w \<Rightarrow> (fault + (main_result \<times> 'w)) option" where
  "start K w =
     (case startDaemon K w of
        (Some c, w1) \<Rightarrow> Some (Inr (Exit c, w1))
      | (None, w1) \<Rightarrow>
          (case mountFile K container_path FSDirect_new w1 of
             Inl e \<Rightarrow> Some (Inl e)
           | Inr ((ok, fs), w2) \<Rightarrow>
               if \<not> ok then Some (Inr (Exit 1, w2))
               else (case run K fs (Some init_path) (Server_new default_port) w2 of
                  None \<Rightarrow> None
                | Some (Inl e) \<Rightarrow> Some (Inl e)
                | Some (Inr ((Handled done, s'), w3)) \<Rightarrow>
                    Some (Inr (if done then Finished else Exit 1, w3))
                | Some (Inr ((Entered q, s'), w3)) \<Rightarrow> Some (Inr (Runs q, w3)))))"

definition SocketTcp_destroy :: "'w posix \<Rightarrow> socket \<Rightarrow> 'w \<Rightarrow> fault + 'w" where
  "SocketTcp_destroy K sk w = and_then (SocketTcp_close K sk w) (\<lambda>(_, w'). Inr w')"

definition main_return :: "'w posix \<Rightarrow> socket \<Rightarrow> 'w \<Rightarrow> (fault + (main_result \<times> 'w)) option" where
  "main_return K sk w = Some (and_then (SocketTcp_destroy K sk w) (\<lambda>w'. Inr (Exit 0, w')))"

definition main_stopping ::
    "'w posix \<Rightarrow> bool \<Rightarrow> socket \<Rightarrow> 'w \<Rightarrow> fault + ((int option \<times> bool \<times> socket) \<times> 'w)" where
  \<comment> \<open>the branch of \<^verbatim>\<open>stop\<close> and \<^verbatim>\<open>restart\<close>: a status to exit with, or how to go on\<close>
  "main_stopping K running sk w =
     (if \<not> running then Inr ((Some 1, running, sk), w)
      else and_then (sock_write K sk (''stop'' @ [CHR 0x0A]) w) (\<lambda>(_, w1).
        and_then (sock_close K sk w1) (\<lambda>((_, sk'), w2). Inr ((None, False, sk'), w2))))"

definition main :: "'w posix \<Rightarrow> string list \<Rightarrow> 'w \<Rightarrow> (fault + (main_result \<times> 'w)) option" where
  "main K argv w =
     (if length argv \<le> 1 then Some (Inr (Exit 0, w))
      else case tcp_connect K ''localhost'' default_port SocketTcp_new w of
        Inl e \<Rightarrow> Some (Inl e)
      | Inr ((running, sock), w1) \<Rightarrow>
          (let cmd = argv ! 1
           in case (if cmd = ''stop'' \<or> cmd = ''restart'' then main_stopping K running sock w1
                    else Inr ((None, running, sock), w1)) of
             Inl e \<Rightarrow> Some (Inl e)
           | Inr ((Some c, running2, sock2), w2) \<Rightarrow> Some (Inr (Exit c, w2))
           | Inr ((None, running2, sock2), w2) \<Rightarrow>
               if cmd = ''start'' \<or> cmd = ''restart'' then
                 (if running2 then Some (Inr (Exit 1, w2))
                  else case start K w2 of
                    Some (Inr (Finished, w3)) \<Rightarrow> main_return K sock2 w3
                  | r \<Rightarrow> r)
               else main_return K sock2 w2))"

lemma tcp_connect_live:
  "tcp_connect K a p SocketTcp_new w = Inr ((True, sk), w') \<Longrightarrow>
   sk_type sk = TypeTcp \<and> sk_state sk = StateClient \<and> (\<exists>fd. sk_sockFd sk = Some fd)"
  by (auto simp: tcp_connect_def SocketTcp_new_def Socket_new_def Let_def
      split: if_splits prod.splits option.splits)

text \<open>
  \<^verbatim>\<open>stop\<close> is answered by the five bytes on the connection, and by closing it: once by the
  command and, as a closed socket is not in \<open>StateNone\<close>, once more by the destructor.
\<close>

lemma main_stop:
  assumes "tcp_connect K ''localhost'' default_port SocketTcp_new w = Inr ((True, sk), w1)" "sk_sockFd sk = Some fd"
  shows "main K [prog, ''stop''] w =
    Some (Inr (Exit 0, snd (px_close K fd (snd (px_close K fd (snd (px_write K fd (''stop'' @ [CHR 0x0A]) w1)))))))"
  using assms tcp_connect_live [OF assms(1)]
  by (simp add: main_def main_stopping_def main_return_def SocketTcp_destroy_def sock_write_def
      sock_close_def sock_fd_def case_prod_unfold Let_def)

lemma stop_message: "fst (strtok_r (tcp_text (''stop'' @ [CHR 0x0A])) '' '') = Some ''stop''"
proof -
  have "tcp_text (''stop'' @ [CHR 0x0A]) = ''stop''"
    by (rule tcp_text_line) (simp_all add: is_line_end_def)
  then show ?thesis by (simp add: strtok_r_def)
qed

lemma main_start_running:
  assumes "tcp_connect K ''localhost'' default_port SocketTcp_new w = Inr ((True, sk), w1)"
  shows "main K [prog, ''start''] w = Some (Inr (Exit 1, w1))"
  using assms by (simp add: main_def)

end
