(* ===== verification/PosixSystem.thy ===== *)
theory PosixSystem
  imports ServerRun
begin

text \<open>
  Many POSIX processes, each with its own copy of the server: \<^verbatim>\<open>Server::run\<close> forks init,
  every fork system call and every terminal forks again, and from then on the two copies
  go separate ways. A node is a POSIX process; the step relation interleaves the system
  calls of the programs and the polls of the daemon. The operating system's answers to
  fork and getpid depend on who asks, so they are set for each step. The world also changes
  for reasons outside the server: what programs print, messages of clients, time. A poll
  makes a new node for every terminal it starts.
\<close>

section \<open>Nodes and steps\<close>

definition as_proc :: "int \<Rightarrow> 'w posix \<Rightarrow> 'w posix" where
  "as_proc p K = K\<lparr>px_getpid := (\<lambda>w. p)\<rparr>"

definition as_fork :: "int \<Rightarrow> int \<Rightarrow> 'w posix \<Rightarrow> 'w posix" where
  \<comment> \<open>process \<open>p\<close> with that answer to fork: a pid in the parent, 0 in the child, -1 if it failed\<close>
  "as_fork p r K = K\<lparr>px_getpid := (\<lambda>w. p), px_fork := (\<lambda>w. (r, w))\<rparr>"

definition as_forks :: "int \<Rightarrow> ('w \<Rightarrow> int) \<Rightarrow> 'w posix \<Rightarrow> 'w posix" where
  \<comment> \<open>the same where one run may fork several times: the world tells one fork from another\<close>
  "as_forks p g K = K\<lparr>px_getpid := (\<lambda>w. p), px_fork := (\<lambda>w. (g w, w))\<rparr>"

definition in_child :: "int \<Rightarrow> ('w \<Rightarrow> int) \<Rightarrow> 'w \<Rightarrow> int" where
  \<comment> \<open>what the child \<open>c\<close> is answered: what the parent was up to the fork that made it, and 0 there\<close>
  "in_child c g w = (if g w = c then 0 else g w)"

record 'w system =
  sy_daemon :: int
  sy_nodes :: "int \<rightharpoonup> server"
  sy_world :: 'w

definition is_pid :: "int \<Rightarrow> bool" where
  \<comment> \<open>a process id: a positive \<^verbatim>\<open>pid_t\<close>, of 32 bits\<close>
  "is_pid c \<longleftrightarrow> 0 < c \<and> c < 2 ^ 31"

definition fresh_pid :: "int \<Rightarrow> 'w system \<Rightarrow> bool" where
  "fresh_pid c S \<longleftrightarrow> is_pid c \<and> sy_nodes S c = None"

inductive sys_step :: "'w posix \<Rightarrow> 'w system \<Rightarrow> 'w system \<Rightarrow> bool" for K where
  call: "sy_nodes S p = Some s \<Longrightarrow> p \<noteq> sy_daemon S \<Longrightarrow> req \<noteq> SysFork \<Longrightarrow>
    serverSysCall (as_proc p K) req s (sy_world S) = Inr ((r, s'), w') \<Longrightarrow> \<forall>c. r \<noteq> Exits c \<Longrightarrow>
    sys_step K S (S\<lparr>sy_nodes := (sy_nodes S)(p \<mapsto> s'), sy_world := w'\<rparr>)"
| exit: "sy_nodes S p = Some s \<Longrightarrow> p \<noteq> sy_daemon S \<Longrightarrow>
    serverSysCall (as_proc p K) req s (sy_world S) = Inr ((Exits c, s'), w') \<Longrightarrow>
    sys_step K S (S\<lparr>sy_nodes := (sy_nodes S)(p := None), sy_world := w'\<rparr>)"
| fork: "sy_nodes S p = Some s \<Longrightarrow> p \<noteq> sy_daemon S \<Longrightarrow> fresh_pid c S \<Longrightarrow> callerPID s p = Some pid \<Longrightarrow>
    processFork (as_fork p c K) pid s (sy_world S) = Inr ((n, sp), w1) \<Longrightarrow>
    processFork (as_fork c 0 K) pid s (sy_world S) = Inr ((0, sc), w2) \<Longrightarrow>
    sys_step K S (S\<lparr>sy_nodes := (sy_nodes S)(p \<mapsto> sp, c \<mapsto> sc), sy_world := w1\<rparr>)"
| no_fork: "sy_nodes S p = Some s \<Longrightarrow> p \<noteq> sy_daemon S \<Longrightarrow> callerPID s p = Some pid \<Longrightarrow>
    processFork (as_fork p (-1) K) pid s (sy_world S) = Inr ((n, sp), w1) \<Longrightarrow>
    sys_step K S (S\<lparr>sy_nodes := (sy_nodes S)(p \<mapsto> sp), sy_world := w1\<rparr>)"
| poll: "sy_nodes S (sy_daemon S) = Some s \<Longrightarrow> finite C \<Longrightarrow> \<forall>c \<in> C. fresh_pid c S \<Longrightarrow> \<forall>w. g w \<in> C \<or> g w < 0 \<Longrightarrow>
    tcpPoll (as_forks (sy_daemon S) g K) s (sy_world S) = Inr ((Handled b, sd), w1) \<Longrightarrow>
    \<forall>c \<in> C. \<exists>q w2. tcpPoll (as_forks c (in_child c g) K) s (sy_world S) = Inr ((Entered q, sc c), w2) \<Longrightarrow>
    sys_step K S (S\<lparr>sy_nodes := (\<lambda>p. if p \<in> C then Some (sc p) else ((sy_nodes S)(sy_daemon S \<mapsto> sd)) p), sy_world := w1\<rparr>)"
| world: "sys_step K S (S\<lparr>sy_world := w'\<rparr>)"

inductive_cases sys_stepE [consumes 1, case_names call exit fork no_fork poll world]: "sys_step K S T"

definition roomy :: "'w system \<Rightarrow> bool" where
  "roomy S \<longleftrightarrow> (\<forall>p s. sy_nodes S p = Some s \<longrightarrow> room s)"

inductive reach :: "'w posix \<Rightarrow> fsdirect \<Rightarrow> string option \<Rightarrow> int \<Rightarrow> 'w system \<Rightarrow> bool" for K fs ip port where
  boot: "is_pid d \<Longrightarrow> is_pid c \<Longrightarrow> d \<noteq> c \<Longrightarrow>
    boot (as_fork d c K) fs ip (Server_new port) w = Inr ((Handled True, sd), w1) \<Longrightarrow>
    boot (as_fork c 0 K) fs ip (Server_new port) w = Inr ((Entered q, si), w2) \<Longrightarrow>
    reach K fs ip port \<lparr>sy_daemon = d, sy_nodes = [d \<mapsto> sd, c \<mapsto> si], sy_world = w1\<rparr>"
| step: "reach K fs ip port S \<Longrightarrow> roomy S \<Longrightarrow> sys_step K S T \<Longrightarrow> reach K fs ip port T"

section \<open>What a system call leaves of its caller\<close>

lemma as_simps [simp]:
  "px_getpid (as_proc p K) w = p" "px_getpid (as_fork p r K) w = p" "px_fork (as_fork p r K) w = (r, w)"
  "px_getpid (as_forks p g K) w = p" "px_fork (as_forks p g K) w = (g w, w)"
  by (simp_all add: as_proc_def as_fork_def as_forks_def)

text \<open>A call that returns, and is not an exec, changes no pid; an exec sets that of the caller.\<close>

definition pid_kept :: "nat \<Rightarrow> server \<Rightarrow> server \<Rightarrow> bool" where
  "pid_kept pid s s' \<longleftrightarrow> pid < length (sv_procs s') \<and> pr_posixPID (sv_procs s' ! pid) = pr_posixPID (sv_procs s ! pid)"

lemma fd_install_pid_kept:
  assumes "fd_install K pid d s w = Inr ((r, s'), w')" "pid < length (sv_procs s)"
  shows "pid_kept pid s s'"
  using assms by (auto simp: fd_install_def pid_kept_def upd_proc_def Let_def
      split: prod.splits if_splits option.splits)

lemma fdOpenFdFromPath_pid_kept:
  assumes "fdOpenFdFromPath K pid p fl md s w = Inr ((r, s'), w')" "pid < length (sv_procs s)"
  shows "pid_kept pid s s'"
proof (cases "strncmp_eq p dev_prefix 5")
  case True
  with assms(1) consider ds where "s' = s\<lparr>sv_devices := ds\<rparr>"
    | ds q d where "fd_install K pid (FdTypeDevice d) (s\<lparr>sv_devices := ds\<rparr>) w = Inr ((q, s'), w')"
    by (auto simp: fdOpenFdFromPath_def fdOpenFdFromDevice_def fault_simps split: option.splits)
  then show ?thesis
    using assms(2) fd_install_pid_kept [of K pid _ "s\<lparr>sv_devices := _\<rparr>" w _ s' w']
    by cases (auto simp: pid_kept_def)
next
  case False
  with assms(1) consider "s' = s" | q x w2 w3 where "fd_install K pid (FdTypeFd x) s w2 = Inr ((q, s'), w3)"
    by (auto simp: fdOpenFdFromPath_def fdOpenFdFromFile_def fault_simps split: option.splits if_splits)
  then show ?thesis
    by cases (use assms(2) in \<open>auto simp: pid_kept_def dest: fd_install_pid_kept\<close>)
qed

lemma fdClose_pid_kept:
  assumes "fdClose K pid fd s w = Inr ((b, s'), w')" "pid < length (sv_procs s)"
  shows "pid_kept pid s s'"
  using assms
  by (auto simp: fdClose_def fault_simps pid_kept_def upd_proc_def close_data_def
      split: option.splits if_splits fd_data.splits)

lemma syscall_caller:
  assumes "server_inv s" "syscall K pid req s w = Inr ((r, s'), w')" "\<forall>c. r \<noteq> Exits c" "req \<noteq> SysFork"
    "pr_posixPID (sv_procs s ! pid) = p" "\<And>w. px_getpid K w = p"
  shows "pid < length (sv_procs s') \<and> pr_posixPID (sv_procs s' ! pid) = p"
proof -
  from assms(2) have pid: "pid < length (sv_procs s)" by (auto simp: syscall_def split: if_splits)
  have same: ?thesis if "pid_kept pid s s'" using that assms(5) by (simp add: pid_kept_def)
  show ?thesis
  proof (cases req)
    case (SysExit x)
    with assms(2,3) pid show ?thesis by (auto simp: syscall_def syscallExit_def and_then_eq_Inr)
  next
    case SysFork
    with assms(4) show ?thesis by simp
  next
    case (SysOpen pth f m)
    with assms(2) pid show ?thesis
      by (intro same) (auto simp: syscall_def and_then_eq_Inr dest: fdOpenFdFromPath_pid_kept)
  next
    case (SysClose f)
    with assms(2) pid show ?thesis
      by (intro same) (auto simp: syscall_def and_then_eq_Inr dest: fdClose_pid_kept)
  next
    case (SysExec pth a)
    with assms(2) pid have "sysExec K pid pth a s w = Inr ((r, s'), w')" by (simp add: syscall_def)
    then show ?thesis
    proof (cases rule: sysExec_result)
      case failed
      with pid assms(5) show ?thesis by simp
    next
      case (loaded np1 np2 np3 s1 w1 w2 w3 w4 b2 b3 q)
      have "pid < length (sv_procs s1)"
        using server_inv_processFree [OF assms(1) pid loaded(4)] pid by (simp add: kept_def)
      moreover have "pr_posixPID q = p" using loaded(6) assms(3,6) by (auto dest: arun_result)
      ultimately show ?thesis using loaded(5) by (simp add: upd_proc_def)
    qed
  next
    case (SysChDir pth)
    with assms(2) pid obtain b q w1 where c: "setCwd K pth (sv_procs s ! pid) w = Inr ((b, q), w1)"
      and s': "s' = upd_proc pid (\<lambda>_. q) s" by (auto simp: syscall_def and_then_eq_Inr)
    from setCwd_result [OF c] s' pid show ?thesis by (intro same) (auto simp: pid_kept_def upd_proc_def)
  qed (use assms(2) pid in \<open>intro same; auto simp: syscall_def and_then_eq_Inr pid_kept_def
        split: if_splits option.splits prod.splits\<close>)+
qed

section \<open>Fork\<close>

lemma callerPID_I:
  "i < length (sv_procs s) \<Longrightarrow> pr_posixPID (sv_procs s ! i) = p \<Longrightarrow>
   \<exists>j \<le> i. callerPID s p = Some j \<and> pr_posixPID (sv_procs s ! j) = p"
proof -
  assume i: "i < length (sv_procs s)" "pr_posixPID (sv_procs s ! i) = p"
  let ?j = "slot_index (\<lambda>q. pr_posixPID q = p) (sv_procs s)"
  have "?j \<le> i"
  proof (rule ccontr)
    assume "\<not> ?j \<le> i"
    then show False using slot_index_before [of i "\<lambda>q. pr_posixPID q = p" "sv_procs s"] i by simp
  qed
  with i show ?thesis
    using slot_index_nth [of "\<lambda>q. pr_posixPID q = p" "sv_procs s"]
    by (intro exI [of _ ?j]) (simp add: callerPID_def Let_def)
qed

lemma callerPID_snoc:
  assumes "\<forall>q \<in> set ps. pr_posixPID q \<noteq> p"
  shows "callerPID (s\<lparr>sv_procs := ps @ [x\<lparr>pr_posixPID := p\<rparr>]\<rparr>) p = Some (length ps)"
proof -
  have "slot_index (\<lambda>q. pr_posixPID q = p) (ps @ [x\<lparr>pr_posixPID := p\<rparr>]) = length ps"
    by (rule slot_index_eqI) (use assms in \<open>auto simp: nth_append\<close>)
  then show ?thesis by (simp add: callerPID_def Let_def)
qed

text \<open>Copying a process asks nothing of fork or getpid, so it is the same on both sides.\<close>

lemma as_fork_calls [simp]:
  "px_malloc (as_fork p r K) = px_malloc K" "px_dlopen (as_fork p r K) = px_dlopen K"
  "px_dlsym (as_fork p r K) = px_dlsym K" "px_dlclose (as_fork p r K) = px_dlclose K"
  "px_restart (as_fork p r K) = px_restart K"
  by (simp_all add: as_fork_def)

lemma mallocs_as_fork [simp]: "mallocs (as_fork p r K) ns w = mallocs K ns w"
  by (induction ns arbitrary: w) (simp_all split: prod.split)

lemma forkCopy_as_fork [simp]: "forkCopy (as_fork p r K) q w = forkCopy K q w"
proof -
  have e: "setEnviron (as_fork p r K) = setEnviron K"
    by (intro ext) (unfold setEnviron_def mallocs_as_fork, rule refl)
  have l: "fork_load (as_fork p r K) = fork_load K"
    by (intro ext) (unfold fork_load_def restart_child_def e as_fork_calls, rule refl)
  have f: "fork_strings (as_fork p r K) = fork_strings K"
    by (intro ext) (unfold fork_strings_def l as_fork_calls, rule refl)
  show ?thesis by (unfold forkCopy_def f as_fork_calls mallocs_as_fork, rule refl)
qed

lemma fork_sides:
  assumes "processFork (as_fork p c K) pid s w = Inr ((n, sp), w1)"
    "processFork (as_fork c 0 K) pid s w = Inr ((0, sc), w2)" "0 < c"
  shows "\<exists>x v. forkCopy K (sv_procs s ! pid) w = Inr (Some x, v) \<and> n = c_int (length (sv_procs s)) \<and>
    sp = s\<lparr>sv_procs := sv_procs s @ [x]\<rparr> \<and> sc = s\<lparr>sv_procs := sv_procs s @ [x\<lparr>pr_posixPID := c\<rparr>]\<rparr>"
proof -
  from processFork_result [OF assms(2)] obtain x v where x: "forkCopy K (sv_procs s ! pid) w = Inr (Some x, v)"
    "sc = s\<lparr>sv_procs := sv_procs s @ [x\<lparr>pr_posixPID := c\<rparr>]\<rparr>"
    by auto
  moreover from x(1) assms(1,3) have "n = c_int (length (sv_procs s)) \<and> sp = s\<lparr>sv_procs := sv_procs s @ [x]\<rparr>"
    by (simp add: processFork_def Let_def)
  ultimately show ?thesis by blast
qed

text \<open>
  The parent's copy never learns the child's pid; the child finds itself as the last
  process if no older process of the copy has that pid, and finds that one otherwise.
\<close>

lemma fork_child_caller:
  assumes "processFork (as_fork c 0 K) pid s w = Inr ((0, sc), w2)"
  shows "callerPID sc c =
    (case callerPID s c of None \<Rightarrow> Some (length (sv_procs s)) | Some old \<Rightarrow> Some old)"
proof -
  from processFork_result [OF assms] obtain x v where
    sc: "sc = s\<lparr>sv_procs := sv_procs s @ [x\<lparr>pr_posixPID := c\<rparr>]\<rparr>" by auto
  show ?thesis
    by (auto simp: sc callerPID_def Let_def slot_index_append)
qed

section \<open>The child a terminal starts\<close>

definition entered :: "'w posix \<Rightarrow> tcp_outcome \<Rightarrow> server \<Rightarrow> bool" where
  "entered K out s' \<longleftrightarrow>
     (\<forall>q. out = Entered q \<longrightarrow> q \<in> set (sv_procs s') \<and> (\<exists>v. pr_posixPID q = px_getpid K v))"

lemma entered_simps [simp]:
  "entered K (Handled b) s" "entered K out (s\<lparr>sv_connections := cs\<rparr>) \<longleftrightarrow> entered K out s"
  by (simp_all add: entered_def)

lemma processRun_in:
  assumes "processRun K pid f args s w = Inr (RunEntered q, w')"
  shows "entered K (Entered q) (upd_proc (nat pid) (\<lambda>_. q) s)"
proof -
  from assms have pid: "nat pid < length (sv_procs s)" and v: "vrun K f args (sv_procs s ! nat pid) w = Inr (RunEntered q, w')"
    by (auto simp: processRun_def split: if_splits)
  have "q \<in> set (sv_procs (upd_proc (nat pid) (\<lambda>_. q) s))"
    using pid by (simp add: upd_proc_def set_update_memI)
  with vrun_result [OF v] show ?thesis by (auto simp: entered_def)
qed

lemma start_tty_entered:
  assumes "start_tty K con s w = Inr ((out, con', s'), w')"
  shows "entered K out s'"
proof (cases out)
  case (Handled b)
  then show ?thesis by simp
next
  case (Entered q)
  obtain ok ds w1 where a: "dev_add K (tty_search 1023 0 (sv_devices s))
      (Some (DeviceSocket (Some (con_sock con)))) (sv_devices s) w = ((ok, ds), w1)" by (metis surj_pair)
  from assms Entered a obtain shell w2 where ok: "ok"
    and l: "loadFileFS K (server_loc K (s\<lparr>sv_devices := ds\<rparr>)) (Some shell_path) Process_new w1 = Inr ((True, shell), w2)"
    by (cases "loadFileFS K (server_loc K (s\<lparr>sv_devices := ds\<rparr>)) (Some shell_path) Process_new w1" rule: result_cases)
      (auto simp: start_tty_def Let_def split: if_splits)
  obtain pid s2 where p: "processAdd shell (s\<lparr>sv_devices := ds\<rparr>) = (pid, s2)" by fastforce
  obtain ro w3 where r: "processRun K pid True [dev_prefix @ tty_search 1023 0 (sv_devices s)] s2 w2 = Inr (ro, w3)"
    using assms Entered a ok l p
    by (cases "processRun K pid True [dev_prefix @ tty_search 1023 0 (sv_devices s)] s2 w2" rule: state_cases)
      (auto simp: start_tty_def Let_def split: if_splits)
  from assms Entered a ok l p r have "ro = RunEntered q" "s' = upd_proc (nat pid) (\<lambda>_. q) s2"
    by (cases ro; auto simp: start_tty_def Let_def split: if_splits)+
  with processRun_in [of K pid True _ s2 w2 q w3] r Entered show ?thesis by simp
qed

lemma tcpRead_entered:
  assumes "tcpRead K con s w = Inr ((out, con', s'), w')"
  shows "entered K out s'"
proof -
  from assms consider b where "out = Handled b" | m w1 where "tcp_command K con m s w1 = Inr ((out, con', s'), w')"
    by (auto simp: tcpRead_def fault_simps split: if_splits)
  then show ?thesis
    by cases (simp, auto simp: tcp_command_def fault_simps dest: start_tty_entered split: option.splits if_splits)
qed

lemma tcp_conns_entered: "tcp_conns K ready passed cs s w = Inr ((out, s'), w') \<Longrightarrow> entered K out s'"
proof (induction "length cs" arbitrary: passed cs s w rule: less_induct)
  case less
  show ?case
  proof (cases cs)
    case Nil
    with less.prems show ?thesis by auto
  next
    case (Cons con rest)
    have IH: "entered K out s'" if "tcp_conns K ready ps cs' t v = Inr ((out, s'), w')" "length cs' \<le> length rest" for ps cs' t v
      using less.hyps [OF _ that(1)] that(2) Cons by simp
    from less.prems Cons consider (skip) "tcp_conns K ready (passed @ [con]) rest s w = Inr ((out, s'), w')"
      | (read) sk fd where "sock_at (sv_sockets s) (con_sock con) = Inr sk" "sk_type sk = TypeTcp"
          "sock_fd sk = Inr fd" "FD_ISSET fd ready = Inr True"
      by (auto simp: and_then_eq_Inr split: if_splits)
    then show ?thesis
    proof cases
      case skip
      then show ?thesis by (rule IH) simp
    next
      case read
      obtain o1 con' s1 w1 where r: "tcpRead K con s w = Inr ((o1, con', s1), w1)"
        using less.prems Cons read by (cases "tcpRead K con s w") auto
      show ?thesis
      proof (cases "o1 = Handled False")
        case True
        from less.prems Cons read r True obtain c2 rest2 active w2 where rest: "rest = c2 # rest2"
          and t: "tcp_conns K ready (passed @ [c2]) rest2 (s1\<lparr>sv_fdSetActive := active\<rparr>) w2 = Inr ((out, s'), w')"
          by (cases rest) (auto simp: fault_simps)
        from IH [OF t] rest show ?thesis by simp
      next
        case False
        with less.prems Cons read r IH [of "passed @ [con']" rest s1 w1] tcpRead_entered [OF r] show ?thesis
          by (cases o1) auto
      qed
    qed
  qed
qed

lemma tcpPoll_entered:
  assumes "tcpPoll K s w = Inr ((out, s'), w')"
  shows "entered K out s'"
proof -
  from assms consider b where "out = Handled b"
    | ready s1 w2 where "tcp_conns K ready [] (sv_connections s1) s1 w2 = Inr ((out, s'), w')"
    by (auto simp: tcpPoll_def fault_simps split: if_splits option.splits)
  then show ?thesis by cases (simp, rule tcp_conns_entered)
qed

section \<open>What is true of every system reached\<close>

text \<open>
  Every copy is well formed, the daemon has one, and every program is the caller of its own
  system calls in its copy.
\<close>

definition system_ok :: "'w system \<Rightarrow> bool" where
  "system_ok S \<longleftrightarrow> sy_nodes S (sy_daemon S) \<noteq> None \<and>
     (\<forall>p s. sy_nodes S p = Some s \<longrightarrow> is_pid p \<and> server_inv s \<and>
        (p \<noteq> sy_daemon S \<longrightarrow> callerPID s p \<noteq> None))"

lemma is_pid_pos: "is_pid c \<Longrightarrow> 0 < c"
  by (simp add: is_pid_def)

lemma system_okD: "system_ok S \<Longrightarrow> sy_nodes S p = Some s \<Longrightarrow>
    is_pid p \<and> 0 < p \<and> server_inv s \<and> (p \<noteq> sy_daemon S \<longrightarrow> callerPID s p \<noteq> None)"
  by (auto simp: system_ok_def is_pid_def)

lemma system_ok_update:
  assumes "system_ok S" "is_pid p" "server_inv s'" "p = sy_daemon S \<or> callerPID s' p \<noteq> None"
  shows "system_ok (S\<lparr>sy_nodes := (sy_nodes S)(p \<mapsto> s'), sy_world := w'\<rparr>)"
  using assms by (auto simp: system_ok_def)

lemma system_ok_nodes:
  "system_ok (S\<lparr>sy_nodes := N, sy_world := w\<rparr>) \<longleftrightarrow> system_ok (S\<lparr>sy_nodes := N, sy_world := w'\<rparr>)"
  by (simp add: system_ok_def)

lemma callerPID_iff: "callerPID s p \<noteq> None \<longleftrightarrow> (\<exists>q \<in> set (sv_procs s). pr_posixPID q = p)"
  by (auto simp: callerPID_def Let_def slot_index_less_iff)

lemma call_keeps_node:
  assumes "server_inv s" "room s" "callerPID s p \<noteq> None" "0 < p"
    "serverSysCall (as_proc p K) req s w = Inr ((r, s'), w')" "\<forall>c. r \<noteq> Exits c" "req \<noteq> SysFork"
  shows "server_inv s' \<and> callerPID s' p \<noteq> None"
proof -
  from assms(3) obtain pid where pid: "callerPID s p = Some pid" by blast
  with assms(5) have c: "syscall (as_proc p K) pid req s w = Inr ((r, s'), w')" by (simp add: serverSysCall_def)
  have "server_inv s'" by (rule server_inv_serverSysCall [OF assms(1,2) _ assms(5)]) (use assms(4) in simp)
  moreover have "pid < length (sv_procs s') \<and> pr_posixPID (sv_procs s' ! pid) = p"
    by (rule syscall_caller [OF assms(1) c assms(6,7)]) (use callerPID_Some [OF pid] in simp_all)
  then have "callerPID s' p \<noteq> None" unfolding callerPID_iff by (metis nth_mem)
  ultimately show ?thesis by simp
qed

lemma fork_keeps_node:
  assumes "server_inv s" "callerPID s p = Some pid" "0 < p" "p' = p \<or> p' = c"
    "processFork (as_fork p' x K) pid s w = Inr ((n, s'), w')" "p' = c \<longrightarrow> n = 0 \<and> x = 0"
  shows "server_inv s' \<and> (p' = p \<longrightarrow> callerPID s' p \<noteq> None) \<and> (p' = c \<longrightarrow> callerPID s' c \<noteq> None)"
proof -
  from callerPID_running [OF assms(1,2)] assms(3) have r: "pid < length (sv_procs s)" "pr_state (sv_procs s ! pid) = PrRunning"
    by simp_all
  have i: "server_inv s'" by (rule server_inv_processFork [OF assms(1) r(1) assms(5) r(2)])
  have "callerPID s p \<noteq> None" using assms(2) by simp
  moreover have "set (sv_procs s) \<subseteq> set (sv_procs s')"
    using processFork_result [OF assms(5)] by auto
  ultimately have p: "callerPID s' p \<noteq> None" unfolding callerPID_iff by blast
  have c: "callerPID s' c \<noteq> None" if "p' = c"
  proof -
    from processFork_result [OF assms(5)] assms(6) that obtain y where
      "s' = s\<lparr>sv_procs := sv_procs s @ [y\<lparr>pr_posixPID := c\<rparr>]\<rparr>" by auto
    then show ?thesis unfolding callerPID_iff by simp
  qed
  from i p c show ?thesis by simp
qed

lemma system_ok_step:
  assumes "sys_step K S T" "system_ok S" "roomy S"
  shows "system_ok T"
  using assms(1)
proof (cases rule: sys_stepE)
  case (call p s req r s' w')
  with system_okD [OF assms(2)] assms(3) have s: "server_inv s" "callerPID s p \<noteq> None" "0 < p" "room s" "is_pid p"
    by (auto simp: roomy_def)
  from call_keeps_node [OF s(1,4,2,3) call(5,6,4)] system_ok_update [OF assms(2) s(5)] call(1)
  show ?thesis by simp
next
  case (exit p s c s' w')
  with assms(2) show ?thesis by (auto simp: system_ok_def)
next
  case (fork p s c pid n sp w1 sc w2)
  with system_okD [OF assms(2)] have s: "server_inv s" "0 < p" "is_pid p" and c: "is_pid c" "c \<noteq> p"
    by (auto simp: fresh_pid_def)
  have sp: "server_inv sp \<and> callerPID sp p \<noteq> None"
    using fork_keeps_node [OF s(1) fork(5) s(2) _ fork(6), of c] c(2) by simp
  have sc: "server_inv sc \<and> callerPID sc c \<noteq> None"
    using fork_keeps_node [OF s(1) fork(5) s(2) _ fork(7), of c] by simp
  show ?thesis
    using sp sc assms(2) c fork(1,2) s(3) by (auto simp: system_ok_def)
next
  case (no_fork p s pid n sp w1)
  with system_okD [OF assms(2)] have s: "server_inv s" "0 < p" "is_pid p" by auto
  have "server_inv sp \<and> callerPID sp p \<noteq> None"
    using fork_keeps_node [OF s(1) no_fork(4) s(2) _ no_fork(5), of 0] s(2) by simp
  with system_ok_update [OF assms(2) s(3)] no_fork(1) show ?thesis by simp
next
  case (poll s C g b sd w1 sc)
  with system_okD [OF assms(2)] have s: "server_inv s" "is_pid (sy_daemon S)" by auto
  have c: "is_pid c \<and> c \<noteq> sy_daemon S \<and> server_inv (sc c) \<and> callerPID (sc c) c \<noteq> None" if "c \<in> C" for c
  proof -
    from poll(7) that obtain q w2 where
      t: "tcpPoll (as_forks c (in_child c g) K) s (sy_world S) = Inr ((Entered q, sc c), w2)" by blast
    have "\<exists>q \<in> set (sv_procs (sc c)). pr_posixPID q = c"
      using tcpPoll_entered [OF t] by (auto simp: entered_def)
    then have "callerPID (sc c) c \<noteq> None" by (simp only: callerPID_iff)
    with server_inv_tcpPoll [OF s(1) t] poll(2,4) that show ?thesis by (auto simp: fresh_pid_def)
  qed
  with server_inv_tcpPoll [OF s(1) poll(6)] assms(2) poll(1,2) s(2) show ?thesis
    by (auto simp: system_ok_def split: if_splits)
next
  case (world w')
  with assms(2) show ?thesis by (simp add: system_ok_def)
qed

lemma system_ok_boot:
  assumes "is_pid d" "is_pid c" "d \<noteq> c"
    "boot (as_fork d c K) fs ip (Server_new port) w = Inr ((Handled True, sd), w1)"
    "boot (as_fork c 0 K) fs ip (Server_new port) w = Inr ((Entered q, si), w2)"
  shows "system_ok \<lparr>sy_daemon = d, sy_nodes = [d \<mapsto> sd, c \<mapsto> si], sy_world = w1\<rparr>"
proof -
  from boot_new [OF assms(4)] have "server_inv sd" by simp
  moreover from boot_new [OF assms(5)] have si: "server_inv si" "length (sv_procs si) = 2"
    "sv_procs si ! 1 = q" "pr_posixPID q = c" by simp_all
  then have "callerPID si c \<noteq> None" unfolding callerPID_iff by (metis nth_mem one_less_numeral_iff semiring_norm(76))
  ultimately show ?thesis using assms(1-3) si(1) by (auto simp: system_ok_def)
qed

lemma reach_ok: "reach K fs ip port S \<Longrightarrow> system_ok S"
proof (induction rule: reach.induct)
  case (boot d c w sd w1 q si w2)
  then show ?case by (rule system_ok_boot)
next
  case (step S T)
  show ?case by (rule system_ok_step [OF step.hyps(3) step.IH step.hyps(2)])
qed

end
