(* ===== verification/Demo.thy ===== *)
theory Demo
  imports PosixSystem
begin

text \<open>
  Concrete states of the server on which the properties are run: a booted server as the
  daemon and as init have it, init with a descriptor, a shell beside it, and a daemon with
  clients. The operating system is \<open>demo_os\<close>, whose log is the world.
\<close>

section \<open>A booted server\<close>

definition demo_init :: process where
  "demo_init = \<lparr>pr_argc = 1, pr_argv = Some [''init''], pr_main = Some 2, pr_syscall = True,
     pr_info_environ = None, pr_dlHandle = Some 1, pr_start = Some 2, pr_restart = Some 2,
     pr_name = Some ''init'', pr_path = Some ''./container//sys/init'', pr_state = PrRunning,
     pr_posixPID = 7, pr_environ = None, pr_cwd = Some ''/sys'', pr_fds = []\<rparr>"

definition demo_shell :: process where
  "demo_shell = demo_init\<lparr>pr_name := Some ''shell'', pr_posixPID := 8\<rparr>"

definition demo_devices :: devices where
  "demo_devices = [\<lparr>de_name = ''full'', de_device = DeviceFull, de_refCount = 0\<rparr>,
     \<lparr>de_name = ''null'', de_device = DeviceNull, de_refCount = 0\<rparr>,
     \<lparr>de_name = ''zero'', de_device = DeviceZero, de_refCount = 0\<rparr>]"

definition demo_fs :: fsdirect where
  "demo_fs = \<lparr>containerPath = Some (''./container'' @ ''/'')\<rparr>"

definition demo_server :: server where
  "demo_server = (Server_new 51717)\<lparr>sv_procs := [Process_new, demo_init],
     sv_filesystem := Some demo_fs, sv_devices := demo_devices, sv_database := True\<rparr>"

definition demo_daemon :: server where
  "demo_daemon = demo_server\<lparr>sv_procs := [Process_new, demo_init\<lparr>pr_argc := 0, pr_argv := None,
     pr_syscall := False, pr_state := PrLoaded, pr_posixPID := -1\<rparr>], sv_tcpSockFd := 5, sv_fdSetActive := [5]\<rparr>"

lemmas demo_defs = demo_server_def demo_devices_def demo_init_def demo_shell_def demo_fs_def
  Server_new_def Process_new_def demo_os_def

lemma demo_proc_wf: "proc_wf demo_init" "proc_wf demo_shell"
  by (simp_all add: demo_init_def demo_shell_def proc_wf_def)

lemma demo_server_inv: "server_inv demo_server"
proof -
  have d: "server_inv ((Server_new 51717)\<lparr>sv_devices := demo_devices\<rparr>)"
    by (rule server_inv_devices [OF server_inv_new])
      (simp_all add: demo_devices_def dev_inv_def dev_ok_def)
  have "server_inv ((Server_new 51717)\<lparr>sv_devices := demo_devices,
      sv_procs := sv_procs ((Server_new 51717)\<lparr>sv_devices := demo_devices\<rparr>) @ [demo_init]\<rparr>)"
    by (rule server_inv_push [OF d demo_proc_wf(1)]) (simp add: demo_init_def)
  then have "server_inv ((Server_new 51717)\<lparr>sv_devices := demo_devices, sv_procs := [Process_new, demo_init],
      sv_filesystem := Some demo_fs, sv_database := True\<rparr>)"
    unfolding server_inv_fields by (simp add: Server_new_def)
  then show ?thesis by (simp add: demo_server_def Server_new_def)
qed

lemma demo_room: "room demo_server"
  by (simp add: room_def demo_server_def Server_new_def)

lemma demo_running:
  "sv_procs demo_server = [Process_new, demo_init]" "sv_procs demo_server ! 1 = demo_init" "length (sv_procs demo_server) = 2"
  by (simp_all add: demo_server_def)

lemma Server_new_fields [simp]:
  "sv_devices (Server_new port) = []" "sv_procs (Server_new port) = [Process_new]"
  "sv_tcpPort (Server_new port) = port" "sv_tcpSockFd (Server_new port) = -1"
  by (simp_all add: Server_new_def)

lemma demo_loaded:
  assumes m: "\<And>n w. px_malloc K n w = (True, w)" and o: "\<And>p w. fst (px_dlopen K p w) = Some 1"
    and y: "\<And>h s w. px_dlsym K h s w = Some 2"
  shows "loadFileFS K (fileLocalPath K demo_fs) (Some init_path) Process_new w =
     Inr ((True, demo_init\<lparr>pr_argc := 0, pr_argv := None, pr_syscall := False, pr_state := PrLoaded,
       pr_posixPID := -1\<rparr>), snd (px_dlopen K ''./container//sys/init'' w))"
proof -
  have b: "strstrrev ''./container//sys/init'' ''/'' = Some 16" by code_simp
  have d: "dirname ''/sys/init'' = ''/sys''" by code_simp
  obtain v where v: "px_dlopen K ''./container//sys/init'' w = (Some 1, v)"
    using o by (metis prod.collapse)
  show ?thesis
    by (simp add: loadFileFS_def loadFileLocal_def fileLocalPath_def m y v b d Let_def
        demo_fs_def init_path_def is_absolute_def Process_new_def demo_init_def)
qed

text \<open>An operating system in which everything a boot asks for succeeds.\<close>

definition tame :: "os_call list posix \<Rightarrow> bool" where
  "tame K \<longleftrightarrow> (\<forall>n w. px_malloc K n w = (True, w)) \<and>
     (\<forall>p w. px_dlopen K p w = (Some 1, w @ [CallDlopen p])) \<and> (\<forall>h s w. px_dlsym K h s w = Some 2) \<and>
     (\<forall>p w. px_sqlite_open K p w = (0, w)) \<and> (\<forall>q w. px_sqlite_exec K q w = ((1, 0), w)) \<and>
     (\<forall>w. px_socket K w = (5, w)) \<and> (\<forall>fd p w. px_bind K fd p w = (0, w)) \<and>
     (\<forall>fd w. px_listen K fd w = (0, w))"

lemma tame_demo_os: "tame (demo_os f p)"
  by (simp add: tame_def demo_os_def)

lemma tame_as_fork: "tame K \<Longrightarrow> tame (as_fork p r K)"
  by (simp add: tame_def as_fork_def)

lemma tame_mallocs: "tame K \<Longrightarrow> mallocs K ns w = (True, w)"
  by (induction ns) (simp_all add: tame_def)

lemma demo_database:
  "tame K \<Longrightarrow> databaseLoad K ((Server_new 51717)\<lparr>sv_filesystem := Some demo_fs\<rparr>) w =
     Inr ((True, (Server_new 51717)\<lparr>sv_filesystem := Some demo_fs, sv_database := True\<rparr>), w)"
  by (simp add: databaseLoad_def server_loc_def need_def fileLocalPath_def demo_fs_def tame_def)

lemma demo_add_devices:
  "tame K \<Longrightarrow> sv_devices s = [] \<Longrightarrow> add_devices K s w = (s\<lparr>sv_devices := demo_devices\<rparr>, w)"
  by (simp add: add_devices_def dev_add_def dev_exists_def dev_get_def dev_getIndex_def Let_def
      tame_def demo_devices_def)

lemma tame_boot:
  assumes "tame K" "\<And>w. px_fork K w = (r, w)" "\<And>w. px_getpid K w = p"
  shows "0 < r \<Longrightarrow> boot K demo_fs (Some init_path) (Server_new 51717) [] =
     Inr ((Handled True, demo_daemon), [CallDlopen ''./container//sys/init''])"
    "r = 0 \<Longrightarrow> p = 7 \<Longrightarrow> boot K demo_fs (Some init_path) (Server_new 51717) [] =
     Inr ((Entered demo_init, demo_server), [CallDlopen ''./container//sys/init''])"
proof -
  have K: "\<And>n w. px_malloc K n w = (True, w)" "\<And>p w. fst (px_dlopen K p w) = Some 1"
    "\<And>h s w. px_dlsym K h s w = Some 2" "\<And>p w. px_dlopen K p w = (Some 1, w @ [CallDlopen p])"
    "\<And>w. px_socket K w = (5, w)" "\<And>fd p w. px_bind K fd p w = (0, w)" "\<And>fd w. px_listen K fd w = (0, w)"
    using assms(1) by (simp_all add: tame_def)
  note ld = demo_loaded [OF K(1-3)] K(1,4-7)
  note steps = demo_database [OF assms(1)] demo_add_devices [OF assms(1)] tame_mallocs [OF assms(1)] assms(2,3)
  note defs = processAdd_def processRun_def vrun_def arun_def c_int_small upd_proc_def tcpListen_def Let_def
    FD_SET_def fd_in_range_def FD_SETSIZE_def
  show "boot K demo_fs (Some init_path) (Server_new 51717) [] =
     Inr ((Handled True, demo_daemon), [CallDlopen ''./container//sys/init''])" if "0 < r"
    using that by (simp add: boot_def steps ld defs) (simp add: demo_daemon_def demo_defs ld steps defs)
  show "boot K demo_fs (Some init_path) (Server_new 51717) [] =
     Inr ((Entered demo_init, demo_server), [CallDlopen ''./container//sys/init''])" if "r = 0" "p = 7"
    using that by (simp add: boot_def steps ld defs) (simp add: demo_defs ld steps defs)
qed

lemma demo_boot:
  "boot (as_fork 10 7 (demo_os 0 0)) demo_fs (Some init_path) (Server_new 51717) [] =
     Inr ((Handled True, demo_daemon), [CallDlopen ''./container//sys/init''])"
  "boot (as_fork 7 0 (demo_os 0 0)) demo_fs (Some init_path) (Server_new 51717) [] =
     Inr ((Entered demo_init, demo_server), [CallDlopen ''./container//sys/init''])"
  by (rule tame_boot(1) [OF tame_as_fork [OF tame_demo_os], where r = 7 and p = 10]; simp)
    (rule tame_boot(2) [OF tame_as_fork [OF tame_demo_os], where r = 0 and p = 7]; simp)

section \<open>Init with a descriptor of /dev/null, and a shell\<close>

lemmas open_defs = syscall_def need_def fdOpenFdFromPath_def strncmp_eq_def dev_prefix_def
  fdOpenFdFromDevice_def dev_open_def dev_get_def dev_getIndex_def fd_install_def fdCreate_def
  Let_def fdGet_def fd_entry_new_def fdAdd_def slot_put_def upd_proc_def fd_unused_def c_int_def to_s32_def

definition demo_open :: server where
  "demo_open = demo_server\<lparr>sv_procs := [Process_new, demo_init\<lparr>pr_fds := [0]\<rparr>],
     sv_fdEntries := [Some \<lparr>fe_fd = 0, fe_refCount = Some 1, fe_d = FdTypeDevice DeviceNull\<rparr>],
     sv_devices := demo_devices[1 := \<lparr>de_name = ''null'', de_device = DeviceNull, de_refCount = 1\<rparr>]\<rparr>"

lemma demo_open_call:
  "syscall (demo_os 0 7) 1 (SysOpen (Some ''/dev/null'') 0 0) demo_server w = Inr ((Ret 0, demo_open), w)"
  by (simp add: demo_open_def demo_defs open_defs)

lemma demo_caller: "callerPID demo_server 7 = Some 1"
  by (simp add: callerPID_def demo_defs Let_def)

lemma demo_open_inv: "server_inv demo_open"
  by (rule server_inv_syscall [OF demo_server_inv demo_room _ demo_open_call [of "[]"]])
    (simp add: demo_server_def demo_init_def)

lemma demo_open_room: "room demo_open"
  by (simp add: room_def demo_open_def)

lemma demo_open_fields:
  "sv_procs demo_open = [Process_new, demo_init\<lparr>pr_fds := [0]\<rparr>]"
  "sv_fdEntries demo_open = [Some \<lparr>fe_fd = 0, fe_refCount = Some 1, fe_d = FdTypeDevice DeviceNull\<rparr>]"
  by (simp_all add: demo_open_def)

lemma demo_open_slot: "fd_slot demo_open 1 0 = Some 0"
  by (simp add: fd_slot_def vec_look_def demo_open_def)

definition demo_two :: server where
  "demo_two = demo_open\<lparr>sv_procs := sv_procs demo_open @ [demo_shell]\<rparr>"

lemma demo_two_inv: "server_inv demo_two"
  unfolding demo_two_def
  by (rule server_inv_push [OF demo_open_inv demo_proc_wf(2)]) (simp add: demo_shell_def demo_init_def)

lemma demo_two_room: "room demo_two"
  by (simp add: room_def demo_two_def demo_open_def)

section \<open>The system of daemon and init\<close>

definition demo_system :: "os_call list system" where
  "demo_system = \<lparr>sy_daemon = 10, sy_nodes = [10 \<mapsto> demo_daemon, 7 \<mapsto> demo_server],
     sy_world = [CallDlopen ''./container//sys/init'']\<rparr>"

definition demo_system2 :: "os_call list system" where
  "demo_system2 = demo_system\<lparr>sy_nodes := (sy_nodes demo_system)(7 \<mapsto> demo_open),
     sy_world := sy_world demo_system\<rparr>"

lemma demo_reach: "reach (demo_os 0 0) demo_fs (Some init_path) 51717 demo_system"
  unfolding demo_system_def
  by (rule reach.boot [where w = "[]", OF _ _ _ demo_boot]) (simp_all add: is_pid_def)

lemma as_proc_demo_os: "as_proc p (demo_os f q) = demo_os f p"
  by (simp add: as_proc_def demo_os_def)

lemma demo_getpid: "px_getpid (demo_os f p) w = p"
  by (simp add: demo_os_def)

lemma demo_reach2: "reach (demo_os 0 0) demo_fs (Some init_path) 51717 demo_system2"
proof (rule reach.step [OF demo_reach])
  show "roomy demo_system"
    by (auto simp: roomy_def room_def demo_system_def demo_daemon_def demo_server_def Server_new_def split: if_splits)
  show "sys_step (demo_os 0 0) demo_system demo_system2"
    unfolding demo_system2_def
    by (rule sys_step.call [where s = demo_server and req = "SysOpen (Some ''/dev/null'') 0 0" and r = "Ret 0"])
      (simp_all add: demo_system_def serverSysCall_def demo_caller as_proc_demo_os demo_open_call [simplified] demo_getpid)
qed

lemma demo_roomy2: "roomy demo_system2"
  by (auto simp: roomy_def room_def demo_system2_def demo_system_def demo_daemon_def demo_open_def demo_server_def
      Server_new_def split: if_splits)

section \<open>Both sides of a fork of init\<close>

definition demo_fork :: "server \<Rightarrow> int \<Rightarrow> server" where
  \<comment> \<open>the copy after a fork of init, with that POSIX pid in the new process\<close>
  "demo_fork s i = s\<lparr>sv_procs := sv_procs s @ [demo_init\<lparr>pr_posixPID := i\<rparr>]\<rparr>"

lemma demo_forkCopy: "forkCopy (demo_os 0 7) demo_init w =
    Inr (Some (demo_init\<lparr>pr_posixPID := -1\<rparr>), w @ [CallDlopen ''./container//sys/init''])"
  by (simp add: forkCopy_def info_args_def fork_strings_def fork_load_def restart_child_def need_def setEnviron_def Let_def
      demo_init_def Process_new_def demo_os_def)

lemma demo_forks:
  "processFork (as_fork 7 9 (demo_os 0 7)) 1 demo_server [] =
     Inr ((2, demo_fork demo_server (-1)), [CallDlopen ''./container//sys/init''])"
  "processFork (as_fork 9 0 (demo_os 0 7)) 1 demo_server [] =
     Inr ((0, demo_fork demo_server 9), [CallDlopen ''./container//sys/init''])"
  by (simp_all add: processFork_def demo_running(1) demo_forkCopy Let_def demo_fork_def upd_proc_def c_int_small)

section \<open>A daemon with clients\<close>

definition demo_socket :: "int \<Rightarrow> socket" where
  "demo_socket fd = \<lparr>sk_dir = DirectionInOut, sk_type = TypeTcp, sk_state = StateServer, sk_sockFd = Some fd\<rparr>"

definition demo_clients :: "nat \<Rightarrow> server" where
  \<comment> \<open>with that many clients, on the descriptors from 6\<close>
  "demo_clients n = demo_daemon\<lparr>sv_sockets := map (\<lambda>i. demo_socket (int i + 6)) [0 ..< n],
     sv_connections := map Connection_new [0 ..< n], sv_fdSetActive := map (\<lambda>i. int i + 5) [0 ..< Suc n]\<rparr>"

definition tcp_os :: "int list \<Rightarrow> string \<Rightarrow> os_call list posix" where
  \<comment> \<open>select finds these descriptors, and each of them reads these bytes\<close>
  "tcp_os ready bs = (demo_os 1 10)\<lparr>px_fork := (\<lambda>w. (1, w)), px_select := (\<lambda>fds w. (Some ready, w)),
     px_read := (\<lambda>fd n w. ((int (length bs), bs), w))\<rparr>"

lemma demo_clients_con:
  "i < n \<Longrightarrow> n < 1000 \<Longrightarrow> con_fd (demo_clients n) (Connection_new i) (int i + 6)"
  by (simp add: con_fd_def demo_clients_def Connection_new_def demo_socket_def fd_in_range_def FD_SETSIZE_def)

lemma demo_clients_polls: "5 \<notin> set ready \<Longrightarrow> polls (tcp_os ready bs) (demo_clients n) w ready w"
  by (simp add: polls_def tcp_os_def demo_clients_def demo_daemon_def fd_in_range_def FD_SETSIZE_def)

end
