(* ===== verification/UserLib.thy ===== *)
theory UserLib
  imports SysResults
begin

text \<open>
  The C library of the platform's programs (\<^verbatim>\<open>src/stdlib\<close>): \<^verbatim>\<open>syscall.c\<close> passes each request
  to the server through the function pointer a program is started with, \<^verbatim>\<open>sys.c\<close> and
  \<^verbatim>\<open>stdlib.c\<close> wrap the requests in the functions of POSIX and of the C library. A program runs
  in a POSIX process that has its own copy of the server, so a call of the library is a
  function of that copy and the world, \<open>ucall\<close>: it comes \<open>Back\<close> with a result, or it is
  \<open>Gone\<close> because the process exited or entered another program. A \<^verbatim>\<open>ret\<close> the server did not
  write is read uninitialised, which is a fault.
\<close>

section \<open>Calls that may not come back\<close>

datatype 'a ures = Back 'a | Gone reply

type_synonym ('a, 'w) ucall = "server \<Rightarrow> 'w \<Rightarrow> fault + (('a ures \<times> server) \<times> 'w)"

definition u_return :: "'a \<Rightarrow> ('a, 'w) ucall" where
  "u_return x s w = Inr ((Back x, s), w)"

definition u_check :: "fault + 'a \<Rightarrow> ('a, 'w) ucall" where
  "u_check r s w = and_then r (\<lambda>x. Inr ((Back x, s), w))"

definition u_bind :: "('a, 'w) ucall \<Rightarrow> ('a \<Rightarrow> ('b, 'w) ucall) \<Rightarrow> ('b, 'w) ucall" where
  "u_bind m f s w =
     and_then (m s w) (\<lambda>((b, s'), w'). case b of Back x \<Rightarrow> f x s' w' | Gone r \<Rightarrow> Inr ((Gone r, s'), w'))"

lemma u_bind_return [simp]: "u_bind (u_return x) f = f x"
  by (simp add: fun_eq_iff u_bind_def u_return_def)

lemma u_bind_check [simp]: "u_bind (u_check (Inr x)) f = f x"
  by (simp add: fun_eq_iff u_bind_def u_check_def)

lemma u_bind_Back: "m s w = Inr ((Back x, s'), w') \<Longrightarrow> u_bind m f s w = f x s' w'"
  by (simp add: u_bind_def)

lemma u_bind_Gone: "m s w = Inr ((Gone r, s'), w') \<Longrightarrow> u_bind m f s w = Inr ((Gone r, s'), w')"
  by (simp add: u_bind_def)

lemma u_bind_Inl: "m s w = Inl e \<Longrightarrow> u_bind m f s w = Inl e"
  by (simp add: u_bind_def)

lemma u_bind_assoc: "u_bind (u_bind m f) g = u_bind m (\<lambda>x. u_bind (f x) g)"
proof (intro ext)
  fix s w
  show "u_bind (u_bind m f) g s w = u_bind m (\<lambda>x. u_bind (f x) g) s w"
    by (cases "m s w" rule: result_cases) (auto simp: u_bind_def split: ures.splits)
qed

lemma u_call_cases:
  obtains (fault) e where "r = Inl e"
    | (ok) x s' w' where "r = Inr ((Back x, s'), w')"
    | (gone) g s' w' where "r = Inr ((Gone g, s'), w')"
  by (metis ures.exhaust result_cases)

text \<open>
  A run that need not end: \<open>u_loop turn\<close> repeats a turn, with the state it hands on as
  \<open>Inl\<close>, until a turn yields the result as \<open>Inr\<close>; not ending is the value \<open>None\<close>.
\<close>

type_synonym ('a, 'w) urun = "server \<Rightarrow> 'w \<Rightarrow> (fault + (('a ures \<times> server) \<times> 'w)) option"

definition r_lift :: "('a, 'w) ucall \<Rightarrow> ('a, 'w) urun" where
  "r_lift m s w = Some (m s w)"

definition r_bind :: "('a, 'w) urun \<Rightarrow> ('a \<Rightarrow> ('b, 'w) urun) \<Rightarrow> ('b, 'w) urun" where
  "r_bind m f s w =
     (case m s w of
        None \<Rightarrow> None
      | Some (Inl e) \<Rightarrow> Some (Inl e)
      | Some (Inr ((Back x, s'), w')) \<Rightarrow> f x s' w'
      | Some (Inr ((Gone g, s'), w')) \<Rightarrow> Some (Inr ((Gone g, s'), w')))"

partial_function (option) u_loop :: "('st \<Rightarrow> ('st + 'a, 'w) ucall) \<Rightarrow> 'st \<Rightarrow> ('a, 'w) urun" where
  "u_loop turn st s w =
     (case turn st s w of
        Inl e \<Rightarrow> Some (Inl e)
      | Inr r \<Rightarrow>
          (case fst (fst r) of
             Gone g \<Rightarrow> Some (Inr ((Gone g, snd (fst r)), snd r))
           | Back y \<Rightarrow>
               (case y of
                  Inl st' \<Rightarrow> u_loop turn st' (snd (fst r)) (snd r)
                | Inr a \<Rightarrow> Some (Inr ((Back a, snd (fst r)), snd r)))))"

lemma u_loop_turn:
  "turn x s w = Inr ((Back (Inl x'), s'), w') \<Longrightarrow> u_loop turn x s w = u_loop turn x' s' w'"
  by (subst u_loop.simps) simp

lemma u_loop_end:
  "turn x s w = Inr ((Back (Inr a), s'), w') \<Longrightarrow> u_loop turn x s w = Some (Inr ((Back a, s'), w'))"
  by (subst u_loop.simps) simp

text \<open>
  The functions of the host's C library that the platform does not wrap: setenv, which
  changes the host's environment and not the one getenv of the platform reads, and printf.
  \<open>lc_stack\<close> is what an array holds that was never written.
\<close>

record 'w libc =
  lc_setenv :: "string \<Rightarrow> string \<Rightarrow> 'w \<Rightarrow> 'w"
  lc_print :: "string \<Rightarrow> 'w \<Rightarrow> 'w"
  lc_stack :: string

definition u_world :: "('w \<Rightarrow> 'w) \<Rightarrow> (unit, 'w) ucall" where
  "u_world f s w = Inr ((Back (), s), f w)"

section \<open>The requests\<close>

definition sys_call :: "'w posix \<Rightarrow> sysreq \<Rightarrow> (reply, 'w) ucall" where
  "sys_call K req s w =
     and_then (serverSysCall K req s w) (\<lambda>((r, s'), w').
       Inr ((case r of Exits c \<Rightarrow> Gone r | Enters q \<Rightarrow> Gone r | _ \<Rightarrow> Back r, s'), w'))"

definition ret_int :: "reply \<Rightarrow> fault + int" where
  "ret_int r = (case r of Ret i \<Rightarrow> Inr i | RetData i bs \<Rightarrow> Inr i | _ \<Rightarrow> Inl UninitRead)"

definition ret_data :: "reply \<Rightarrow> string" where
  \<comment> \<open>the bytes stored in the buffer of the caller\<close>
  "ret_data r = (case r of RetData i bs \<Rightarrow> bs | _ \<Rightarrow> [])"

definition ret_ptr :: "reply \<Rightarrow> fault + nat option" where
  "ret_ptr r = (case r of RetPtr p \<Rightarrow> Inr p | _ \<Rightarrow> Inl UninitRead)"

definition sys_exit :: "'w posix \<Rightarrow> int \<Rightarrow> (unit, 'w) ucall" where
  "sys_exit K status = u_bind (sys_call K (SysExit (to_u32 status))) (\<lambda>_. u_return ())"

definition sys_fork :: "'w posix \<Rightarrow> (int, 'w) ucall" where
  "sys_fork K = u_bind (sys_call K SysFork) (\<lambda>r. u_check (and_then (ret_int r) (\<lambda>i. Inr (to_u32 i))))"

definition sys_getpid :: "'w posix \<Rightarrow> (int, 'w) ucall" where
  "sys_getpid K = u_bind (sys_call K SysGetPid) (\<lambda>r. u_check (and_then (ret_int r) (\<lambda>i. Inr (to_u32 i))))"

definition sys_alloc :: "'w posix \<Rightarrow> nat option \<Rightarrow> nat \<Rightarrow> (nat option, 'w) ucall" where
  "sys_alloc K ptr n = u_bind (sys_call K (SysAlloc ptr n)) (\<lambda>r. u_check (ret_ptr r))"

definition sys_exec :: "'w posix \<Rightarrow> string option \<Rightarrow> string list \<Rightarrow> (unit, 'w) ucall" where
  "sys_exec K pth argv = u_bind (sys_call K (SysExec pth argv)) (\<lambda>_. u_return ())"

definition sys_chdir :: "'w posix \<Rightarrow> string option \<Rightarrow> (int, 'w) ucall" where
  "sys_chdir K pth = u_bind (sys_call K (SysChDir pth)) (\<lambda>r. u_check (ret_int r))"

definition sys_getcwd :: "'w posix \<Rightarrow> bool \<Rightarrow> int \<Rightarrow> (int \<times> string, 'w) ucall" where
  "sys_getcwd K buf n =
     u_bind (sys_call K (SysGetCwd buf (nat (to_u32 n)))) (\<lambda>r.
       u_check (and_then (ret_int r) (\<lambda>i. Inr (to_u32 i, ret_data r))))"

definition sys_read :: "'w posix \<Rightarrow> int \<Rightarrow> bool \<Rightarrow> int \<Rightarrow> (int \<times> string, 'w) ucall" where
  "sys_read K fd buf count =
     u_bind (sys_call K (SysRead fd buf (nat (to_u32 count)))) (\<lambda>r.
       u_check (and_then (ret_int r) (\<lambda>i. Inr (i, ret_data r))))"

definition sys_write :: "'w posix \<Rightarrow> int \<Rightarrow> string \<Rightarrow> int \<Rightarrow> (int, 'w) ucall" where
  "sys_write K fd buf count =
     u_bind (sys_call K (SysWrite fd (take (nat (to_u32 count)) buf))) (\<lambda>r. u_check (ret_int r))"

definition sys_open :: "'w posix \<Rightarrow> string option \<Rightarrow> int \<Rightarrow> int \<Rightarrow> (int, 'w) ucall" where
  "sys_open K pathname flags mode =
     u_bind (sys_call K (SysOpen pathname (to_u32 flags) (to_u32 mode))) (\<lambda>r. u_check (ret_int r))"

definition sys_close :: "'w posix \<Rightarrow> int \<Rightarrow> (int, 'w) ucall" where
  "sys_close K fd = u_bind (sys_call K (SysClose fd)) (\<lambda>r. u_check (ret_int r))"

section \<open>Memory\<close>

text \<open>A \<^verbatim>\<open>size_t\<close> is a 64-bit word; the product of calloc wraps.\<close>

definition wrap_realloc :: "'w posix \<Rightarrow> nat option \<Rightarrow> 64 word \<Rightarrow> (nat option, 'w) ucall" where
  "wrap_realloc K ptr n = sys_alloc K ptr (unat n)"

definition wrap_malloc :: "'w posix \<Rightarrow> 64 word \<Rightarrow> (nat option, 'w) ucall" where
  "wrap_malloc K n = wrap_realloc K None n"

definition wrap_free :: "'w posix \<Rightarrow> nat option \<Rightarrow> (unit, 'w) ucall" where
  "wrap_free K ptr = u_bind (wrap_realloc K ptr 0) (\<lambda>_. u_return ())"

definition wrap_calloc :: "'w posix \<Rightarrow> 64 word \<Rightarrow> 64 word \<Rightarrow> ((nat \<times> string) option, 'w) ucall" where
  \<comment> \<open>the block with its contents\<close>
  "wrap_calloc K nmemb n =
     u_bind (wrap_realloc K None (nmemb * n)) (\<lambda>p. u_return
       (case p of None \<Rightarrow> None | Some q \<Rightarrow> Some (q, replicate (unat (nmemb * n)) NUL)))"

section \<open>Processes and files\<close>

definition wrap_fork :: "'w posix \<Rightarrow> (int, 'w) ucall" where
  "wrap_fork K = u_bind (sys_fork K) (\<lambda>r. u_return (to_s32 r))"

definition wrap_getpid :: "'w posix \<Rightarrow> (int, 'w) ucall" where
  "wrap_getpid K = u_bind (sys_getpid K) (\<lambda>r. u_return (to_s32 r))"

definition wrap_chdir :: "'w posix \<Rightarrow> string option \<Rightarrow> (int, 'w) ucall" where
  "wrap_chdir K pth = sys_chdir K pth"

definition wrap_getcwd :: "'w posix \<Rightarrow> string option \<Rightarrow> int \<Rightarrow> (bool \<times> string option, 'w) ucall" where
  \<comment> \<open>whether it returns the buffer, and what the buffer (not NULL) holds then\<close>
  "wrap_getcwd K buf n =
     (case buf of
        None \<Rightarrow> u_return (False, None)
      | Some b \<Rightarrow>
          if n = 0 then u_return (False, Some b)
          else u_bind (sys_getcwd K True n) (\<lambda>(trueSize, bs).
            let b' = bs @ drop (length bs) b
            in if trueSize > n then u_return (False, Some b') else u_return (True, Some b')))"

definition wrap_read :: "'w posix \<Rightarrow> int \<Rightarrow> bool \<Rightarrow> int \<Rightarrow> (int \<times> string, 'w) ucall" where
  "wrap_read K fd buf count = sys_read K fd buf count"

definition wrap_write :: "'w posix \<Rightarrow> int \<Rightarrow> string \<Rightarrow> int \<Rightarrow> (int, 'w) ucall" where
  "wrap_write K fd buf count = sys_write K fd buf count"

definition wrap_open :: "'w posix \<Rightarrow> string option \<Rightarrow> int \<Rightarrow> int \<Rightarrow> (int, 'w) ucall" where
  "wrap_open K pathname flags mode = sys_open K pathname flags mode"

definition wrap_close :: "'w posix \<Rightarrow> int \<Rightarrow> (int, 'w) ucall" where
  "wrap_close K fd = sys_close K fd"

text \<open>The copies of arguments: the blocks got so far, and whether all were.\<close>

fun copy_args :: "'w posix \<Rightarrow> string list \<Rightarrow> nat list \<Rightarrow> (bool \<times> nat list, 'w) ucall" where
  "copy_args K [] ps = u_return (True, ps)"
| "copy_args K (a # as) ps =
     u_bind (wrap_malloc K (of_nat (cstr_size a))) (\<lambda>p.
       case p of None \<Rightarrow> u_return (False, ps) | Some q \<Rightarrow> copy_args K as (ps @ [q]))"

fun free_all :: "'w posix \<Rightarrow> nat list \<Rightarrow> (unit, 'w) ucall" where
  "free_all K [] = u_return ()"
| "free_all K (p # ps) = u_bind (wrap_free K (Some p)) (\<lambda>_. free_all K ps)"

definition wrap_execv :: "'w posix \<Rightarrow> string option \<Rightarrow> string list \<Rightarrow> (int, 'w) ucall" where
  "wrap_execv K pth gargv =
     u_bind (wrap_malloc K (of_nat (8 * length gargv))) (\<lambda>argv.
       case argv of
         None \<Rightarrow> u_return (-1)
       | Some av \<Rightarrow>
           u_bind (copy_args K gargv []) (\<lambda>(ok, ps).
             if \<not> ok then u_bind (free_all K ps) (\<lambda>_. u_bind (wrap_free K (Some av)) (\<lambda>_. u_return (-1)))
             else u_bind (sys_exec K pth gargv) (\<lambda>_. u_return (-1))))"

definition wrap_execl :: "'w posix \<Rightarrow> string option \<Rightarrow> string \<Rightarrow> string list \<Rightarrow> (int, 'w) ucall" where
  "wrap_execl K pth arg rest =
     (let args = arg # rest
      in u_bind (wrap_malloc K (of_nat (8 * (length args + 1)))) (\<lambda>argv.
        case argv of
          None \<Rightarrow> u_return (-1)
        | Some av \<Rightarrow>
            u_bind (copy_args K args []) (\<lambda>(ok, ps).
              if \<not> ok then u_bind (free_all K ps) (\<lambda>_. u_bind (wrap_free K (Some av)) (\<lambda>_. u_return (-1)))
              else u_bind (wrap_execv K pth args) (\<lambda>ret.
                u_bind (free_all K ps) (\<lambda>_. u_bind (wrap_free K (Some av)) (\<lambda>_. u_return ret))))))"

section \<open>The rest of stdlib.c\<close>

definition wrap_exit :: "'w posix \<Rightarrow> int \<Rightarrow> (unit, 'w) ucall" where
  "wrap_exit K status = sys_exit K status"

definition wrap_abort :: "'w posix \<Rightarrow> (unit, 'w) ucall" where
  "wrap_abort K = wrap_exit K 1"

definition wrap_atexit :: int where
  "wrap_atexit = -1"

definition wrap_system :: "string option \<Rightarrow> int" where
  "wrap_system command = 0"

text \<open>\<open>env\<close> is \<^verbatim>\<open>Denviron\<close>, the vector the server passed to \<^verbatim>\<open>_start\<close>.\<close>

definition env_matches :: "string \<Rightarrow> string \<Rightarrow> bool" where
  "env_matches name e \<longleftrightarrow>
     strncmp_eq e name (length name) \<and> length name < length e \<and> e ! length name = CHR ''=''"

definition wrap_getenv :: "string list option \<Rightarrow> string \<Rightarrow> string option" where
  "wrap_getenv env name =
     (case env of
        None \<Rightarrow> None
      | Some es \<Rightarrow>
          (let i = slot_index (env_matches name) es
           in if i < length es then Some (drop (length name + 1) (es ! i)) else None))"

text \<open>
  \<^verbatim>\<open>sys_init\<close> keeps the pointer every request goes through: without it the requests of the
  program, at the latest the one of exit, jump to NULL. The model looks at it before the program.
\<close>

definition sys_init :: "process \<Rightarrow> fault + unit" where
  "sys_init info = (if pr_syscall info then Inr () else Inl NullDeref)"

text \<open>
  \<^verbatim>\<open>_start\<close>: the entry point of a program. \<open>prog\<close> is the program's \<^verbatim>\<open>main\<close>, given the
  environment the library keeps and the arguments.
\<close>

definition start_program ::
    "'w posix \<Rightarrow> (string list option \<Rightarrow> string list \<Rightarrow> (int, 'w) ucall) \<Rightarrow> process \<Rightarrow> (unit, 'w) ucall" where
  "start_program K prog info =
     u_bind (u_check (sys_init info)) (\<lambda>_.
       u_bind (u_check (info_args info)) (\<lambda>args.
         u_bind (prog (pr_info_environ info) args) (\<lambda>status. wrap_exit K status)))"

definition restart_program :: "process \<Rightarrow> fault + string list option" where
  \<comment> \<open>\<^verbatim>\<open>_restart\<close>: the environment from then on\<close>
  "restart_program info = and_then (sys_init info) (\<lambda>_. Inr (pr_info_environ info))"

end
