(* ===== verification/ShellPath.thy ===== *)
theory ShellPath
  imports UserLib
begin

text \<open>
  The paths of the shell (\<^verbatim>\<open>src/programs/shell/src/shell.c\<close>: shellPathReduce,
  shellPathAbsolute, shellPathDisplay). The functions edit a path in its buffer; here the
  buffer is the string it holds, with a pointer where the block is passed on, and a store
  or read outside the block is a fault. \<open>env\<close> is the environment getenv looks at.
\<close>

section \<open>Reducing\<close>

abbreviation slash :: char where
  "slash \<equiv> CHR ''/''"

text \<open>
  The scan over the positions of the path: at the start of a run of slashes the rest of
  the string is moved down so that one slash of the run remains.
\<close>

definition slash_run :: "string \<Rightarrow> nat" where
  "slash_run p = length (takeWhile (\<lambda>c. c = slash) p)"

function reduce_slashes :: "nat \<Rightarrow> string \<Rightarrow> string" where
  "reduce_slashes s p =
     (if s < length p then
        (let k = slash_run (drop s p)
         in if k = 0 then reduce_slashes (s + 1) p
            else reduce_slashes (s + 1) (take s p @ drop (s + k - 1) p))
      else p)"
  by pat_completeness auto

lemma slash_run_le: "slash_run p \<le> length p"
  by (simp add: slash_run_def length_takeWhile_le)

termination reduce_slashes
  by (relation "measure (\<lambda>(s, p). length p - s)") auto

declare reduce_slashes.simps [simp del]

text \<open>The end of a turn, which reads the last character: before the buffer for an empty path.\<close>

definition reduce_end :: "string \<Rightarrow> fault + string" where
  "reduce_end p =
     (if p = [] then Inl OutOfBounds
      else if p \<noteq> ''/'' \<and> last p = slash then Inr (butlast p)
      else Inr p)"

text \<open>What a turn does to the length, for the termination of the loop.\<close>

lemma length_reduce_slashes: "length (reduce_slashes s p) \<le> length p"
proof (induction s p rule: reduce_slashes.induct)
  case (1 s p)
  show ?case
    using 1 slash_run_le [of "drop s p"]
    by (subst reduce_slashes.simps) (auto simp: Let_def intro: order_trans)
qed

lemma length_reduce_end: "reduce_end p = Inr q \<Longrightarrow> length q \<le> length p"
  by (auto simp: reduce_end_def split: if_splits)

function shellPathReduce :: "string \<Rightarrow> fault + string" where
  "shellPathReduce path =
     (case reduce_end (reduce_slashes 0 path) of
        Inl e \<Rightarrow> Inl e
      | Inr q \<Rightarrow> if length q \<noteq> length path then shellPathReduce q else Inr q)"
  by pat_completeness auto

termination shellPathReduce
proof (relation "measure length", simp)
  fix path q
  assume "reduce_end (reduce_slashes 0 path) = Inr q" "length q \<noteq> length path"
  moreover have "length (reduce_slashes 0 path) \<le> length path" by (rule length_reduce_slashes)
  ultimately show "(q, path) \<in> measure length" using length_reduce_end by fastforce
qed

declare shellPathReduce.simps [simp del]

section \<open>Absolute paths and their display\<close>

definition HOME :: string where
  "HOME = ''HOME''"

definition path_block :: "'w posix \<Rightarrow> string \<Rightarrow> string \<Rightarrow> ((nat \<times> string) option, 'w) ucall" where
  \<comment> \<open>the new block, with what was put before the path, reduced\<close>
  "path_block K before path =
     u_bind (wrap_malloc K (of_nat (length before + length path + 1))) (\<lambda>str.
       case str of
         None \<Rightarrow> u_return None
       | Some q \<Rightarrow> u_bind (u_check (shellPathReduce (before @ path))) (\<lambda>t. u_return (Some (q, t))))"

definition shellPathAbsolute ::
    "'w posix \<Rightarrow> string list option \<Rightarrow> string option \<Rightarrow> ((nat \<times> string) option, 'w) ucall" where
  "shellPathAbsolute K env path =
     (case path of
        None \<Rightarrow> u_return None
      | Some p \<Rightarrow>
          if p \<noteq> [] \<and> hd p = CHR ''~'' then
            (case wrap_getenv env HOME of
               None \<Rightarrow> u_return None
             | Some home \<Rightarrow> path_block K (home @ ''/'') (tl p))
          else path_block K [] p)"

definition home_display ::
    "'w posix \<Rightarrow> string \<Rightarrow> nat \<Rightarrow> string \<Rightarrow> ((nat \<times> string) option, 'w) ucall" where
  \<comment> \<open>the replacement of the home directory in the block \<open>str\<close>, which realloc may have moved. The
      count of the memmove wraps for a home directory longer than the path; when it is 0 the first
      two characters are overwritten, and for a path of one character these include its
      terminator (what is left behind it is not kept here, so that is a fault)\<close>
  "home_display K home str s =
     u_bind (wrap_realloc K (Some str) (of_nat (length s + 2))) (\<lambda>temp.
       case temp of
         None \<Rightarrow> u_bind (wrap_free K (Some str)) (\<lambda>_. u_return None)
       | Some t \<Rightarrow>
           if t \<noteq> str then u_check (Inl UseAfterFree)
           else if length home = 0 \<or> length s + 1 < length home then u_check (Inl OutOfBounds)
           else if length s + 1 = length home \<and> length s < 2 then u_check (Inl UninitRead)
           else u_bind (u_check (shellPathReduce
               (''~/'' @ drop (if length s + 1 = length home then 2 else length home) s)))
             (\<lambda>d. u_return (Some (str, d))))"

definition shellPathDisplay ::
    "'w posix \<Rightarrow> string list option \<Rightarrow> string option \<Rightarrow> ((nat \<times> string) option, 'w) ucall" where
  "shellPathDisplay K env path =
     u_bind (shellPathAbsolute K env path) (\<lambda>r.
       case r of
         None \<Rightarrow> u_return None
       | Some (str, s) \<Rightarrow>
           (case wrap_getenv env HOME of
              None \<Rightarrow> u_return (Some (str, s))
            | Some home \<Rightarrow>
                if strncmp_eq (the path) home (length home) then home_display K home str s
                else u_bind (u_check (shellPathReduce s)) (\<lambda>d. u_return (Some (str, d)))))"

end
