(* ===== verification/Shell.thy ===== *)
theory Shell
  imports ShellPath
begin

text \<open>
  The shell of a terminal (\<^verbatim>\<open>src/programs/shell/src/shell.c\<close>): its commands, the parsing of a
  line and the input loop, over the library of the platform and the functions \<open>libc\<close> of the
  host. A descriptor -1 for the output means that nothing is written.
\<close>

definition LINESIZE :: int where
  "LINESIZE = 64 * 1024"

definition O_RDWR :: int where
  "O_RDWR = 2"

section \<open>Commands\<close>

definition set_pwd :: "'w libc \<Rightarrow> bool \<times> string option \<Rightarrow> (unit, 'w) ucall" where
  \<comment> \<open>\<^verbatim>\<open>if (getcwd(line, LINESIZE)!=NULL) setenv("PWD", line, 1)\<close>\<close>
  "set_pwd L r =
     (case r of
        (True, Some b) \<Rightarrow> u_world (lc_setenv L ''PWD'' (c_str b))
      | _ \<Rightarrow> u_return ())"

definition shellCd ::
    "'w posix \<Rightarrow> 'w libc \<Rightarrow> string list option \<Rightarrow> string \<Rightarrow> (unit, 'w) ucall" where
  "shellCd K L env save =
     (case strtok_r save '' '' of (gpath, _) \<Rightarrow>
        u_bind (shellPathAbsolute K env gpath) (\<lambda>r.
          case r of
            None \<Rightarrow> u_return ()
          | Some (str, path) \<Rightarrow>
              u_bind (wrap_chdir K (Some path)) (\<lambda>c.
                if c \<noteq> 0 then wrap_free K (Some str)
                else u_bind (wrap_getcwd K (Some (lc_stack L)) LINESIZE) (\<lambda>line.
                  u_bind (set_pwd L line) (\<lambda>_. wrap_free K (Some str))))))"

definition shellExport :: "'w libc \<Rightarrow> string \<Rightarrow> (unit, 'w) ucall" where
  "shellExport L save =
     (case strtok_r save '' '' of
        (None, _) \<Rightarrow> u_check (Inl NullDeref)
      | (Some str, _) \<Rightarrow>
          (case strchr str (CHR ''='') of
             None \<Rightarrow> u_return ()
           | Some i \<Rightarrow> u_world (lc_setenv L (take i str) (drop (Suc i) str))))"

definition strip_comment :: "string \<Rightarrow> string" where
  "strip_comment line = (case strchr line (CHR ''#'') of None \<Rightarrow> line | Some i \<Rightarrow> take i line)"

definition not_found :: string where
  "not_found = '': Command not found.'' @ [CHR 0x0A]"

definition shellParseLine ::
    "'w posix \<Rightarrow> 'w libc \<Rightarrow> string list option \<Rightarrow> int \<Rightarrow> string \<Rightarrow> (unit, 'w) ucall" where
  "shellParseLine K L env fdOut line =
     (let l1 = strip_comment line
      in if l1 = [] then u_check (Inl OutOfBounds)
         else let l2 = (if last l1 = CHR 0x0A then butlast l1 else l1)
         in if l2 = [] then u_return ()
            else case strtok_r l2 '' '' of
              (None, _) \<Rightarrow> u_return ()
            | (Some part, save) \<Rightarrow>
                if part = ''cd'' then shellCd K L env save
                else if part = ''export'' then shellExport L save
                else if fdOut \<noteq> -1 then
                  (let shown = takeWhile (\<lambda>c. c = CHR '' '') l2 @ part
                   in u_bind (wrap_write K fdOut shown (int (length shown))) (\<lambda>_.
                     u_bind (wrap_write K fdOut not_found (int (length not_found))) (\<lambda>_. u_return ())))
                else u_return ())"

section \<open>The input loop\<close>

definition prompt_text :: string where
  "prompt_text = '' $ ''"

definition shell_prompt ::
    "'w posix \<Rightarrow> string list option \<Rightarrow> int \<Rightarrow> string \<Rightarrow> (string, 'w) ucall" where
  \<comment> \<open>with the line buffer it leaves\<close>
  "shell_prompt K env fdOut b =
     (if fdOut \<noteq> -1 then
        u_bind (wrap_getcwd K (Some b) LINESIZE) (\<lambda>(ok, b1).
          u_bind (shellPathDisplay K env (if ok then map_option c_str b1 else None)) (\<lambda>d.
            u_bind (case d of None \<Rightarrow> u_return 0
                    | Some (str, t) \<Rightarrow> wrap_write K fdOut t (int (length t))) (\<lambda>_.
              u_bind (wrap_write K fdOut prompt_text (int (length prompt_text))) (\<lambda>_.
                u_bind (wrap_free K (map_option fst d)) (\<lambda>_. u_return (the b1))))))
      else u_return b)"

definition parsed_line :: "string \<Rightarrow> string" where
  \<comment> \<open>the string that is left of a line when it has been parsed in its buffer\<close>
  "parsed_line line =
     (let l1 = strip_comment line;
          l2 = (if l1 \<noteq> [] \<and> last l1 = CHR 0x0A then butlast l1 else l1)
      in case strtok_r l2 '' '' of
        (None, _) \<Rightarrow> l2
      | (Some part, _) \<Rightarrow> takeWhile (\<lambda>c. c = CHR '' '') l2 @ part)"

definition store_nul :: "string \<Rightarrow> int \<Rightarrow> fault + string" where
  \<comment> \<open>\<^verbatim>\<open>line[count]='\0'\<close>\<close>
  "store_nul b count = (if 0 \<le> count \<and> nat count < length b then Inr (b[nat count := NUL]) else Inl OutOfBounds)"

definition shell_turn ::
    "'w posix \<Rightarrow> 'w libc \<Rightarrow> string list option \<Rightarrow> int \<Rightarrow> int \<Rightarrow> string \<Rightarrow> (string + unit, 'w) ucall" where
  \<comment> \<open>one turn of the loop: the line buffer, or \<open>Inr\<close> when the loop is left. Of what the
      parser stores in the buffer the first NUL is kept; the bytes behind it are read by none\<close>
  "shell_turn K L env fdIn fdOut b =
     u_bind (shell_prompt K env fdOut b) (\<lambda>b1.
       u_bind (wrap_read K fdIn True (LINESIZE - 1)) (\<lambda>(count, bs).
         if count \<le> 0 then u_return (Inr ())
         else u_bind (u_check (store_nul (bs @ drop (length bs) b1) count)) (\<lambda>b2.
           u_bind (shellParseLine K L env fdOut (c_str b2)) (\<lambda>_.
             u_return (Inl (b2[length (parsed_line (c_str b2)) := NUL]))))))"

definition shell_loop ::
    "'w posix \<Rightarrow> 'w libc \<Rightarrow> string list option \<Rightarrow> int \<Rightarrow> int \<Rightarrow> string \<Rightarrow> (unit, 'w) urun" where
  "shell_loop K L env fdIn fdOut = u_loop (shell_turn K L env fdIn fdOut)"

definition shellRun ::
    "'w posix \<Rightarrow> 'w libc \<Rightarrow> string list option \<Rightarrow> int \<Rightarrow> int \<Rightarrow> (unit, 'w) urun" where
  "shellRun K L env fdIn fdOut =
     r_bind (r_lift (u_bind (wrap_getcwd K (Some (lc_stack L)) LINESIZE) (\<lambda>r.
       u_bind (set_pwd L r) (\<lambda>_. u_return (the (snd r)))))) (\<lambda>b. shell_loop K L env fdIn fdOut b)"

fun shell_files :: "'w posix \<Rightarrow> 'w libc \<Rightarrow> string list option \<Rightarrow> string list \<Rightarrow> (int, 'w) urun" where
  "shell_files K L env [] = r_lift (u_return 0)"
| "shell_files K L env (a # args) =
     r_bind (r_lift (wrap_open K (Some a) O_RDWR 0)) (\<lambda>fd.
       if fd = -1 then shell_files K L env args
       else r_bind (shellRun K L env fd fd) (\<lambda>_.
         r_bind (r_lift (wrap_close K fd)) (\<lambda>_. shell_files K L env args)))"

definition shell_main :: "'w posix \<Rightarrow> 'w libc \<Rightarrow> string list option \<Rightarrow> string list \<Rightarrow> (int, 'w) urun" where
  "shell_main K L env argv = shell_files K L env (drop 1 argv)"

end
