(* ===== verification/Programs.thy ===== *)
theory Programs
  imports Shell
begin

text \<open>
  The small programs of \<^verbatim>\<open>src/programs\<close> but factor: init, true, false, echo, printenv, args,
  yes, cat and rabbits, each as its \<^verbatim>\<open>main\<close> over the library. \<open>Dprintf\<close> and printf are the
  output of the host's C library (\<^verbatim>\<open>src/stdlib/stdio.c\<close> passes the formatted text on, and
  the rest of that file formats nothing and returns 0). A conversion without its argument
  is a fault.
\<close>

section \<open>stdio.c\<close>

definition Dvprintf :: "'w libc \<Rightarrow> string \<Rightarrow> (int, 'w) ucall" where
  "Dvprintf L text = u_bind (u_world (lc_print L text)) (\<lambda>_. u_return (int (length text)))"

definition Dprintf :: "'w libc \<Rightarrow> string \<Rightarrow> (int, 'w) ucall" where
  "Dprintf L text = Dvprintf L text"

text \<open>The others: what they return and the text they store.\<close>

definition Dvfprintf :: "string \<Rightarrow> int" where
  "Dvfprintf text = 0"

definition Dfprintf :: "string \<Rightarrow> int" where
  "Dfprintf text = Dvfprintf text"

definition Dvsprintf :: "string \<Rightarrow> string \<Rightarrow> int \<times> string" where
  "Dvsprintf buf text = (0, buf)"

definition Dsprintf :: "string \<Rightarrow> string \<Rightarrow> int \<times> string" where
  "Dsprintf buf text = Dvsprintf buf text"

definition Dsnprintf :: "string \<Rightarrow> int \<Rightarrow> string \<Rightarrow> int \<times> string" where
  "Dsnprintf buf n text = (0, buf)"

definition Dvsnprintf :: "string \<Rightarrow> int \<Rightarrow> string \<Rightarrow> int \<times> string" where
  "Dvsnprintf buf n text = (0, buf)"

section \<open>Programs that end\<close>

definition newline :: string where
  "newline = [CHR 0x0A]"

definition true_main :: "string list \<Rightarrow> (int, 'w) ucall" where
  "true_main argv = u_return 0"

definition false_main :: "string list \<Rightarrow> (int, 'w) ucall" where
  "false_main argv = u_return 1"

definition init_main :: "'w posix \<Rightarrow> string list \<Rightarrow> (int, 'w) ucall" where
  "init_main K argv = u_bind (wrap_getpid K) (\<lambda>pid. if pid \<noteq> 1 then u_return 1 else u_return 0)"

fun echo_loop :: "'w libc \<Rightarrow> bool \<Rightarrow> string list \<Rightarrow> (unit, 'w) ucall" where
  "echo_loop L space [] = u_return ()"
| "echo_loop L space (a # as) =
     (if a = [] then echo_loop L space as
      else u_bind (if space then u_world (lc_print L '' '') else u_return ()) (\<lambda>_.
        u_bind (u_world (lc_print L a)) (\<lambda>_. echo_loop L True as)))"

definition echo_main :: "'w libc \<Rightarrow> string list \<Rightarrow> (int, 'w) ucall" where
  "echo_main L argv =
     u_bind (echo_loop L False (drop 1 argv)) (\<lambda>_. u_bind (u_world (lc_print L newline)) (\<lambda>_. u_return 0))"

fun print_lines :: "'w libc \<Rightarrow> string \<Rightarrow> string list \<Rightarrow> (unit, 'w) ucall" where
  "print_lines L indent [] = u_return ()"
| "print_lines L indent (a # as) =
     u_bind (Dprintf L (indent @ a @ newline)) (\<lambda>_. print_lines L indent as)"

definition printenv_main :: "'w libc \<Rightarrow> string list option \<Rightarrow> string list \<Rightarrow> (int, 'w) ucall" where
  \<comment> \<open>the loop reads \<^verbatim>\<open>Denviron\<close>, which is NULL for a program without an environment\<close>
  "printenv_main L env argv =
     (case env of
        None \<Rightarrow> u_check (Inl NullDeref)
      | Some es \<Rightarrow> u_bind (print_lines L [] es) (\<lambda>_. u_return 0))"

definition args_main :: "'w posix \<Rightarrow> 'w libc \<Rightarrow> string list \<Rightarrow> (int, 'w) ucall" where
  "args_main K L argv =
     u_bind (wrap_getpid K) (\<lambda>pid.
       u_bind (Dprintf L (''PID='' @ decimal (nat (to_u32 pid)) @ newline)) (\<lambda>_.
         u_bind (Dprintf L (''argc='' @ decimal (length argv) @ '':'' @ newline)) (\<lambda>_.
           u_bind (print_lines L [CHR 0x09] argv) (\<lambda>_. u_return 0))))"

section \<open>Programs with a loop that need not end\<close>

definition yes_turn :: "'w libc \<Rightarrow> string \<Rightarrow> unit \<Rightarrow> (unit + int, 'w) ucall" where
  "yes_turn L str u = u_bind (Dprintf L (str @ newline)) (\<lambda>_. u_return (Inl ()))"

definition yes_main :: "'w libc \<Rightarrow> string list \<Rightarrow> (int, 'w) urun" where
  \<comment> \<open>the usage message has a conversion \<^verbatim>\<open>%s\<close> without an argument\<close>
  "yes_main L argv =
     (if length argv > 2 then r_lift (u_check (Inl UninitRead))
      else u_loop (yes_turn L (if length argv = 2 then argv ! 1 else ''y'')) ())"

definition rabbits_turn :: "'w posix \<Rightarrow> unit \<Rightarrow> (unit + int, 'w) ucall" where
  "rabbits_turn K u = u_bind (wrap_fork K) (\<lambda>_. u_return (Inl ()))"

definition rabbits_main :: "'w posix \<Rightarrow> string list \<Rightarrow> (int, 'w) urun" where
  "rabbits_main K argv = u_loop (rabbits_turn K) ()"

definition BUFSIZE :: int where
  "BUFSIZE = 128"

definition cat_turn :: "'w posix \<Rightarrow> 'w libc \<Rightarrow> int \<Rightarrow> string \<Rightarrow> (string + unit, 'w) ucall" where
  \<comment> \<open>a read into \<open>buf\<close>, printed as the C string it holds\<close>
  "cat_turn K L fd buf =
     u_bind (wrap_read K fd True (BUFSIZE - 1)) (\<lambda>(count, bs).
       let b = bs @ drop (length bs) buf
       in if count > 0 then
            u_bind (u_check (store_nul b count)) (\<lambda>b'.
              u_bind (u_world (lc_print L (c_str b'))) (\<lambda>_. u_return (Inl b')))
          else u_return (Inr ()))"

fun cat_files :: "'w posix \<Rightarrow> 'w libc \<Rightarrow> string list \<Rightarrow> (int, 'w) urun" where
  "cat_files K L [] = r_lift (u_return 0)"
| "cat_files K L (a # args) =
     r_bind (r_lift (wrap_open K (Some a) 0 0)) (\<lambda>fd.
       if fd = -1 then cat_files K L args
       else r_bind (u_loop (cat_turn K L fd) (lc_stack L)) (\<lambda>_.
         r_bind (r_lift (wrap_close K fd)) (\<lambda>_. cat_files K L args)))"

definition cat_main :: "'w posix \<Rightarrow> 'w libc \<Rightarrow> string list \<Rightarrow> (int, 'w) urun" where
  "cat_main K L argv = cat_files K L (drop 1 argv)"

end
