(* ===== verification/UserTrace.thy ===== *)
theory UserTrace
  imports PosixSystem Programs
begin

text \<open>
  What a program does to the server, as a sequence of system calls: \<open>follows K f m\<close> says that
  every outcome of \<open>m\<close> is that of a sequence of calls and changes of the world, of which the
  last one exits or enters another program if \<open>m\<close> does not come back. With \<open>f\<close> false there is
  no fork among them. It is closed under sequencing and loops, so it holds of all functions
  of the library and all programs; what a sequence of calls keeps, a program keeps.
\<close>

section \<open>Sequences of calls\<close>

definition returns :: "reply \<Rightarrow> bool" where
  "returns r \<longleftrightarrow> (\<forall>c. r \<noteq> Exits c) \<and> (\<forall>q. r \<noteq> Enters q)"

lemma returns_simps [simp]:
  "returns (Ret i)" "returns (RetData i bs)" "returns (RetPtr p)" "returns NoRet"
  "\<not> returns (Exits c)" "\<not> returns (Enters q)"
  by (simp_all add: returns_def)

inductive lib_step :: "'w posix \<Rightarrow> bool \<Rightarrow> server \<times> 'w \<Rightarrow> server \<times> 'w \<Rightarrow> bool" for K f where
  call: "serverSysCall K req s w = Inr ((r, s'), w') \<Longrightarrow> f \<or> req \<noteq> SysFork \<Longrightarrow> returns r \<Longrightarrow>
    lib_step K f (s, w) (s', w')"
| world: "lib_step K f (s, w) (s, w')"

inductive_cases lib_stepE [consumes 1, case_names call world]: "lib_step K f (s, w) (s', w')"

definition left_by :: "'w posix \<Rightarrow> bool \<Rightarrow> server \<times> 'w \<Rightarrow> reply \<Rightarrow> server \<Rightarrow> 'w \<Rightarrow> bool" where
  \<comment> \<open>the last call does not return\<close>
  "left_by K f c r s' w' \<longleftrightarrow>
     (\<exists>s1 w1 req. rtranclp (lib_step K f) c (s1, w1) \<and> (f \<or> req \<noteq> SysFork) \<and>
        serverSysCall K req s1 w1 = Inr ((r, s'), w') \<and> \<not> returns r)"

definition traced :: "'w posix \<Rightarrow> bool \<Rightarrow> server \<times> 'w \<Rightarrow> fault + (('a ures \<times> server) \<times> 'w) \<Rightarrow> bool" where
  "traced K f c y \<longleftrightarrow>
     (\<forall>b s' w'. y = Inr ((b, s'), w') \<longrightarrow>
        (case b of Back x \<Rightarrow> rtranclp (lib_step K f) c (s', w') | Gone r \<Rightarrow> left_by K f c r s' w'))"

definition follows :: "'w posix \<Rightarrow> bool \<Rightarrow> ('a, 'w) ucall \<Rightarrow> bool" where
  "follows K f m \<longleftrightarrow> (\<forall>s w. traced K f (s, w) (m s w))"

definition r_follows :: "'w posix \<Rightarrow> bool \<Rightarrow> ('a, 'w) urun \<Rightarrow> bool" where
  "r_follows K f m \<longleftrightarrow> (\<forall>s w y. m s w = Some y \<longrightarrow> traced K f (s, w) y)"

named_theorems follow \<comment> \<open>what follows the calls\<close>

lemma traced_simps [simp]:
  "traced K f c (Inl e)"
  "traced K f c (Inr ((Back x, s'), w')) \<longleftrightarrow> rtranclp (lib_step K f) c (s', w')"
  "traced K f c (Inr ((Gone r, s'), w')) \<longleftrightarrow> left_by K f c r s' w'"
  by (simp_all add: traced_def)

lemma left_by_trans: "rtranclp (lib_step K f) c d \<Longrightarrow> left_by K f d r s' w' \<Longrightarrow> left_by K f c r s' w'"
  unfolding left_by_def by (meson rtranclp_trans)

lemma traced_trans: "rtranclp (lib_step K f) c d \<Longrightarrow> traced K f d y \<Longrightarrow> traced K f c y"
  by (cases y rule: u_call_cases) (auto intro: rtranclp_trans left_by_trans)

lemma follow_return [follow]: "follows K f (u_return x)"
  by (simp add: follows_def u_return_def)

lemma follow_check [follow]: "follows K f (u_check r)"
  by (cases r) (simp_all add: follows_def u_check_def)

lemma follow_world [follow]: "follows K f (u_world g)"
  by (simp add: follows_def u_world_def r_into_rtranclp lib_step.world)

lemma follow_bind [follow]:
  assumes "follows K f m" "\<And>x. follows K f (g x)"
  shows "follows K f (u_bind m g)"
  unfolding follows_def
proof (intro allI)
  fix s w
  from assms(1) have m: "traced K f (s, w) (m s w)" by (simp add: follows_def)
  show "traced K f (s, w) (u_bind m g s w)"
  proof (cases "m s w" rule: u_call_cases)
    case (ok x s1 w1)
    from assms(2) have "traced K f (s1, w1) (g x s1 w1)" by (simp add: follows_def)
    with m ok traced_trans show ?thesis by (fastforce simp: u_bind_def)
  qed (use m in \<open>simp_all add: u_bind_def\<close>)
qed

lemma follow_lift [follow]: "follows K f m \<Longrightarrow> r_follows K f (r_lift m)"
  by (auto simp: follows_def r_follows_def r_lift_def)

lemma follow_r_bind [follow]:
  assumes "r_follows K f m" "\<And>x. r_follows K f (g x)"
  shows "r_follows K f (r_bind m g)"
  unfolding r_follows_def
proof (intro allI impI)
  fix s w y
  assume y: "r_bind m g s w = Some y"
  then obtain z where z: "m s w = Some z" by (auto simp: r_bind_def split: option.splits)
  with assms(1) have m: "traced K f (s, w) z" by (simp add: r_follows_def)
  show "traced K f (s, w) y"
  proof (cases z rule: u_call_cases)
    case (ok x s1 w1)
    with y z have "g x s1 w1 = Some y" by (simp add: r_bind_def)
    with assms(2) have "traced K f (s1, w1) y" by (simp add: r_follows_def)
    with m ok traced_trans show ?thesis by fastforce
  qed (use y z m in \<open>auto simp: r_bind_def\<close>)
qed

section \<open>Loops\<close>

lemma u_loop_traced:
  "u_loop turn x s w = Some y \<Longrightarrow> (\<forall>x. follows K f (turn x)) \<longrightarrow> traced K f (s, w) y"
proof (rule u_loop.raw_induct [where P = "\<lambda>turn st s w y. (\<forall>x. follows K f (turn x)) \<longrightarrow> traced K f (s, w) y"])
  fix lp turn x s w y
  assume IH: "\<And>turn x s w y. lp turn x s w = Some y \<Longrightarrow> (\<forall>x. follows K f (turn x)) \<longrightarrow> traced K f (s, w) y"
    and step: "(case turn x s w of
        Inl e \<Rightarrow> Some (Inl e)
      | Inr r \<Rightarrow>
          (case fst (fst r) of
             Back y \<Rightarrow>
               (case y of
                  Inl x' \<Rightarrow> lp turn x' (snd (fst r)) (snd r)
                | Inr a \<Rightarrow> Some (Inr ((Back a, snd (fst r)), snd r)))
           | Gone g \<Rightarrow> Some (Inr ((Gone g, snd (fst r)), snd r)))) = Some y"
  show "(\<forall>x. follows K f (turn x)) \<longrightarrow> traced K f (s, w) y"
  proof
    assume k: "\<forall>x. follows K f (turn x)"
    then have t: "traced K f (s, w) (turn x s w)" by (simp add: follows_def)
    show "traced K f (s, w) y"
    proof (cases "turn x s w" rule: u_call_cases)
      case (ok z s1 w1)
      show ?thesis
      proof (cases z)
        case (Inl x')
        with step ok have "lp turn x' s1 w1 = Some y" by simp
        from IH [OF this] k t ok traced_trans show ?thesis by fastforce
      qed (use step ok t in auto)
    qed (use step t in auto)
  qed
qed

lemma follow_loop [follow]: "(\<And>x. follows K f (turn x)) \<Longrightarrow> r_follows K f (u_loop turn x)"
  using u_loop_traced by (fastforce simp: r_follows_def)

text \<open>A number of turns, and their agreement with the loop.\<close>

fun u_iter :: "('st \<Rightarrow> ('st + 'a, 'w) ucall) \<Rightarrow> nat \<Rightarrow> 'st \<Rightarrow> ('st + 'a, 'w) ucall" where
  "u_iter turn 0 st = u_return (Inl st)"
| "u_iter turn (Suc n) st =
     u_bind (turn st) (\<lambda>r. case r of Inl st' \<Rightarrow> u_iter turn n st' | Inr a \<Rightarrow> u_return (Inr a))"

lemma follow_iter [follow]: "(\<And>x. follows K f (turn x)) \<Longrightarrow> follows K f (u_iter turn n st)"
  by (induction n arbitrary: st) (auto intro!: follow split: sum.split)

lemma u_loop_iter:
  "u_iter turn n st s w = Inr ((Back (Inl st'), s'), w') \<Longrightarrow> u_loop turn st s w = u_loop turn st' s' w'"
proof (induction n arbitrary: st s w)
  case (Suc n)
  show ?case
  proof (cases "turn st s w" rule: u_call_cases)
    case (ok x s1 w1)
    with Suc.prems obtain st1 where "x = Inl st1" "u_iter turn n st1 s1 w1 = Inr ((Back (Inl st'), s'), w')"
      by (cases x) (simp_all add: u_bind_def u_return_def)
    with Suc.IH ok show ?thesis by (simp add: u_loop_turn)
  qed (use Suc.prems in \<open>simp_all add: u_bind_def\<close>)
qed (simp add: u_return_def)

section \<open>The functions of the library\<close>

lemma follow_sys_call [follow]:
  assumes "f \<or> req \<noteq> SysFork"
  shows "follows K f (sys_call K req)"
  unfolding follows_def
proof (intro allI)
  fix s w
  show "traced K f (s, w) (sys_call K req s w)"
  proof (cases "serverSysCall K req s w" rule: result_cases)
    case (ok r s' w')
    show ?thesis
    proof (cases "returns r")
      case True
      with ok lib_step.call [OF ok assms True] show ?thesis by (cases r) (auto simp: sys_call_def)
    next
      case False
      with ok assms have "left_by K f (s, w) r s' w'" unfolding left_by_def by blast
      with ok False show ?thesis by (cases r) (simp_all add: sys_call_def)
    qed
  qed (simp add: sys_call_def)
qed

lemmas requests =
  sys_exit_def sys_fork_def sys_getpid_def sys_alloc_def sys_exec_def sys_chdir_def sys_getcwd_def
  sys_read_def sys_write_def sys_open_def sys_close_def

lemma follow_requests [follow]:
  "follows K f (sys_exit K c)" "follows K f (sys_getpid K)" "follows K f (sys_alloc K ptr n)"
  "follows K f (sys_exec K q a)" "follows K f (sys_chdir K q)" "follows K f (sys_getcwd K x i)"
  "follows K f (sys_read K fd x i)" "follows K f (sys_write K fd t i)" "follows K f (sys_open K q fl m)"
  "follows K f (sys_close K fd)"
  by (auto simp: requests intro!: follow)

lemma follow_fork [follow]: "follows K True (sys_fork K)" "follows K True (wrap_fork K)"
  by (auto simp: requests wrap_fork_def intro!: follow)

lemma follow_memory [follow]:
  "follows K f (wrap_realloc K q n)" "follows K f (wrap_malloc K n)" "follows K f (wrap_free K q)"
  "follows K f (wrap_calloc K i n)"
  by (auto simp: wrap_realloc_def wrap_malloc_def wrap_free_def wrap_calloc_def intro!: follow)

lemma follow_wrappers [follow]:
  "follows K f (wrap_getpid K)" "follows K f (wrap_chdir K q)"
  "follows K f (wrap_read K fd x i)" "follows K f (wrap_write K fd t i)" "follows K f (wrap_open K q fl m)"
  "follows K f (wrap_close K fd)" "follows K f (wrap_exit K c)" "follows K f (wrap_abort K)"
  by (auto simp: wrap_getpid_def wrap_chdir_def wrap_read_def wrap_write_def wrap_open_def
      wrap_close_def wrap_exit_def wrap_abort_def intro!: follow)

lemma follow_getcwd [follow]: "follows K f (wrap_getcwd K b n)"
  by (auto simp: wrap_getcwd_def Let_def intro!: follow split: option.split)

lemma follow_copy_args [follow]: "follows K f (copy_args K as ps)"
  by (induction "as" arbitrary: ps) (auto intro!: follow split: option.split)

lemma follow_free_all [follow]: "follows K f (free_all K ps)"
  by (induction ps) (auto intro!: follow)

lemma follow_execv [follow]: "follows K f (wrap_execv K q a)"
  by (auto simp: wrap_execv_def intro!: follow split: option.split)

lemma follow_execl [follow]: "follows K f (wrap_execl K q x a)"
  by (auto simp: wrap_execl_def Let_def intro!: follow split: option.split)

section \<open>The shell\<close>

lemma follow_path_block [follow]: "follows K f (path_block K x y)"
  by (auto simp: path_block_def intro!: follow split: option.split)

lemma follow_absolute [follow]: "follows K f (shellPathAbsolute K env x)"
  by (auto simp: shellPathAbsolute_def intro!: follow split: option.split)

lemma follow_home_display [follow]: "follows K f (home_display K h i x)"
  by (auto simp: home_display_def intro!: follow split: option.split)

lemma follow_display [follow]: "follows K f (shellPathDisplay K env x)"
  by (auto simp: shellPathDisplay_def intro!: follow split: option.split)

lemma follow_set_pwd [follow]: "follows K f (set_pwd L r)"
  by (auto simp: set_pwd_def intro!: follow split: prod.split bool.split option.split)

lemma follow_cd [follow]: "follows K f (shellCd K L env x)"
  by (auto simp: shellCd_def intro!: follow split: prod.split option.split)

lemma follow_export [follow]: "follows K f (shellExport L x)"
  by (auto simp: shellExport_def intro!: follow split: prod.split option.split)

lemma follow_parse [follow]: "follows K f (shellParseLine K L env o' x)"
  by (auto simp: shellParseLine_def Let_def intro!: follow split: prod.split option.split)

lemma follow_prompt [follow]: "follows K f (shell_prompt K env o' b)"
  by (auto simp: shell_prompt_def intro!: follow split: option.split)

lemma follow_turn [follow]: "follows K f (shell_turn K L env i o' b)"
  by (auto simp: shell_turn_def Let_def intro!: follow)

lemma follow_shell_turns: "follows K f (u_iter (shell_turn K L env i o') n b)"
  by (rule follow_iter) (rule follow)

lemma follow_run [follow]: "r_follows K f (shellRun K L env i o')"
  unfolding shellRun_def shell_loop_def by (intro follow)

lemma follow_files [follow]: "r_follows K f (shell_files K L env a)"
  by (induction a) (auto intro!: follow)

lemma follow_shell: "r_follows K f (shell_main K L env a)"
  unfolding shell_main_def by (rule follow)

section \<open>The programs\<close>

lemma follow_printf [follow]: "follows K f (Dvprintf L t)" "follows K f (Dprintf L t)"
  by (auto simp: Dprintf_def Dvprintf_def intro!: follow)

lemma follow_print_lines [follow]: "follows K f (print_lines L t as)"
  by (induction "as") (auto intro!: follow)

lemma follow_echo_loop [follow]: "follows K f (echo_loop L b as)"
  by (induction "as" arbitrary: b) (auto intro!: follow)

lemma follow_small [follow]:
  "follows K f (true_main a)" "follows K f (false_main a)" "follows K f (init_main K a)" "follows K f (echo_main L a)"
  "follows K f (printenv_main L env a)" "follows K f (args_main K L a)"
  by (auto simp: true_main_def false_main_def init_main_def echo_main_def printenv_main_def args_main_def
      intro!: follow split: option.split)

lemma follow_cat_turn [follow]: "follows K f (cat_turn K L fd b)"
  by (auto simp: cat_turn_def Let_def intro!: follow)

lemma follow_cat_files [follow]: "r_follows K f (cat_files K L as)"
  by (induction "as") (auto intro!: follow)

lemma follow_endless [follow]:
  "r_follows K f (yes_main L a)" "r_follows K True (rabbits_main K a)" "r_follows K f (cat_main K L a)"
  by (auto simp: yes_main_def yes_turn_def rabbits_main_def rabbits_turn_def cat_main_def intro!: follow)

text \<open>A program that follows the calls does so from its entry point to its exit.\<close>

lemma follow_start [follow]: "(\<And>env a. follows K f (prog env a)) \<Longrightarrow> follows K f (start_program K prog info)"
  by (auto simp: start_program_def intro!: follow)

end
