(* ===== verification/UserKeeps.thy ===== *)
theory UserKeeps
  imports UserTrace
begin

text \<open>
  What the calls of a program keep of its copy of the server. The locale \<open>own_process\<close> is what
  a program relies on: getpid(2) is constant in a process. \<open>room\<close> is asked of the last state
  only, since the table of entries never shrinks.
\<close>

section \<open>The table of entries never shrinks\<close>

abbreviation entries :: "server \<Rightarrow> nat" where
  "entries s \<equiv> length (sv_fdEntries s)"

lemma fd_install_mono:
  "fd_install K pid d s w = Inr ((r, s'), w') \<Longrightarrow> entries s \<le> entries s'"
  by (auto simp: fd_install_def fdCreate_def upd_proc_def Let_def
      split: prod.splits if_splits option.splits)

lemma fdOpenFdFromPath_mono:
  "fdOpenFdFromPath K pid p fl md s w = Inr ((r, s'), w') \<Longrightarrow> entries s \<le> entries s'"
  using fd_install_mono [of K pid _ "s\<lparr>sv_devices := _\<rparr>"] fd_install_mono [of K pid _ s]
  by (fastforce simp: fdOpenFdFromPath_def fdOpenFdFromDevice_def fdOpenFdFromFile_def fault_simps
      split: if_splits option.splits)

lemma fdClose_mono: "fdClose K pid fd s w = Inr ((b, s'), w') \<Longrightarrow> entries s \<le> entries s'"
  by (auto simp: fdClose_def close_data_def upd_proc_def fault_simps
      split: if_splits option.splits fd_data.splits)

lemma processFree_loop_mono:
  "processFree_loop K pid is s w = Inr (s', w') \<Longrightarrow> entries s \<le> entries s'"
proof (induction "is" arbitrary: s w)
  case Nil
  then show ?case by simp
next
  case (Cons i "is")
  show ?case
  proof (cases "pr_fds (sv_procs s ! pid) ! i = -1")
    case True
    with Cons show ?thesis by simp
  next
    case False
    with Cons.prems obtain b s1 w1 where c: "fdClose K pid (pr_fds (sv_procs s ! pid) ! i) s w = Inr ((b, s1), w1)"
      and r: "processFree_loop K pid is s1 w1 = Inr (s', w')"
      by (auto simp: fault_simps Let_def)
    from fdClose_mono [OF c] Cons.IH [OF r] show ?thesis by simp
  qed
qed

lemma processFree_mono: "processFree K pid s w = Inr (s', w') \<Longrightarrow> entries s \<le> entries s'"
  by (auto simp: processFree_def fault_simps upd_proc_def dest: processFree_loop_mono)

lemma syscall_mono:
  assumes "syscall K pid req s w = Inr ((r, s'), w')"
  shows "entries s \<le> entries s'"
proof -
  from assms have pid: "pid < length (sv_procs s)" by (auto simp: syscall_def split: if_splits)
  show ?thesis
  proof (cases req)
    case (SysExec pth a)
    with assms pid have "sysExec K pid pth a s w = Inr ((r, s'), w')" by (simp add: syscall_def)
    then show ?thesis
      by (cases rule: sysExec_result) (auto dest!: processFree_mono simp: upd_proc_def)
  next
    case SysFork
    with assms pid obtain q w1 where "processFork K pid s w = Inr ((q, s'), w1)"
      by (auto simp: syscall_def and_then_eq_Inr)
    from processFork_result [OF this] show ?thesis by auto
  next
    case (SysExit c)
    with assms pid show ?thesis
      by (auto simp: syscall_def syscallExit_def and_then_eq_Inr dest: processFree_mono)
  next
    case (SysOpen q f m)
    with assms pid show ?thesis by (auto simp: syscall_def and_then_eq_Inr dest: fdOpenFdFromPath_mono)
  next
    case (SysClose f)
    with assms pid show ?thesis by (auto simp: syscall_def and_then_eq_Inr dest: fdClose_mono)
  qed (use assms pid in \<open>auto simp: syscall_def and_then_eq_Inr upd_proc_def
      split: if_splits option.splits prod.splits\<close>)
qed

section \<open>The contract\<close>

definition u_keeps :: "int \<Rightarrow> ('a, 'w) ucall \<Rightarrow> bool" where
  "u_keeps p m \<longleftrightarrow>
     (\<forall>s w b s' w'. m s w = Inr ((b, s'), w') \<longrightarrow>
        entries s \<le> entries s' \<and>
        (server_inv s \<longrightarrow> room s' \<longrightarrow> callerPID s p \<noteq> None \<longrightarrow>
           server_inv s' \<and> (\<forall>x. b = Back x \<longrightarrow> callerPID s' p \<noteq> None)))"

lemma room_mono: "room s' \<Longrightarrow> entries s \<le> entries s' \<Longrightarrow> room s"
  by (simp add: room_def)

lemma serverSysCall_mono: "serverSysCall K req s w = Inr ((r, s'), w') \<Longrightarrow> entries s \<le> entries s'"
  by (auto simp: serverSysCall_def split: option.splits dest: syscall_mono)

lemma lib_steps_mono: "rtranclp (lib_step K f) c c' \<Longrightarrow> entries (fst c) \<le> entries (fst c')"
  by (induction rule: rtranclp_induct) (auto elim!: lib_step.cases dest: serverSysCall_mono)

locale own_process =
  fixes K :: "'w posix" and p :: int
  assumes getpid: "px_getpid K w = p"
    and positive: "0 < p"
begin

lemma as_proc_self: "as_proc p K = K"
proof -
  have "px_getpid K = (\<lambda>w. p)" using getpid by (simp add: fun_eq_iff)
  then show ?thesis by (simp add: as_proc_def)
qed

lemma serverSysCall_keeps:
  assumes "server_inv s" "room s" "callerPID s p \<noteq> None" "serverSysCall K req s w = Inr ((r, s'), w')"
    "\<forall>c. r \<noteq> Exits c"
  shows "callerPID s' p \<noteq> None"
proof (cases "req = SysFork")
  case False
  from call_keeps_node [OF assms(1-3) positive _ assms(5) False, of K w] assms(4) as_proc_self
  show ?thesis by simp
next
  case True
  from assms(3) obtain pid where pid: "callerPID s p = Some pid" by blast
  with assms(4) True callerPID_Some [OF pid] obtain q w1 where "processFork K pid s w = Inr ((q, s'), w1)"
    by (auto simp: serverSysCall_def syscall_def and_then_eq_Inr getpid)
  then have "set (sv_procs s) \<subseteq> set (sv_procs s')" using processFork_result by fastforce
  with assms(3) show ?thesis unfolding callerPID_iff by blast
qed

text \<open>A sequence of calls, and so a program, keeps what one call keeps.\<close>

lemma lib_steps_keep:
  assumes "rtranclp (lib_step K f) (s, w) c" "server_inv s" "callerPID s p \<noteq> None" "room (fst c)"
  shows "server_inv (fst c) \<and> callerPID (fst c) p \<noteq> None"
  using assms(1,4)
proof (induction rule: rtranclp_induct)
  case base
  with assms show ?case by simp
next
  case (step c d)
  obtain s1 w1 s2 w2 where c: "c = (s1, w1)" "d = (s2, w2)" by (metis surj_pair)
  have "server_inv s2 \<and> callerPID s2 p \<noteq> None"
    using step.hyps(2) unfolding c
  proof (cases rule: lib_stepE)
    case (call req r)
    then have r: "room s1" using step.prems c room_mono serverSysCall_mono by fastforce
    with step.IH c have i: "server_inv s1" "callerPID s1 p \<noteq> None" by simp_all
    have "\<forall>c. r \<noteq> Exits c" using call by (simp add: returns_def)
    from serverSysCall_keeps [OF i(1) r i(2) call(1) this] server_inv_serverSysCall [OF i(1) r _ call(1)] positive
    show ?thesis by (simp add: getpid)
  next
    case world
    with step c show ?thesis by simp
  qed
  then show ?case by (simp add: c)
qed

lemma follows_keeps:
  assumes "follows K f m"
  shows "u_keeps p m"
  unfolding u_keeps_def
proof (intro allI impI)
  fix s w b s' w'
  assume m: "m s w = Inr ((b, s'), w')"
  with assms have t: "traced K f (s, w) (Inr ((b, s'), w'))" by (metis follows_def)
  show "entries s \<le> entries s' \<and> (server_inv s \<longrightarrow> room s' \<longrightarrow> callerPID s p \<noteq> None \<longrightarrow>
      server_inv s' \<and> (\<forall>x. b = Back x \<longrightarrow> callerPID s' p \<noteq> None))"
  proof (cases b)
    case (Back x)
    with t lib_steps_mono [of K f "(s, w)"] lib_steps_keep [of f s w] show ?thesis by fastforce
  next
    case (Gone r)
    with t obtain s1 w1 req where st: "rtranclp (lib_step K f) (s, w) (s1, w1)"
      and c: "serverSysCall K req s1 w1 = Inr ((r, s'), w')" by (auto simp: left_by_def)
    have e: "entries s \<le> entries s1" "entries s1 \<le> entries s'"
      using lib_steps_mono [OF st] serverSysCall_mono [OF c] by simp_all
    have "server_inv s'" if h: "server_inv s" "room s'" "callerPID s p \<noteq> None"
    proof -
      have "room s1" using h(2) e(2) by (rule room_mono)
      with lib_steps_keep [OF st h(1,3)] server_inv_serverSysCall [of s1 K w1 req r s' w'] c positive
      show ?thesis by (simp add: getpid)
    qed
    with e Gone show ?thesis by simp
  qed
qed

end

text \<open>Every process of the system provides the contract: it is given its pid by \<open>as_proc\<close>.\<close>

interpretation as_proc: own_process "as_proc (1 + int n) K" "1 + int n"
  by unfold_locales simp_all

lemma as_proc_getpid: "0 < p \<Longrightarrow> (\<And>w. px_getpid K w = p) \<Longrightarrow> as_proc p K = K"
  by (rule own_process.as_proc_self, unfold_locales) simp_all

end
