(* ===== verification/SysRun.thy ===== *)
theory SysRun
  imports UserKeeps
begin

text \<open>
  Programs in the system of POSIX processes: a program without fork that runs in a process of
  a reachable system takes the system through reachable systems only, so whatever holds of
  them holds before, between and after its calls.
\<close>

definition set_node :: "'w system \<Rightarrow> int \<Rightarrow> server option \<Rightarrow> 'w \<Rightarrow> 'w system" where
  "set_node S p n w = S\<lparr>sy_nodes := (sy_nodes S)(p := n), sy_world := w\<rparr>"

lemma set_node_simps [simp]:
  "sy_nodes (set_node S p n w) = (sy_nodes S)(p := n)" "sy_world (set_node S p n w) = w"
  "sy_daemon (set_node S p n w) = sy_daemon S" "set_node (set_node S p n w) p m v = set_node S p m v"
  by (simp_all add: set_node_def)

lemma set_node_self: "sy_nodes S p = n \<Longrightarrow> set_node S p n (sy_world S) = S"
  by (auto simp: set_node_def)

definition ended :: "'a ures \<Rightarrow> server \<Rightarrow> server option" where
  \<comment> \<open>what is left of the process: nothing when it exited\<close>
  "ended b s = (case b of Gone (Exits c) \<Rightarrow> None | _ \<Rightarrow> Some s)"

lemma step_call:
  assumes "sy_nodes S p = Some s" "p \<noteq> sy_daemon S" "req \<noteq> SysFork"
    "serverSysCall (as_proc p K) req s (sy_world S) = Inr ((r, s'), w')"
  shows "sys_step K S (set_node S p (ended (Gone r) s') w')"
proof (cases "\<exists>c. r = Exits c")
  case True
  with sys_step.exit [OF assms(1,2)] assms(4) show ?thesis by (auto simp: set_node_def ended_def)
next
  case False
  with sys_step.call [OF assms] show ?thesis by (cases r) (simp_all add: set_node_def ended_def)
qed

lemma roomy_set_node: "roomy S \<Longrightarrow> room s \<Longrightarrow> roomy (set_node S p (Some s) w)"
  by (auto simp: roomy_def)

lemma lib_steps_reach:
  assumes "rtranclp (lib_step (as_proc p K) False) (s, sy_world S) c"
    and "reach K fs ip port S" "roomy S" "sy_nodes S p = Some s" "p \<noteq> sy_daemon S" "room (fst c)"
  shows "reach K fs ip port (set_node S p (Some (fst c)) (snd c))"
  using assms(1,6)
proof (induction rule: rtranclp_induct)
  case base
  with assms(2,4) show ?case by (simp add: set_node_self)
next
  case (step c d)
  obtain s1 w1 s2 w2 where c: "c = (s1, w1)" "d = (s2, w2)" by (metis surj_pair)
  let ?S = "set_node S p (Some s1) w1"
  have r: "room s1" using step c room_mono lib_steps_mono [of _ _ c d] by fastforce
  with step.IH c have S: "reach K fs ip port ?S" by simp
  have "sys_step K ?S (set_node S p (Some s2) w2)"
    using step.hyps(2) unfolding c
  proof (cases rule: lib_stepE)
    case (call req r)
    with step_call [of ?S p s1 req K r s2 w2] assms(5) show ?thesis by (cases r) (simp_all add: ended_def)
  next
    case world
    with sys_step.world [of K ?S w2] show ?thesis by (simp add: set_node_def)
  qed
  from reach.step [OF S roomy_set_node [OF assms(3) r] this] c show ?case by simp
qed

lemma follows_reach:
  assumes "follows (as_proc p K) False m" "reach K fs ip port S" "roomy S" "sy_nodes S p = Some s"
    and "p \<noteq> sy_daemon S" "m s (sy_world S) = Inr ((b, s'), w')" "room s'"
  shows "reach K fs ip port (set_node S p (ended b s') w')"
proof -
  from assms(1,6) have t: "traced (as_proc p K) False (s, sy_world S) (Inr ((b, s'), w'))" by (metis follows_def)
  show ?thesis
  proof (cases b)
    case (Back x)
    with t lib_steps_reach [of p K s S "(s', w')"] assms show ?thesis by (simp add: ended_def)
  next
    case (Gone r)
    with t obtain s1 w1 req where st: "rtranclp (lib_step (as_proc p K) False) (s, sy_world S) (s1, w1)"
      and c: "req \<noteq> SysFork" "serverSysCall (as_proc p K) req s1 w1 = Inr ((r, s'), w')" by (auto simp: left_by_def)
    let ?S = "set_node S p (Some s1) w1"
    have r: "room s1" by (rule room_mono [OF assms(7) serverSysCall_mono [OF c(2)]])
    have S: "reach K fs ip port ?S" using lib_steps_reach [OF st assms(2-5)] r by simp
    have "sys_step K ?S (set_node S p (ended (Gone r) s') w')"
      using step_call [of ?S p s1 req K r s' w'] assms(5) c by simp
    from reach.step [OF S roomy_set_node [OF assms(3) r] this] Gone show ?thesis by (simp add: ended_def)
  qed
qed

end
