(* ===== verification/ShellPathFacts.thy ===== *)
theory ShellPathFacts
  imports ShellPath
begin

text \<open>
  What the reduction of a path computes: the reference \<open>canonical\<close> splits the path into
  its non-empty parts and joins them with single slashes, with one in front if there was
  one. \<open>squeeze\<close> is the scan without positions.
\<close>

section \<open>The reference\<close>

function path_parts :: "string \<Rightarrow> string list" where
  "path_parts [] = []"
| "path_parts (c # cs) =
     (if c = slash then path_parts cs
      else (c # takeWhile (\<lambda>x. x \<noteq> slash) cs) # path_parts (dropWhile (\<lambda>x. x \<noteq> slash) cs))"
  by pat_completeness auto

termination path_parts
  by (relation "measure length") (auto simp: le_imp_less_Suc length_dropWhile_le)

fun join_parts :: "string list \<Rightarrow> string" where
  "join_parts [] = []"
| "join_parts [x] = x"
| "join_parts (x # y # ys) = x @ slash # join_parts (y # ys)"

definition canonical :: "string \<Rightarrow> string" where
  "canonical p = (if p \<noteq> [] \<and> hd p = slash then [slash] else []) @ join_parts (path_parts p)"

definition part_ok :: "string \<Rightarrow> bool" where
  "part_ok x \<longleftrightarrow> x \<noteq> [] \<and> slash \<notin> set x"

lemma path_parts_ok: "x \<in> set (path_parts p) \<Longrightarrow> part_ok x"
  by (induction p rule: path_parts.induct) (auto simp: part_ok_def dest: set_takeWhileD split: if_splits)

lemma split_part:
  "slash \<notin> set cs \<Longrightarrow> takeWhile (\<lambda>c. c \<noteq> slash) (cs @ slash # t) = cs \<and>
     dropWhile (\<lambda>c. c \<noteq> slash) (cs @ slash # t) = slash # t"
  by (induction cs) auto

lemma whole_part:
  "slash \<notin> set cs \<Longrightarrow> takeWhile (\<lambda>c. c \<noteq> slash) cs = cs \<and> dropWhile (\<lambda>c. c \<noteq> slash) cs = []"
  by (induction cs) auto

lemma path_parts_join:
  "\<forall>x \<in> set xs. part_ok x \<Longrightarrow> path_parts (join_parts xs) = xs"
proof (induction xs rule: join_parts.induct)
  case (2 x)
  obtain c cs where "x = c # cs" "c \<noteq> slash" "slash \<notin> set cs" using 2 by (cases x) (auto simp: part_ok_def)
  with whole_part [of cs] show ?case by (simp del: takeWhile_eq_all_conv dropWhile_eq_Nil_conv)
next
  case (3 x y ys)
  obtain c cs where x: "x = c # cs" "c \<noteq> slash" "slash \<notin> set cs" using 3(2) by (cases x) (auto simp: part_ok_def)
  let ?t = "join_parts (y # ys)"
  have "join_parts (x # y # ys) = c # cs @ slash # ?t" by (simp add: x)
  moreover have "path_parts (c # cs @ slash # ?t) = (c # cs) # path_parts (slash # ?t)"
    unfolding path_parts.simps(2) [of c] by (simp only: x(2) if_False split_part [OF x(3)])
  moreover have "path_parts (slash # ?t) = path_parts ?t" by (simp del: join_parts.simps)
  moreover have "path_parts ?t = y # ys" using 3 by (simp only: list.set ball_simps) blast
  ultimately show ?case by (simp only: x(1))
qed simp

lemma join_parts_first:
  "xs \<noteq> [] \<Longrightarrow> \<forall>x \<in> set xs. part_ok x \<Longrightarrow> join_parts xs \<noteq> [] \<and> hd (join_parts xs) \<noteq> slash"
  by (cases xs rule: join_parts.cases) (auto simp: part_ok_def dest: hd_in_set)

lemma canonical_idem: "canonical (canonical p) = canonical p"
proof -
  have ok: "\<forall>x \<in> set (path_parts p). part_ok x" using path_parts_ok by blast
  show ?thesis
  proof (cases "p \<noteq> [] \<and> hd p = slash")
    case True
    then show ?thesis by (simp add: canonical_def path_parts_join [OF ok])
  next
    case False
    then have c: "canonical p = join_parts (path_parts p)" by (simp add: canonical_def)
    show ?thesis
    proof (cases "path_parts p = []")
      case False
      with join_parts_first [OF False ok] c show ?thesis by (simp add: canonical_def [of "join_parts _"] path_parts_join [OF ok])
    qed (simp add: c canonical_def)
  qed
qed

section \<open>The scan\<close>

function squeeze :: "string \<Rightarrow> string" where
  "squeeze [] = []"
| "squeeze (c # cs) = c # squeeze (if c = slash then dropWhile (\<lambda>x. x = slash) cs else cs)"
  by pat_completeness auto

termination squeeze
  by (relation "measure length") (auto simp: le_imp_less_Suc length_dropWhile_le)

lemma drop_run:
  "drop (length (takeWhile (\<lambda>x. x = slash) cs)) (slash # cs) = slash # dropWhile (\<lambda>x. x = slash) cs"
  by (induction cs) auto

lemma reduce_slashes_squeeze: "reduce_slashes s p = take s p @ squeeze (drop s p)"
proof (induction s p rule: reduce_slashes.induct)
  case (1 s p)
  show ?case
  proof (cases "s < length p")
    case False
    then show ?thesis by (subst reduce_slashes.simps) simp
  next
    case True
    define cs where "cs = drop (Suc s) p"
    have d: "drop s p = p ! s # cs" using True by (simp add: cs_def Cons_nth_drop_Suc)
    show ?thesis
    proof (cases "p ! s = slash")
      case False
      then have "slash_run (drop s p) = 0" by (simp add: slash_run_def d)
      with 1(1) [OF True refl] True False show ?thesis
        by (subst reduce_slashes.simps) (simp add: d take_Suc_conv_app_nth cs_def)
    next
      case slash: True
      define k where "k = slash_run (drop s p)"
      have k: "k = Suc (length (takeWhile (\<lambda>x. x = slash) cs))" by (simp add: k_def slash_run_def d slash)
      have dr: "drop (s + k - 1) p = slash # dropWhile (\<lambda>x. x = slash) cs"
      proof -
        have "drop (s + k - 1) p = drop (k - 1) (drop s p)" by (simp add: k add.commute)
        then show ?thesis using drop_run [of cs] by (simp only: d slash k diff_Suc_1)
      qed
      let ?p = "take s p @ drop (s + k - 1) p"
      have "reduce_slashes s p = reduce_slashes (s + 1) ?p"
        using True k by (subst reduce_slashes.simps) (simp add: k_def [symmetric] Let_def)
      also have "\<dots> = take (s + 1) ?p @ squeeze (drop (s + 1) ?p)"
        using 1(2) [OF True refl] k by (simp add: k_def)
      finally have r: "reduce_slashes s p = take (s + 1) ?p @ squeeze (drop (s + 1) ?p)" .
      have "take (s + 1) ?p = take s p @ [slash]" "drop (s + 1) ?p = dropWhile (\<lambda>x. x = slash) cs"
        unfolding dr using True by simp_all
      with r show ?thesis by (simp only: d slash) simp
    qed
  qed
qed

lemma squeeze_Nil [simp]: "squeeze p = [] \<longleftrightarrow> p = []"
  by (cases p) simp_all

lemma squeeze_hd: "p \<noteq> [] \<Longrightarrow> hd (squeeze p) = hd p"
  by (cases p) simp_all

lemma squeeze_slashes: "squeeze p = [slash] \<longleftrightarrow> p \<noteq> [] \<and> (\<forall>c \<in> set p. c = slash)"
  by (cases p) auto

section \<open>The reduction\<close>

definition drop_end :: "string \<Rightarrow> string" where
  "drop_end p = (if p \<noteq> [slash] \<and> last p = slash then butlast p else p)"

lemma reduce_end_drop: "p \<noteq> [] \<Longrightarrow> reduce_end p = Inr (drop_end p)"
  by (simp add: reduce_end_def drop_end_def)

lemma drop_end_Cons:
  assumes "q \<noteq> []"
  shows "drop_end (c # q) = (if q = [slash] then [c] else c # drop_end q)"
  using assms by (auto simp: drop_end_def)

lemma path_parts_Nil: "path_parts p = [] \<longleftrightarrow> (\<forall>c \<in> set p. c = slash)"
  by (induction p rule: path_parts.induct) auto

lemma path_parts_dropWhile: "path_parts (dropWhile (\<lambda>x. x = slash) p) = path_parts p"
  by (induction p) auto

lemma join_parts_Cons: "xs \<noteq> [] \<Longrightarrow> join_parts (x # xs) = x @ slash # join_parts xs"
  by (cases xs) simp_all

lemma join_parts_push: "join_parts ((c # x) # xs) = c # join_parts (x # xs)"
  by (cases xs) simp_all

lemma canonical_slash:
  "r \<noteq> [] \<Longrightarrow> hd r \<noteq> slash \<Longrightarrow> path_parts cs = path_parts r \<Longrightarrow> canonical (slash # cs) = slash # canonical r"
  by (simp add: canonical_def)

lemma canonical_char:
  assumes "c \<noteq> slash" "\<not> (\<forall>x \<in> set cs. x = slash)"
  shows "canonical (c # cs) = c # canonical cs"
proof (cases cs)
  case Nil
  with assms show ?thesis by simp
next
  case (Cons d ds)
  show ?thesis
  proof (cases "d = slash")
    case True
    have "path_parts ds \<noteq> []" using assms(2) Cons True by (auto simp: path_parts_Nil)
    with True Cons assms(1) show ?thesis by (simp add: canonical_def join_parts_Cons)
  next
    case False
    with Cons assms(1) show ?thesis by (simp add: canonical_def join_parts_push)
  qed
qed

lemma squeeze_canonical: "p \<noteq> [] \<Longrightarrow> drop_end (squeeze p) = canonical p"
proof (induction p rule: squeeze.induct)
  case (2 c cs)
  show ?case
  proof (cases "c = slash")
    case True
    define r where "r = dropWhile (\<lambda>x. x = slash) cs"
    show ?thesis
    proof (cases "r = []")
      case all: True
      then have "path_parts cs = []" by (auto simp: path_parts_Nil r_def dropWhile_eq_Nil_conv)
      with True all show ?thesis by (simp add: r_def [symmetric] drop_end_def canonical_def)
    next
      case False
      have h: "hd r \<noteq> slash" using hd_dropWhile [of "\<lambda>x. x = slash" cs] False by (simp add: r_def)
      then have "squeeze r \<noteq> [slash]" using squeeze_slashes [of r] False by (auto dest: hd_in_set)
      then have "drop_end (squeeze (c # cs)) = c # drop_end (squeeze r)"
        using False True by (simp add: r_def [symmetric] drop_end_Cons)
      also have "drop_end (squeeze r) = canonical r"
        using 2(1) True False by (simp add: r_def)
      finally show ?thesis
        using canonical_slash [OF False h, of cs] True path_parts_dropWhile [of cs] by (simp add: r_def)
    qed
  next
    case False
    show ?thesis
    proof (cases "\<forall>x \<in> set cs. x = slash")
      case True
      then have w: "takeWhile (\<lambda>x. x \<noteq> slash) cs = []" "dropWhile (\<lambda>x. x \<noteq> slash) cs = cs" by (cases cs; simp)+
      have "squeeze cs = [] \<or> squeeze cs = [slash]" using True squeeze_slashes [of cs] by (cases cs) auto
      then have "drop_end (squeeze (c # cs)) = [c]" using False by (auto simp: drop_end_def)
      moreover have "path_parts cs = []" using True by (simp add: path_parts_Nil)
      ultimately show ?thesis using False by (simp add: canonical_def w)
    next
      case other: False
      then have ne: "cs \<noteq> []" by auto
      from other squeeze_slashes [of cs] have "squeeze cs \<noteq> [slash]" by blast
      with False ne 2(1) show ?thesis
        by (simp add: drop_end_Cons canonical_char [OF False other])
    qed
  qed
qed simp

text \<open>The reduction: a fault on the empty path, and otherwise the canonical path.\<close>

lemma drop_end_not_Nil: "p \<noteq> [] \<Longrightarrow> drop_end p \<noteq> []"
  by (cases p rule: rev_cases) (auto simp: drop_end_def)

lemma canonical_not_Nil: "p \<noteq> [] \<Longrightarrow> canonical p \<noteq> []"
  using squeeze_canonical [of p] drop_end_not_Nil [of "squeeze p"] squeeze_Nil [of p] by metis

lemma shellPathReduce_canonical:
  "shellPathReduce p = (if p = [] then Inl OutOfBounds else Inr (canonical p))"
proof (induction p rule: shellPathReduce.induct)
  case (1 p)
  have r: "reduce_end (reduce_slashes 0 p) = (if p = [] then Inl OutOfBounds else Inr (canonical p))"
    by (simp add: reduce_slashes_squeeze reduce_end_drop squeeze_canonical reduce_end_def [of "[]"])
  show ?case
  proof (cases "p = [] \<or> length (canonical p) = length p")
    case True
    then show ?thesis by (subst shellPathReduce.simps) (auto simp: r)
  next
    case False
    with 1 [of "canonical p"] have "shellPathReduce (canonical p) = Inr (canonical p)"
      using canonical_not_Nil [of p] by (simp add: r canonical_idem)
    with False show ?thesis by (subst shellPathReduce.simps) (simp add: r)
  qed
qed

end
