(* ===== verification/UserFacts.thy ===== *)
theory UserFacts
  imports SysRun ShellPathFacts
begin

text \<open>
  getenv as the lookup in a finite map, and what the library's functions yield when the
  server does the system calls behind them.
\<close>

section \<open>The environment\<close>

definition env_entry :: "string \<Rightarrow> (string \<times> string) option" where
  \<comment> \<open>an entry of the vector, cut at its first equals sign\<close>
  "env_entry e = (case strchr e (CHR ''='') of None \<Rightarrow> None | Some i \<Rightarrow> Some (take i e, drop (Suc i) e))"

definition env_list :: "string list \<Rightarrow> (string \<times> string) list" where
  "env_list es = List.map_filter env_entry es"

lemma strchr_append: "c \<notin> set xs \<Longrightarrow> strchr (xs @ c # ys) c = Some (length xs)"
  by (induction xs) auto

lemma env_entry_Some: "env_entry e = Some (n, v) \<longleftrightarrow> e = n @ CHR ''='' # v \<and> CHR ''='' \<notin> set n"
proof
  assume "env_entry e = Some (n, v)"
  then obtain i where i: "strchr e (CHR ''='') = Some i" "n = take i e" "v = drop (Suc i) e"
    by (auto simp: env_entry_def split: option.splits)
  from strchr_Some [OF i(1)] i(2,3) show "e = n @ CHR ''='' # v \<and> CHR ''='' \<notin> set n"
    using id_take_nth_drop [of i e] by simp
qed (auto simp: env_entry_def strchr_append)

lemma env_matches_entry:
  assumes "CHR ''='' \<notin> set name" "NUL \<notin> set name"
  shows "env_matches name e \<longleftrightarrow> (\<exists>v. env_entry e = Some (name, v))"
proof -
  have "env_matches name e \<longleftrightarrow> (\<exists>v. e = name @ CHR ''='' # v)"
  proof
    assume "env_matches name e"
    then have h: "take (length name) e = name" "length name < length e" "e ! length name = CHR ''=''"
      using strncmp_eq_prefix [OF assms(2)] by (simp_all add: env_matches_def starts_with_def)
    from id_take_nth_drop [OF h(2)] show "\<exists>v. e = name @ CHR ''='' # v"
      unfolding h(1,3) by (rule exI)
  next
    assume "\<exists>v. e = name @ CHR ''='' # v"
    then obtain v where e: "e = name @ CHR ''='' # v" by blast
    have "strncmp_eq e name (length name)" unfolding strncmp_eq_prefix [OF assms(2)] e by simp
    then show "env_matches name e" by (simp add: env_matches_def e)
  qed
  with assms(1) show ?thesis by (simp add: env_entry_Some)
qed

lemma wrap_getenv_Cons:
  "wrap_getenv (Some (e # es)) name =
     (if env_matches name e then Some (drop (length name + 1) e) else wrap_getenv (Some es) name)"
  by (simp add: wrap_getenv_def Let_def)

lemma getenv_lookup:
  assumes "CHR ''='' \<notin> set name" "NUL \<notin> set name"
  shows "wrap_getenv (Some es) name = map_of (env_list es) name"
proof (induction es)
  case Nil
  show ?case by (simp add: wrap_getenv_def env_list_def List.map_filter_def)
next
  case (Cons e es)
  show ?case
  proof (cases "env_entry e")
    case None
    with Cons env_matches_entry [OF assms, of e] show ?thesis
      by (simp add: wrap_getenv_Cons env_list_def List.map_filter_def)
  next
    case (Some nv)
    obtain n v where nv: "nv = (n, v)" by fastforce
    from Some nv have "e = n @ CHR ''='' # v" by (simp add: env_entry_Some)
    with Some nv Cons env_matches_entry [OF assms, of e] show ?thesis
      by (auto simp: wrap_getenv_Cons env_list_def List.map_filter_def)
  qed
qed

section \<open>System calls through the library\<close>

text \<open>
  What a call yields when it comes back. An allocator changes the world, so the results are
  stated for a \<open>view\<close> of the world that the allocator does not change: \<open>calm K view\<close> is an operating
  system with memory to spare.
\<close>

definition yields :: "('a, 'w) ucall \<Rightarrow> server \<Rightarrow> 'w \<Rightarrow> ('a \<Rightarrow> server \<Rightarrow> 'w \<Rightarrow> bool) \<Rightarrow> bool" where
  "yields m s w P \<longleftrightarrow> (\<exists>x s' w'. m s w = Inr ((Back x, s'), w') \<and> P x s' w')"

definition same :: "('w \<Rightarrow> 'v) \<Rightarrow> server \<Rightarrow> 'w \<Rightarrow> ('a \<Rightarrow> bool) \<Rightarrow> 'a \<Rightarrow> server \<Rightarrow> 'w \<Rightarrow> bool" where
  "same view s w P x s' w' \<longleftrightarrow> P x \<and> s' = s \<and> view w' = view w"

lemma yields_bind:
  "yields m s w Q \<Longrightarrow> (\<And>x s1 w1. Q x s1 w1 \<Longrightarrow> yields (f x) s1 w1 P) \<Longrightarrow> yields (u_bind m f) s w P"
  by (auto simp: yields_def u_bind_def)

lemma yields_back: "m s w = Inr ((Back x, s'), w') \<Longrightarrow> P x s' w' \<Longrightarrow> yields m s w P"
  by (simp add: yields_def)

lemma yields_return [simp]: "yields (u_return x) s w P \<longleftrightarrow> P x s w"
  by (simp add: yields_def u_return_def)

lemma yields_check [simp]: "yields (u_check (Inr x)) s w P \<longleftrightarrow> P x s w"
  by (simp add: yields_def u_check_def)

lemma yields_world [simp]: "yields (u_world f) s w P \<longleftrightarrow> P () s (f w)"
  by (simp add: yields_def u_world_def)

lemma yields_mono: "yields m s w Q \<Longrightarrow> (\<And>x s' w'. Q x s' w' \<Longrightarrow> P x s' w') \<Longrightarrow> yields m s w P"
  by (auto simp: yields_def)

definition calm :: "'w posix \<Rightarrow> ('w \<Rightarrow> 'v) \<Rightarrow> bool" where
  "calm K view \<longleftrightarrow>
     (\<forall>n w. fst (px_malloc K n w) \<and> view (snd (px_malloc K n w)) = view w) \<and>
     (\<forall>n w. 0 < n \<longrightarrow> fst (px_realloc K None n w) \<noteq> None) \<and>
     (\<forall>p n w. view (snd (px_realloc K p n w)) = view w)"

text \<open>A block that grows stays where it is: realloc need not do that.\<close>

definition in_place :: "'w posix \<Rightarrow> bool" where
  "in_place K \<longleftrightarrow> (\<forall>b n w. 0 < n \<longrightarrow> fst (px_realloc K (Some b) n w) = Some b)"

text \<open>The caller: the process the server finds for this POSIX process.\<close>

definition runs_as :: "'w posix \<Rightarrow> server \<Rightarrow> nat \<Rightarrow> bool" where
  "runs_as K s pid \<longleftrightarrow> (\<forall>w. callerPID s (px_getpid K w) = Some pid)"

lemma runs_as_bound: "runs_as K s pid \<Longrightarrow> pid < length (sv_procs s)"
  using callerPID_Some unfolding runs_as_def by blast

lemma serverSysCall_as: "runs_as K s pid \<Longrightarrow> serverSysCall K req s w = syscall K pid req s w"
  by (simp add: runs_as_def serverSysCall_def)

lemma sys_call_back:
  "runs_as K s pid \<Longrightarrow> syscall K pid req s w = Inr ((r, s'), w') \<Longrightarrow>
   (\<forall>c. r \<noteq> Exits c) \<Longrightarrow> (\<forall>q. r \<noteq> Enters q) \<Longrightarrow> sys_call K req s w = Inr ((Back r, s'), w')"
  by (cases r) (simp_all add: sys_call_def serverSysCall_as)

lemma runs_as_cwd: "runs_as K s pid \<Longrightarrow> runs_as K (upd_proc i (\<lambda>q. q\<lparr>pr_cwd := d\<rparr>) s) pid"
proof -
  have e: "map pr_posixPID (sv_procs (upd_proc i (\<lambda>q. q\<lparr>pr_cwd := d\<rparr>) s)) = map pr_posixPID (sv_procs s)"
    by (cases "i < length (sv_procs s)") (simp_all add: upd_proc_def map_update list_update_same_conv list_update_beyond)
  have "slot_index (\<lambda>q. pr_posixPID q = p) ps = slot_index (\<lambda>x. x = p) (map pr_posixPID ps)" for p ps
    by (induction ps) auto
  then have "callerPID (upd_proc i (\<lambda>q. q\<lparr>pr_cwd := d\<rparr>) s) = callerPID s"
    unfolding callerPID_def getPosixPID_def fun_eq_iff using map_eq_imp_length_eq [OF e] e by metis
  then show "runs_as K s pid \<Longrightarrow> ?thesis" by (simp add: runs_as_def)
qed

lemma alloc_back:
  assumes "runs_as K s pid" "px_realloc K ptr (unat n) w = (r, w')"
  shows "wrap_realloc K ptr n s w = Inr ((Back r, s), w')"
proof -
  have "syscall K pid (SysAlloc ptr (unat n)) s w = Inr ((RetPtr r, s), w')"
    using assms(2) runs_as_bound [OF assms(1)] by (simp add: syscall_def)
  from sys_call_back [OF assms(1) this] show ?thesis
    by (simp add: wrap_realloc_def sys_alloc_def u_bind_def ret_ptr_def u_check_def)
qed

lemma realloc_yields:
  "runs_as K s pid \<Longrightarrow> calm K view \<Longrightarrow>
   yields (wrap_realloc K p n) s w (same view s w (\<lambda>x. \<exists>v. x = fst (px_realloc K p (unat n) v)))"
  by (rule yields_back, rule alloc_back [OF _ surjective_pairing]) (auto simp: calm_def same_def)

lemma malloc_yields:
  assumes "runs_as K s pid" "calm K view" "n \<noteq> 0"
  shows "yields (wrap_malloc K n) s w (same view s w (\<lambda>x. x \<noteq> None))"
  unfolding wrap_malloc_def
  by (rule yields_mono [OF realloc_yields [OF assms(1,2)]])
    (use assms(2,3) in \<open>auto simp: same_def calm_def unat_gt_0\<close>)

lemma free_yields:
  "runs_as K s pid \<Longrightarrow> calm K view \<Longrightarrow> yields (wrap_free K p) s w (same view s w (\<lambda>_. True))"
  unfolding wrap_free_def by (rule yields_bind [OF realloc_yields]) (auto simp: same_def)

lemma grow_yields:
  assumes "runs_as K s pid" "calm K view" "in_place K" "n \<noteq> 0"
  shows "yields (wrap_realloc K (Some b) n) s w (same view s w (\<lambda>x. x = Some b))"
  by (rule yields_mono [OF realloc_yields [OF assms(1,2)]])
    (use assms(3,4) in \<open>auto simp: same_def in_place_def unat_gt_0\<close>)

lemma chdir_yields:
  assumes "runs_as K s pid" "calm K view"
  shows "yields (wrap_chdir K (Some d)) s w
    (same view (upd_proc pid (\<lambda>q. q\<lparr>pr_cwd := Some d\<rparr>) s) w (\<lambda>x. x = 0))"
proof -
  let ?s = "upd_proc pid (\<lambda>q. q\<lparr>pr_cwd := Some d\<rparr>) s" and ?w = "snd (px_malloc K (cstr_size d) w)"
  have "fst (px_malloc K (cstr_size d) w)" using assms(2) by (simp add: calm_def)
  then have "syscall K pid (SysChDir (Some d)) s w = Inr ((Ret 0, ?s), ?w)"
    using runs_as_bound [OF assms(1)] by (simp add: syscall_def setCwd_def upd_proc_def case_prod_unfold)
  from sys_call_back [OF assms(1) this]
  have "wrap_chdir K (Some d) s w = Inr ((Back 0, ?s), ?w)"
    by (simp add: wrap_chdir_def sys_chdir_def u_bind_def ret_int_def u_check_def)
  then show ?thesis by (rule yields_back) (use assms(2) in \<open>simp add: same_def calm_def\<close>)
qed

text \<open>
  getcwd(3): the range error is told apart from success, and what the buffer holds is
  terminated in both cases. Without a working directory it is success, with the buffer
  untouched.
\<close>

lemma getcwd_back:
  assumes "runs_as K s pid" "pr_cwd (sv_procs s ! pid) = Some d" "0 < n" "n < 2 ^ 32" "length b = nat n"
    "int (length d) + 1 < 2 ^ 32"
  shows "wrap_getcwd K (Some b) n s w = Inr ((Back (int (length d) < n, Some (getcwd_buf d (nat n))), s), w)"
proof -
  have n: "to_u32 n = n" using assms(3,4) by (simp add: to_u32_id)
  have l: "to_u32 (int (length d + 1)) = int (length d + 1)" using assms(6) by (intro to_u32_id) simp_all
  have "syscall K pid (SysGetCwd True (nat n)) s w =
      Inr ((RetData (int (length d + 1)) (getcwd_buf d (nat n)), s), w)"
    using assms(2,3) l runs_as_bound [OF assms(1)] by (simp add: syscall_def)
  from sys_call_back [OF assms(1) this]
  have "sys_getcwd K True n s w = Inr ((Back (int (length d + 1), getcwd_buf d (nat n)), s), w)"
    using l by (simp add: sys_getcwd_def n u_bind_def ret_int_def ret_data_def u_check_def)
  moreover have "length (getcwd_buf d (nat n)) = nat n" by (simp add: getcwd_buf_def)
  ultimately show ?thesis
    using assms(3,5) by (auto simp: wrap_getcwd_def u_bind_def u_return_def Let_def)
qed

lemma getcwd_none:
  assumes "runs_as K s pid" "pr_cwd (sv_procs s ! pid) = None" "0 < n"
  shows "wrap_getcwd K (Some b) n s w = Inr ((Back (True, Some b), s), w)"
proof -
  have "syscall K pid (SysGetCwd True m) s w = Inr ((Ret 0, s), w)" for m
    using assms(2) runs_as_bound [OF assms(1)] by (simp add: syscall_def)
  from sys_call_back [OF assms(1) this]
  have "sys_getcwd K True n s w = Inr ((Back (0, []), s), w)"
    by (simp add: sys_getcwd_def u_bind_def ret_int_def ret_data_def u_check_def to_u32_def)
  with assms(3) show ?thesis by (simp add: wrap_getcwd_def u_bind_def u_return_def)
qed

text \<open>A size that is a multiple of \<open>2 ^ 32\<close> passes the test of the library and is 0 for the server.\<close>

lemma getcwd_narrowed:
  assumes "runs_as K s pid" "pr_cwd (sv_procs s ! pid) \<noteq> None" "0 < n" "n mod 2 ^ 32 = 0"
  shows "wrap_getcwd K (Some b) n s w = Inl OutOfBounds"
proof -
  have "to_u32 n = 0" using assms(4) by (simp add: to_u32_def take_bit_eq_mod)
  moreover have "syscall K pid (SysGetCwd True 0) s w = Inl OutOfBounds"
    using assms(2) runs_as_bound [OF assms(1)] by (auto simp: syscall_def)
  ultimately have "sys_getcwd K True n s w = Inl OutOfBounds"
    by (simp add: sys_getcwd_def u_bind_def sys_call_def serverSysCall_as [OF assms(1)])
  with assms(3) show ?thesis by (simp add: wrap_getcwd_def u_bind_def)
qed

end
