(* ===== verification/ShellFacts.thy ===== *)
theory ShellFacts
  imports UserFacts SysResults
begin

text \<open>
  What the commands of the shell do: the paths and directories \<^verbatim>\<open>cd\<close> enters, the effect of
  \<^verbatim>\<open>export\<close>, and how the prompt shows a path. \<open>cd_target\<close> is the path a command names.
\<close>

section \<open>Paths\<close>

lemma path_parts_append: "path_parts (a @ slash # b) = path_parts a @ path_parts b"
proof (induction a rule: path_parts.induct)
  case (2 c cs)
  show ?case
  proof (cases "c = slash \<or> slash \<in> set cs")
    case True
    show ?thesis
    proof (cases "c = slash")
      case True
      with 2 show ?thesis by simp
    next
      case False
      with True obtain u v where cs: "cs = u @ slash # v" "slash \<notin> set u" by (auto dest: split_list_first)
      have "path_parts ((c # cs) @ slash # b) = (c # u) # path_parts (slash # v @ slash # b)"
        using False cs split_part [OF cs(2), of "v @ slash # b"] by simp
      moreover have "path_parts (c # cs) = (c # u) # path_parts (slash # v)"
        using False cs split_part [OF cs(2), of v] by simp
      moreover have "path_parts ((slash # v) @ slash # b) = path_parts (slash # v) @ path_parts b"
        using 2(2) False cs split_part [OF cs(2), of v] by simp
      ultimately show ?thesis by simp
    qed
  next
    case False
    then have "slash \<notin> set cs" "c \<noteq> slash" by simp_all
    with split_part [of cs b] whole_part [of cs] show ?thesis
      by (simp del: takeWhile_eq_all_conv dropWhile_eq_Nil_conv)
  qed
qed simp

lemma canonical_eqI:
  "path_parts p = path_parts q \<Longrightarrow> (p \<noteq> [] \<and> hd p = slash) = (q \<noteq> [] \<and> hd q = slash) \<Longrightarrow> canonical p = canonical q"
  by (simp add: canonical_def)

lemma canonical_absolute: "is_absolute (canonical p) \<longleftrightarrow> is_absolute p"
proof (cases "p \<noteq> [] \<and> hd p \<noteq> slash")
  case True
  then have ne: "path_parts p \<noteq> []" by (cases p) auto
  from True join_parts_first [OF ne] path_parts_ok [of _ p] show ?thesis by (auto simp: is_absolute_def canonical_def)
qed (auto simp: is_absolute_def canonical_def)

text \<open>A slash more between the home directory and a path below it makes no difference.\<close>

lemma canonical_home:
  assumes "home \<noteq> []" "x = [] \<or> hd x = slash"
  shows "canonical (home @ slash # x) = canonical (home @ x)"
proof (rule canonical_eqI)
  show "path_parts (home @ slash # x) = path_parts (home @ x)"
  proof (cases x)
    case Nil
    then show ?thesis by (simp add: path_parts_append)
  next
    case (Cons c y)
    with assms(2) show ?thesis by (simp add: path_parts_append)
  qed
qed (use assms(1) in simp)

lemma NUL_path_parts: "NUL \<notin> set p \<Longrightarrow> x \<in> set (path_parts p) \<Longrightarrow> NUL \<notin> set x"
  by (induction p rule: path_parts.induct) (auto dest: set_takeWhileD set_dropWhileD split: if_splits)

lemma set_join_parts: "set (join_parts xs) \<subseteq> insert slash (\<Union> (set ` set xs))"
  by (induction xs rule: join_parts.induct) auto

lemma NUL_canonical: "NUL \<notin> set p \<Longrightarrow> NUL \<notin> set (canonical p)"
  using set_join_parts [of "path_parts p"] NUL_path_parts [of p] by (auto simp: canonical_def)

lemma length_squeeze: "length (squeeze p) \<le> length p"
  by (induction p rule: squeeze.induct) (auto intro: order_trans [OF _ length_dropWhile_le])

lemma length_canonical: "length (canonical p) \<le> length p"
proof (cases "p = []")
  case False
  have "length (canonical p) \<le> length (squeeze p)"
    unfolding squeeze_canonical [OF False, symmetric] by (simp add: drop_end_def)
  then show ?thesis using length_squeeze [of p] by (rule order_trans)
qed (simp add: canonical_def)

section \<open>Absolute paths\<close>

lemma size_not_0: "0 < n \<Longrightarrow> n < 2 ^ 64 \<Longrightarrow> (of_nat n :: 64 word) \<noteq> 0"
  by (auto simp: word_of_nat_eq_0_iff dest!: dvd_imp_le)

lemma path_block_yields:
  assumes "runs_as K s pid" "calm K view" "before @ path \<noteq> []" "length (before @ path) + 1 < 2 ^ 64"
  shows "yields (path_block K before path) s w (same view s w (\<lambda>r. \<exists>b. r = Some (b, canonical (before @ path))))"
  unfolding path_block_def
proof (rule yields_bind [OF malloc_yields [OF assms(1,2) size_not_0]])
  fix x s1 w1
  assume "same view s w (\<lambda>x. x \<noteq> None) x s1 w1"
  with assms(3) show "yields (case x of None \<Rightarrow> u_return None
      | Some q \<Rightarrow> u_bind (u_check (shellPathReduce (before @ path))) (\<lambda>t. u_return (Some (q, t)))) s1 w1
    (same view s w (\<lambda>r. \<exists>b. r = Some (b, canonical (before @ path))))"
    by (auto simp: same_def shellPathReduce_canonical)
qed (use assms(4) in simp_all)

lemma absolute_plain:
  "runs_as K s pid \<Longrightarrow> calm K view \<Longrightarrow> p \<noteq> [] \<Longrightarrow> hd p \<noteq> CHR ''~'' \<Longrightarrow> length p + 1 < 2 ^ 64 \<Longrightarrow>
   yields (shellPathAbsolute K env (Some p)) s w (same view s w (\<lambda>r. \<exists>b. r = Some (b, canonical p)))"
  using path_block_yields [of K s pid view "[]" p w] by (simp add: shellPathAbsolute_def)

lemma absolute_home:
  "runs_as K s pid \<Longrightarrow> calm K view \<Longrightarrow> wrap_getenv env HOME = Some home \<Longrightarrow>
   length (home @ slash # x) + 1 < 2 ^ 64 \<Longrightarrow>
   yields (shellPathAbsolute K env (Some (CHR ''~'' # x))) s w
     (same view s w (\<lambda>r. \<exists>b. r = Some (b, canonical (home @ slash # x))))"
  using path_block_yields [of K s pid view "home @ ''/''" x w] by (simp add: shellPathAbsolute_def)

section \<open>Commands\<close>

text \<open>\<^verbatim>\<open>cd\<close>, from the absolute path on: PWD follows unless the path does not fit in the line buffer.\<close>

definition sets_env :: "'w libc \<Rightarrow> ('w \<Rightarrow> 'v) \<Rightarrow> (string \<Rightarrow> string \<Rightarrow> 'v \<Rightarrow> 'v) \<Rightarrow> bool" where
  \<comment> \<open>what setenv does to the view\<close>
  "sets_env L view put \<longleftrightarrow> (\<forall>n v w. view (lc_setenv L n v w) = put n v (view w))"

lemma cd_to:
  assumes "runs_as K s pid" "calm K view" "sets_env L view put" "length (lc_stack L) = nat LINESIZE"
    and abs: "yields (shellPathAbsolute K env (fst (strtok_r save '' ''))) s w (same view s w (\<lambda>r. \<exists>b. r = Some (b, d)))"
    and d: "NUL \<notin> set d" "int (length d) + 1 < 2 ^ 32"
  shows "yields (shellCd K L env save) s w (\<lambda>_ s' w'. s' = upd_proc pid (\<lambda>q. q\<lparr>pr_cwd := Some d\<rparr>) s \<and>
      view w' = (if int (length d) < LINESIZE then put ''PWD'' d (view w) else view w))"
    (is "yields _ _ _ ?P")
proof -
  let ?s = "upd_proc pid (\<lambda>q. q\<lparr>pr_cwd := Some d\<rparr>) s" and ?n = "nat LINESIZE"
  let ?line = "(int (length d) < LINESIZE, Some (getcwd_buf d ?n))"
  have run: "runs_as K ?s pid" by (rule runs_as_cwd [OF assms(1)])
  have cwd: "pr_cwd (sv_procs ?s ! pid) = Some d"
    using runs_as_bound [OF assms(1)] by (simp add: upd_proc_def)
  have get: "wrap_getcwd K (Some (lc_stack L)) LINESIZE ?s v = Inr ((Back ?line, ?s), v)" for v
    by (rule getcwd_back [OF run cwd _ _ assms(4) d(2)]) (simp_all add: LINESIZE_def)
  note got = u_bind_Back [where m = "wrap_getcwd K (Some (lc_stack L)) LINESIZE", OF get]
  have pwd: "yields (set_pwd L ?line) ?s v (\<lambda>_ s' v'. s' = ?s \<and>
      view v' = (if int (length d) < LINESIZE then put ''PWD'' d (view v) else view v))" for v
    using getcwd_buf_result(1) [of ?n d] d(1) assms(3)
    by (auto simp: set_pwd_def LINESIZE_def sets_env_def)
  have change: "yields (u_bind (wrap_chdir K (Some d)) (\<lambda>c. if c \<noteq> 0 then wrap_free K (Some b)
      else u_bind (wrap_getcwd K (Some (lc_stack L)) LINESIZE) (\<lambda>line.
        u_bind (set_pwd L line) (\<lambda>_. wrap_free K (Some b))))) s v ?P" if "view v = view w" for b v
  proof (rule yields_bind [OF chdir_yields [OF assms(1,2)]])
    fix c s1 w1
    assume c: "same view ?s v (\<lambda>x. x = 0) c s1 w1"
    have "yields (wrap_free K (Some b)) ?s u ?P"
      if "view u = (if int (length d) < LINESIZE then put ''PWD'' d (view w) else view w)" for u
      by (rule yields_mono [OF free_yields [OF run assms(2)]]) (simp add: same_def that)
    with c that have "yields (u_bind (set_pwd L ?line) (\<lambda>_. wrap_free K (Some b))) ?s w1 ?P"
      by (intro yields_bind [OF pwd]) (simp add: same_def)
    then show "yields (if c \<noteq> 0 then wrap_free K (Some b) else u_bind (wrap_getcwd K (Some (lc_stack L)) LINESIZE)
        (\<lambda>line. u_bind (set_pwd L line) (\<lambda>_. wrap_free K (Some b)))) s1 w1 ?P"
      using c by (simp add: same_def yields_def got)
  qed
  obtain g r where g: "strtok_r save '' '' = (g, r)" by fastforce
  show ?thesis
    unfolding shellCd_def g prod.case
    by (rule yields_bind [OF abs [unfolded g fst_conv]])
      (unfold same_def, elim conjE exE, simp only: option.case prod.case, rule change)
qed

text \<open>A line that is a command with one argument.\<close>

definition shell_word :: "string \<Rightarrow> bool" where
  "shell_word g \<longleftrightarrow> g \<noteq> [] \<and> set g \<inter> {CHR '' '', CHR ''#'', CHR 0x0A, NUL} = {}"

lemma strtok_word_space:
  assumes "g \<noteq> []" "CHR '' '' \<notin> set g"
  shows "strtok_r g '' '' = (Some g, []) \<and> strtok_r (g @ CHR '' '' # r) '' '' = (Some g, r)"
proof -
  from assms obtain c h where g: "g = c # h" "c \<noteq> CHR '' ''" "CHR '' '' \<notin> set h" by (cases g) auto
  from g(3) have "takeWhile (\<lambda>x. x \<noteq> CHR '' '') h = h \<and> dropWhile (\<lambda>x. x \<noteq> CHR '' '') h = [] \<and>
      takeWhile (\<lambda>x. x \<noteq> CHR '' '') (h @ CHR '' '' # r) = h \<and>
      dropWhile (\<lambda>x. x \<noteq> CHR '' '') (h @ CHR '' '' # r) = CHR '' '' # r"
    by (induction h) auto
  with g show ?thesis
    by (simp add: strtok_r_def Let_def del: takeWhile_eq_all_conv dropWhile_eq_Nil_conv)
qed

lemma strip_comment_none: "CHR ''#'' \<notin> set l \<Longrightarrow> strip_comment l = l"
  using strchr_None [of l "CHR ''#''"] by (simp add: strip_comment_def)

lemma parse_command:
  assumes "shell_word c" "shell_word g"
  shows "shellParseLine K L env out (c @ '' '' @ g @ [CHR 0x0A]) =
    (if c = ''cd'' then shellCd K L env g
     else if c = ''export'' then shellExport L g
     else if out \<noteq> -1 then
       u_bind (wrap_write K out c (int (length c))) (\<lambda>_.
         u_bind (wrap_write K out not_found (int (length not_found))) (\<lambda>_. u_return ()))
     else u_return ())"
proof -
  let ?l = "c @ '' '' @ g @ [CHR 0x0A]"
  have "CHR ''#'' \<notin> set ?l" using assms by (auto simp: shell_word_def)
  then have strip: "strip_comment ?l = ?l" by (rule strip_comment_none)
  have cut: "last ?l = CHR 0x0A" "butlast ?l = c @ CHR '' '' # g" by (simp_all add: butlast_append)
  have tok: "strtok_r (c @ CHR '' '' # g) '' '' = (Some c, g)"
    using assms(1) strtok_word_space [of c g] by (simp add: shell_word_def)
  have tw: "takeWhile (\<lambda>x. x = CHR '' '') (c @ CHR '' '' # g) = []"
    using assms(1) by (cases c) (auto simp: shell_word_def)
  have "?l \<noteq> []" "c @ CHR '' '' # g \<noteq> []" by simp_all
  then show ?thesis
    by (simp only: shellParseLine_def Let_def strip cut tok tw if_False simp_thms if_True prod.case option.case append_Nil)
qed

lemma export_word:
  "CHR ''='' \<notin> set n \<Longrightarrow> shell_word (n @ CHR ''='' # v) \<Longrightarrow>
   shellExport L (n @ CHR ''='' # v) s w = Inr ((Back (), s), lc_setenv L n v w)"
  using strtok_word_space [of "n @ CHR ''='' # v"]
  by (simp add: shellExport_def shell_word_def strchr_append u_world_def)

text \<open>The path \<^verbatim>\<open>cd\<close> makes of its argument, before the reduction.\<close>

definition cd_target :: "string list option \<Rightarrow> string \<Rightarrow> string option" where
  "cd_target env g =
     (if hd g = CHR ''~'' then map_option (\<lambda>home. home @ slash # tl g) (wrap_getenv env HOME) else Some g)"

lemma absolute_target:
  assumes "runs_as K s pid" "calm K view" "shell_word g" "cd_target env g = Some t" "length t + 1 < 2 ^ 64"
  shows "yields (shellPathAbsolute K env (fst (strtok_r g '' ''))) s w
    (same view s w (\<lambda>r. \<exists>b. r = Some (b, canonical t)))"
proof -
  from assms(3) obtain c x where g: "g = c # x" by (cases g) (auto simp: shell_word_def)
  have "fst (strtok_r g '' '') = Some g" using strtok_word_space [of g] assms(3) by (simp add: shell_word_def)
  then show ?thesis
    using assms absolute_plain [of K s pid view g env w] absolute_home [of K s pid view env _ x w]
    by (auto simp: g cd_target_def split: if_splits)
qed

lemma cd_nowhere:
  assumes "shell_word g" "cd_target env g = None"
  shows "shellCd K L env g s w = Inr ((Back (), s), w)"
proof -
  from assms(1) obtain c x where g: "g = c # x" by (cases g) (auto simp: shell_word_def)
  have "shellPathAbsolute K env (Some g) = u_return None"
    using assms(2) by (auto simp: g cd_target_def shellPathAbsolute_def split: if_splits)
  moreover obtain r where "strtok_r g '' '' = (Some g, r)"
    using strtok_word_space [of g] assms(1) by (auto simp: shell_word_def)
  ultimately show ?thesis by (simp add: shellCd_def u_return_def)
qed

section \<open>The display of a path\<close>

lemma join_parts_append:
  "xs \<noteq> [] \<Longrightarrow> ys \<noteq> [] \<Longrightarrow> join_parts (xs @ ys) = join_parts xs @ slash # join_parts ys"
proof (induction xs rule: join_parts.induct)
  case (2 x)
  then show ?case by (simp add: join_parts_Cons)
qed simp_all

lemma display_home:
  assumes "runs_as K s pid" "calm K view" "in_place K" "wrap_getenv env HOME = Some home" "home \<noteq> []"
    and "NUL \<notin> set home" "canonical (home @ x) = home @ x" "hd home \<noteq> CHR ''~''" "length (home @ x) + 2 < 2 ^ 64"
  shows "yields (shellPathDisplay K env (Some (home @ x))) s w
    (same view s w (\<lambda>r. \<exists>b. r = Some (b, canonical (''~/'' @ x))))" (is "yields _ _ _ ?P")
proof -
  have show_home: "yields (home_display K home b (home @ x)) s v ?P" if "view v = view w" for b v
    unfolding home_display_def
    using assms(5,9) that by (intro yields_bind [OF grow_yields [OF assms(1-3) size_not_0]])
      (auto simp: same_def shellPathReduce_canonical)
  have "yields (shellPathAbsolute K env (Some (home @ x))) s w (same view s w (\<lambda>r. \<exists>b. r = Some (b, home @ x)))"
    using absolute_plain [OF assms(1,2), of "home @ x" env w] assms(5,7-9) by simp
  then show ?thesis
    unfolding shellPathDisplay_def
    by (rule yields_bind) (use assms(4) strncmp_eq_prefix [OF assms(6)] show_home in \<open>auto simp: same_def\<close>)
qed

lemma home_canonical:
  assumes "canonical home = home" "home \<noteq> []" "home \<noteq> [slash]"
  shows "path_parts home \<noteq> []"
  using assms by (auto simp: canonical_def split: if_splits)

lemma tilde_canonical:
  "canonical (''~/'' @ x) = CHR ''~'' # (if path_parts x = [] then [] else slash # join_parts (path_parts x))"
  by (simp add: canonical_def join_parts_Cons)

lemma tilde_resolves:
  assumes "home \<noteq> []" "canonical (''~/'' @ x) = CHR ''~'' # y"
  shows "canonical (home @ slash # y) = canonical (home @ slash # x)"
proof (rule canonical_eqI)
  have "path_parts y = path_parts x"
    using assms(2) tilde_canonical [of x] path_parts_join [of "path_parts x"] path_parts_ok [of _ x]
    by (auto split: if_splits)
  then show "path_parts (home @ slash # y) = path_parts (home @ slash # x)"
    by (simp add: path_parts_append)
qed (use assms(1) in simp)

lemma home_boundary:
  assumes "canonical home = home" "home \<noteq> []" "home \<noteq> [slash]" "canonical (home @ x) = home @ x"
  shows "canonical (home @ slash # x) = home @ x \<longleftrightarrow> x = [] \<or> hd x = slash"
proof (cases "x = [] \<or> hd x = slash")
  case True
  with canonical_home [OF assms(2) True] assms(4) show ?thesis by simp
next
  case False
  then have ne: "path_parts x \<noteq> []" by (cases x) auto
  have "canonical (home @ slash # x) = canonical home @ slash # join_parts (path_parts x)"
    using assms(2) by (simp add: canonical_def path_parts_append join_parts_append [OF home_canonical [OF assms(1-3)] ne])
  with assms(1) False show ?thesis by (cases x) auto
qed

text \<open>What follows the home directory in a canonical path is canonical after the tilde.\<close>

lemma canonical_suffix:
  assumes "x \<noteq> []" "hd x \<noteq> slash"
  shows "canonical (a @ x) = a @ x \<Longrightarrow> canonical x = x"
proof (induction a)
  case (Cons c a)
  let ?r = "a @ x"
  have ne: "?r \<noteq> []" "\<not> (\<forall>d \<in> set ?r. d = slash)" using assms by (auto dest: hd_in_set)
  have "canonical ?r = ?r"
  proof (cases "c = slash")
    case False
    with Cons.prems canonical_char [OF False ne(2)] show ?thesis by simp
  next
    case True
    have "hd ?r \<noteq> slash"
    proof
      assume h: "hd ?r = slash"
      have "canonical (slash # ?r) = canonical ?r" by (rule canonical_eqI) (use ne(1) h in simp_all)
      with Cons.prems True length_canonical [of ?r] show False by simp
    qed
    with Cons.prems True canonical_slash [OF ne(1), of ?r] show ?thesis by simp
  qed
  then show ?case by (rule Cons.IH)
qed simp

lemma tilde_display:
  assumes "canonical home = home" "home \<noteq> []" "canonical (home @ x) = home @ x"
  shows "canonical (''~/'' @ x) = CHR ''~'' # (if x = [] \<or> hd x = slash then x else slash # x)"
proof -
  have t: "canonical (''~/'' @ slash # y) = CHR ''~'' # slash # y" "canonical (''~/'' @ y) = CHR ''~'' # slash # y"
    if "y \<noteq> []" "hd y \<noteq> slash" "canonical y = y" for y
  proof -
    from that obtain c z where "y = c # z" "c \<noteq> slash" by (cases y) auto
    then have "path_parts y \<noteq> []" by simp
    with that show "canonical (''~/'' @ y) = CHR ''~'' # slash # y" "canonical (''~/'' @ slash # y) = CHR ''~'' # slash # y"
      unfolding tilde_canonical by (simp_all add: canonical_def [of y])
  qed
  show ?thesis
  proof (cases "x = [] \<or> hd x \<noteq> slash")
    case True
    then show ?thesis using t(2) [of x] canonical_suffix [of x home] assms(3) tilde_canonical [of "[]"] by (cases x) auto
  next
    case False
    then obtain y where x: "x = slash # y" by (cases x) auto
    have "y \<noteq> []"
    proof
      assume "y = []"
      then have "canonical (home @ x) = canonical home" using assms(2) x by (intro canonical_eqI) (simp_all add: path_parts_append)
      with assms(1,3) x show False by simp
    qed
    moreover have "hd y \<noteq> slash"
    proof
      assume "hd y = slash"
      with \<open>y \<noteq> []\<close> obtain z where y: "y = slash # z" by (cases y) auto
      have "canonical (home @ x) = canonical (home @ slash # z)" using assms(2) x y
        by (intro canonical_eqI) (simp_all add: path_parts_append)
      then have "length (home @ x) \<le> length (home @ slash # z)"
        unfolding assms(3) using length_canonical [of "home @ slash # z"] by simp
      with x y show False by simp
    qed
    moreover from this canonical_suffix [OF \<open>y \<noteq> []\<close>, of "home @ [slash]"] assms(3) x have "canonical y = y" by simp
    ultimately show ?thesis using t(1) [of y] x by simp
  qed
qed

section \<open>The line buffer\<close>

text \<open>What comes back through \<open>u_bind\<close> and what faults in it.\<close>

lemma u_bind_eq_Back:
  "u_bind m f s w = Inr ((Back y, s'), w') \<longleftrightarrow>
   (\<exists>x s1 w1. m s w = Inr ((Back x, s1), w1) \<and> f x s1 w1 = Inr ((Back y, s'), w'))"
  by (cases "m s w" rule: u_call_cases) (simp_all add: u_bind_def)

lemma u_bind_eq_Inl:
  "u_bind m f s w = Inl e \<longleftrightarrow>
   m s w = Inl e \<or> (\<exists>x s1 w1. m s w = Inr ((Back x, s1), w1) \<and> f x s1 w1 = Inl e)"
  by (cases "m s w" rule: u_call_cases) (simp_all add: u_bind_def)

lemma u_steps_eq:
  "u_return x s w = Inr ((b, s'), w') \<longleftrightarrow> b = Back x \<and> s' = s \<and> w' = w"
  "u_return x s w \<noteq> Inl e"
  "u_check r s w = Inr ((b, s'), w') \<longleftrightarrow> (\<exists>x. r = Inr x \<and> b = Back x \<and> s' = s \<and> w' = w)"
  "u_check r s w = Inl e \<longleftrightarrow> r = Inl e"
  by (cases r; auto simp: u_return_def u_check_def)+

lemma sys_call_Back:
  assumes "sys_call K req s w = Inr ((Back x, s'), w')"
  shows "serverSysCall K req s w = Inr ((x, s'), w')"
proof (cases "serverSysCall K req s w" rule: result_cases)
  case (ok r s1 w1)
  with assms show ?thesis by (cases r) (simp_all add: sys_call_def)
qed (use assms in \<open>simp add: sys_call_def\<close>)

lemma syscall_getcwd_bytes:
  "syscall K pid (SysGetCwd True n) s w = Inr ((r, s'), w') \<Longrightarrow> length (ret_data r) \<in> {0, n}"
  by (auto simp: syscall_def ret_data_def getcwd_buf_def split: if_splits option.splits)

lemma getcwd_buffer:
  assumes "wrap_getcwd K (Some b) n s w = Inr ((Back (ok, r), s'), w')" "length b = nat n" "0 < n" "n < 2 ^ 32"
  shows "\<exists>b'. r = Some b' \<and> length b' = nat n"
proof -
  have n: "to_u32 n = n" using assms(3,4) by (intro to_u32_id) simp_all
  from assms(1,3) obtain x where x: "sys_call K (SysGetCwd True (nat n)) s w = Inr ((Back x, s'), w')"
    and r: "r = Some (ret_data x @ drop (length (ret_data x)) b)"
    by (auto simp: wrap_getcwd_def sys_getcwd_def u_bind_eq_Back u_steps_eq n and_then_eq_Inr Let_def
        split: if_splits)
  from sys_call_Back [OF x] have "length (ret_data x) \<in> {0, nat n}"
    by (auto simp: serverSysCall_def ret_data_def [of NoRet] split: option.splits dest!: syscall_getcwd_bytes)
  with r assms(2) show ?thesis by auto
qed

lemma prompt_buffer:
  assumes "shell_prompt K env o' b s w = Inr ((Back b1, s'), w')" "length b = nat LINESIZE"
  shows "length b1 = nat LINESIZE"
proof (cases "o' = -1")
  case True
  with assms show ?thesis by (simp add: shell_prompt_def u_steps_eq)
next
  case False
  with assms(1) obtain ok r s1 w1 where g: "wrap_getcwd K (Some b) LINESIZE s w = Inr ((Back (ok, r), s1), w1)"
    and b1: "b1 = the r"
    by (auto simp: shell_prompt_def u_bind_eq_Back u_steps_eq)
  from getcwd_buffer [OF g assms(2)] b1 show ?thesis by (auto simp: LINESIZE_def)
qed

lemma read_buffer:
  assumes "px_io_sane K" "wrap_read K i True n s w = Inr ((Back (c, bs), s'), w')" "0 \<le> n" "n < 2 ^ 31"
  shows "c \<le> n \<and> length bs \<le> nat n"
proof -
  have n: "to_u32 n = n" using assms(3,4) by (intro to_u32_id) simp_all
  from assms(2) obtain x where x: "sys_call K (SysRead i True (nat n)) s w = Inr ((Back x, s'), w')"
    and c: "ret_int x = Inr c" "bs = ret_data x"
    by (auto simp: wrap_read_def sys_read_def u_bind_eq_Back u_steps_eq n and_then_eq_Inr)
  note call = sys_call_Back [OF x]
  show ?thesis
  proof (cases "callerPID s (px_getpid K w)")
    case None
    with call c show ?thesis by (auto simp: serverSysCall_def ret_int_def)
  next
    case (Some pid)
    with call have sc: "syscall K pid (SysRead i True (nat n)) s w = Inr ((x, s'), w')"
      by (simp add: serverSysCall_def)
    then obtain d ys where d: "x = RetData d ys" by (auto simp: syscall_def fault_simps split: if_splits)
    have "nat n < 2 ^ 31" using assms(4) by simp
    from sysRead_bounds [OF assms(1) sc [unfolded d] this] assms(3) d c show ?thesis
      by (simp add: ret_int_def ret_data_def)
  qed
qed

lemma c_str_shorter: "NUL \<in> set b \<Longrightarrow> length (c_str b) < length b"
  by (induction b) (auto simp: c_str_def)

lemma length_strip_comment: "length (strip_comment l) \<le> length l"
  by (simp add: strip_comment_def split: option.split)

lemma length_strtok:
  assumes "strtok_r l '' '' = (Some part, save)"
  shows "length (takeWhile (\<lambda>c. c = CHR '' '') l @ part) \<le> length l"
proof -
  have d: "length (takeWhile (\<lambda>c. c = CHR '' '') l) + length (dropWhile (\<lambda>c. c = CHR '' '') l) = length l"
    by (metis length_append takeWhile_dropWhile_id)
  from assms have "length part \<le> length (dropWhile (\<lambda>c. c = CHR '' '') l)"
    by (auto simp: strtok_r_def Let_def length_takeWhile_le split: if_splits)
  with d show ?thesis by simp
qed

lemma length_parsed_line: "length (parsed_line l) \<le> length l"
proof -
  define l2 where "l2 = (if strip_comment l \<noteq> [] \<and> last (strip_comment l) = CHR 0x0A then butlast (strip_comment l) else strip_comment l)"
  have "length l2 \<le> length (strip_comment l)" by (simp add: l2_def)
  then have "length l2 \<le> length l" using length_strip_comment [of l] by (rule order_trans)
  moreover have "length (parsed_line l) \<le> length l2"
    unfolding parsed_line_def Let_def l2_def [symmetric]
    by (cases "strtok_r l2 '' ''") (use length_strtok [of l2] in \<open>auto split: option.split\<close>)
  ultimately show ?thesis by simp
qed

text \<open>
  A turn that read something: the count is below the size of the buffer, so the store of the NUL
  stays in it, and what is parsed is the string of the bytes before.
\<close>

lemma c_str_update: "n < length b \<Longrightarrow> c_str (b[n := NUL]) = c_str (take n b)"
  by (auto simp: upd_conv_take_nth_drop c_str_def takeWhile_append simp flip: takeWhile_eq_all_conv)

lemma c_str_take_length: "length (c_str (take k b)) \<le> k"
  using length_takeWhile_le [of "\<lambda>c. c \<noteq> NUL" "take k b"] by (simp add: c_str_def)

lemma turn_reads:
  assumes "px_io_sane K" "length b = nat LINESIZE"
    and "shell_prompt K env o' b s w = Inr ((Back b1, s1), w1)"
    and "wrap_read K i True (LINESIZE - 1) s1 w1 = Inr ((Back (count, bs), s2), w2)" "0 < count"
  shows "\<exists>b2. length b2 = nat LINESIZE \<and> c_str b2 = c_str (take (nat count) (bs @ drop (length bs) b1)) \<and>
    length (parsed_line (c_str b2)) \<le> length (c_str b2) \<and> length (c_str b2) < nat LINESIZE \<and>
    shell_turn K L env i o' b s w = u_bind (shellParseLine K L env o' (c_str b2)) (\<lambda>_.
      u_return (Inl (b2[length (parsed_line (c_str b2)) := NUL]))) s2 w2"
proof -
  from read_buffer [OF assms(1,4)] assms(5)
  have r: "nat count < nat LINESIZE" "length bs < nat LINESIZE" by (auto simp: LINESIZE_def)
  let ?b = "bs @ drop (length bs) b1"
  have len: "length ?b = nat LINESIZE" using prompt_buffer [OF assms(3,2)] r by simp
  let ?b2 = "?b[nat count := NUL]"
  have "length ?b2 = nat LINESIZE" using len by simp
  moreover have line: "c_str ?b2 = c_str (take (nat count) ?b)" using len r by (intro c_str_update) simp
  moreover from line have "length (c_str ?b2) < nat LINESIZE"
    using le_less_trans [OF c_str_take_length r(1)] by metis
  moreover have "store_nul ?b count = Inr ?b2" using len r(1) assms(5) by (simp add: store_nul_def)
  then have "shell_turn K L env i o' b s w = u_bind (shellParseLine K L env o' (c_str ?b2)) (\<lambda>_.
      u_return (Inl (?b2[length (parsed_line (c_str ?b2)) := NUL]))) s2 w2"
    unfolding shell_turn_def u_bind_Back [where m = "shell_prompt K env o' b", OF assms(3)]
      u_bind_Back [where m = "wrap_read K i True (LINESIZE - 1)", OF assms(4)] using assms(5) by simp
  ultimately show ?thesis using length_parsed_line by blast
qed

end
