(* ===== verification/Factor.thy ===== *)
theory Factor
  imports Programs
begin

text \<open>
  \<^verbatim>\<open>src/programs/factor/src/factor.c\<close>: trial division on 64-bit words. The square root is the
  one of the host's mathematics library, converted to an integer: a parameter \<open>root\<close>, of
  which the program relies on what \<open>root_ok\<close> says, that it is not too small by one or more
  and at most \<open>2 ^ 32\<close>; rounding up is harmless. The number is read by atoll, a parameter
  too.
\<close>

type_synonym u64 = "64 word"

section \<open>The program\<close>

partial_function (option) factor_loop ::
    "(u64 \<Rightarrow> u64) \<Rightarrow> 'w libc \<Rightarrow> u64 \<Rightarrow> u64 \<Rightarrow> u64 \<Rightarrow> 'w \<Rightarrow> (u64 \<times> 'w) option" where
  \<comment> \<open>\<^verbatim>\<open>for(d=2;d<=sqrtn;++d)\<close>, from \<open>d\<close>: what is left of \<open>n\<close>, and the world after the prints\<close>
  "factor_loop root L n sqrtn d w =
     (if d \<le> sqrtn then
        (let q = n div d; r = n - d * (n div d)
         in if r = 0
            then factor_loop root L q (root q) (d - 1 + 1) (lc_print L ('' '' @ decimal (unat d)) w)
            else factor_loop root L n sqrtn (d + 1) w)
      else Some (n, w))"

definition factor_number :: "(u64 \<Rightarrow> u64) \<Rightarrow> 'w libc \<Rightarrow> u64 \<Rightarrow> 'w \<Rightarrow> 'w option" where
  \<comment> \<open>the body of the loop over the arguments\<close>
  "factor_number root L n w =
     (let w1 = lc_print L (decimal (unat n) @ '':'') w
      in if n < 2 then Some (lc_print L ('' '' @ decimal (unat n) @ newline) w1)
         else (case factor_loop root L n (root n) 2 w1 of
             None \<Rightarrow> None
           | Some (m, w2) \<Rightarrow>
               (let w3 = (if m \<noteq> 1 then lc_print L ('' '' @ decimal (unat m)) w2 else w2)
                in Some (lc_print L newline w3))))"

fun factor_args :: "(string \<Rightarrow> u64) \<Rightarrow> (u64 \<Rightarrow> u64) \<Rightarrow> 'w libc \<Rightarrow> string list \<Rightarrow> 'w \<Rightarrow> 'w option" where
  "factor_args atoll root L [] w = Some w"
| "factor_args atoll root L (a # as) w =
     (case factor_number root L (atoll a) w of None \<Rightarrow> None | Some w' \<Rightarrow> factor_args atoll root L as w')"

definition factor_main ::
    "(string \<Rightarrow> u64) \<Rightarrow> (u64 \<Rightarrow> u64) \<Rightarrow> 'w libc \<Rightarrow> string list \<Rightarrow> 'w \<Rightarrow> (fault + (int \<times> 'w)) option" where
  \<comment> \<open>the usage message has a conversion \<^verbatim>\<open>%s\<close> without an argument\<close>
  "factor_main atoll root L argv w =
     (if length argv \<le> 1 then Some (Inl UninitRead)
      else map_option (\<lambda>w'. Inr (0, w')) (factor_args atoll root L (drop 1 argv) w))"

section \<open>Its correctness\<close>

definition root_ok :: "(u64 \<Rightarrow> u64) \<Rightarrow> bool" where
  "root_ok root \<longleftrightarrow> (\<forall>n. unat n < (unat (root n) + 1) ^ 2 \<and> unat (root n) \<le> 2 ^ 32)"

definition is_prime :: "nat \<Rightarrow> bool" where
  "is_prime p \<longleftrightarrow> 1 < p \<and> (\<forall>d. d dvd p \<longrightarrow> d = 1 \<or> d = p)"

definition no_factor_below :: "nat \<Rightarrow> nat \<Rightarrow> bool" where
  "no_factor_below d n \<longleftrightarrow> (\<forall>k. 1 < k \<longrightarrow> k < d \<longrightarrow> \<not> k dvd n)"

definition print_factor :: "'w libc \<Rightarrow> nat \<Rightarrow> 'w \<Rightarrow> 'w" where
  "print_factor L p w = lc_print L ('' '' @ decimal p) w"

text \<open>A number without a factor from 2 up to its root is prime, or 1.\<close>

lemma no_factor_prime:
  assumes "no_factor_below d n" "0 < n" "n < d ^ 2"
  shows "n = 1 \<or> is_prime n"
proof (rule disjCI)
  assume np: "\<not> is_prime n"
  show "n = 1"
  proof (rule ccontr)
    assume "n \<noteq> 1"
    with np assms(2) obtain a where a: "a dvd n" "a \<noteq> 1" "a \<noteq> n" by (auto simp: is_prime_def)
    then obtain b where b: "n = a * b" by blast
    with a assms(2) have "1 < a" "1 < b" by (auto intro!: Suc_lessI gr0I)
    have "a < d \<or> b < d"
    proof (rule ccontr)
      assume "\<not> ?thesis"
      then have "d * d \<le> a * b" by (intro mult_le_mono) simp_all
      with assms(3) b show False by (simp add: power2_eq_square)
    qed
    with assms(1) b \<open>1 < a\<close> \<open>1 < b\<close> show False by (auto simp: no_factor_below_def)
  qed
qed

lemma factor_is_prime:
  assumes "no_factor_below d n" "d dvd n" "1 < d"
  shows "is_prime d"
  unfolding is_prime_def
proof (intro conjI allI impI)
  fix k assume k: "k dvd d"
  with assms(3) have "0 < k" "k \<le> d" by (auto intro: Nat.gr0I dvd_imp_le)
  moreover have "k dvd n" using k assms(2) by (rule dvd_trans)
  moreover have "\<not> (1 < k \<and> k < d)" using assms(1) \<open>k dvd n\<close> by (auto simp: no_factor_below_def)
  ultimately show "k = 1 \<or> k = d" by linarith
qed (rule assms(3))

lemma no_factor_div:
  assumes "no_factor_below d n" "d dvd n"
  shows "no_factor_below d (n div d)"
proof -
  from assms(2) have "n = d * (n div d)" by simp
  then have "k dvd n" if "k dvd n div d" for k using that by (metis dvd_mult)
  with assms(1) show ?thesis by (auto simp: no_factor_below_def)
qed

lemma no_factor_Suc: "no_factor_below d n \<Longrightarrow> \<not> d dvd n \<Longrightarrow> no_factor_below (Suc d) n"
  by (auto simp: no_factor_below_def less_Suc_eq)

text \<open>The loop, by induction on what is left to divide and to try.\<close>

definition factors_from :: "nat \<Rightarrow> nat list \<Rightarrow> nat \<Rightarrow> nat \<Rightarrow> bool" where
  \<comment> \<open>\<open>fs\<close> are primes from \<open>d\<close> on in order, and \<open>m\<close> is what they leave of \<open>n\<close>\<close>
  "factors_from d fs m n \<longleftrightarrow>
     prod_list fs * m = n \<and> sorted fs \<and> (\<forall>p \<in> set fs. is_prime p \<and> d \<le> p) \<and>
     (m = 1 \<or> is_prime m \<and> d \<le> m \<and> (\<forall>p \<in> set fs. p \<le> m))"

lemma factors_from_step:
  "factors_from d fs m (n div d) \<Longrightarrow> d dvd n \<Longrightarrow> is_prime d \<Longrightarrow> factors_from d (d # fs) m n"
  by (auto simp: factors_from_def mult.assoc)

lemma factors_from_mono: "factors_from (Suc d) fs m n \<Longrightarrow> factors_from d fs m n"
  by (auto simp: factors_from_def Suc_le_eq)

lemma factors_from_end:
  assumes "no_factor_below d n" "0 < n" "n < d ^ 2"
  shows "factors_from d [] n n"
proof -
  have "d \<le> n" if "1 < n" using assms(1) that by (auto simp: no_factor_below_def)
  with no_factor_prime [OF assms] show ?thesis by (auto simp: factors_from_def is_prime_def)
qed

lemma factor_loop_result:
  assumes "root_ok root" "1 < unat d" "unat d \<le> 2 ^ 32 + 1" "0 < unat n" "no_factor_below (unat d) (unat n)"
  shows "\<exists>m fs. factor_loop root L n (root n) d w = Some (m, fold (print_factor L) fs w) \<and>
    factors_from (unat d) fs (unat m) (unat n)"
  using assms(2-)
proof (induction k \<equiv> "unat n * 2 ^ 34 + (2 ^ 34 - unat d)" arbitrary: n d w rule: less_induct)
  case (less n d w)
  note prems = less.prems
  note R = assms(1) [unfolded root_ok_def, rule_format, of n]
  show ?case
  proof (cases "d \<le> root n")
    case False
    then have "unat (root n) + 1 \<le> unat d" by (simp add: word_le_nat_alt)
    then have "(unat (root n) + 1) ^ 2 \<le> unat d ^ 2" by (rule power_mono) simp
    with R have "unat n < unat d ^ 2" by linarith
    from factors_from_end [OF prems(4,3) this] False show ?thesis
      by (intro exI [of _ n] exI [of _ "[]"]) (simp add: factor_loop.simps)
  next
    case True
    then have d32: "unat d \<le> 2 ^ 32" using R by (simp add: word_le_nat_alt)
    have md: "n - d * (n div d) = n mod d" by (metis minus_mult_div_eq_mod)
    show ?thesis
    proof (cases "unat d dvd unat n")
      case dvd: True
      let ?q = "n div d"
      have q: "unat ?q = unat n div unat d" by (rule unat_div)
      have r0: "n mod d = 0" using dvd by (metis unat_mod unat_eq_zero dvd_imp_mod_0)
      from dvd prems(3) have q0: "0 < unat ?q" unfolding q by (auto elim!: dvdE)
      have "unat ?q < unat n" using prems(1,3) by (simp add: q)
      then have "unat ?q * 2 ^ 34 + (2 ^ 34 - unat d) < unat n * 2 ^ 34 + (2 ^ 34 - unat d)" by simp
      from less.hyps [OF this prems(1,2) q0, of "print_factor L (unat d) w"]
      obtain m fs where "factor_loop root L ?q (root ?q) d (print_factor L (unat d) w) =
          Some (m, fold (print_factor L) fs (print_factor L (unat d) w))"
        and f: "factors_from (unat d) fs (unat m) (unat n div unat d)"
        using no_factor_div [OF prems(4) dvd] by (auto simp: q)
      then have "factor_loop root L n (root n) d w = Some (m, fold (print_factor L) (unat d # fs) w)"
        using True by (subst factor_loop.simps) (simp add: Let_def md r0 print_factor_def)
      with factors_from_step [OF f dvd factor_is_prime [OF prems(4) dvd prems(1)]] show ?thesis by blast
    next
      case False
      have r: "n mod d \<noteq> 0" using False by (metis unat_mod unat_eq_zero mod_0_imp_dvd unat_0)
      have d1: "unat (d + 1) = Suc (unat d)"
        using d32 by (subst unat_word_ariths(1)) simp
      then have "unat n * 2 ^ 34 + (2 ^ 34 - unat (d + 1)) < unat n * 2 ^ 34 + (2 ^ 34 - unat d)"
        using d32 by simp
      from less.hyps [OF this _ _ prems(3), of w] d1 d32 prems(1) no_factor_Suc [OF prems(4) False]
      obtain m fs where "factor_loop root L n (root n) (d + 1) w = Some (m, fold (print_factor L) fs w)"
        and "factors_from (Suc (unat d)) fs (unat m) (unat n)" by auto
      moreover have "factor_loop root L n (root n) d w = factor_loop root L n (root n) (d + 1) w"
        using True r by (subst factor_loop.simps) (simp add: Let_def md)
      ultimately show ?thesis using factors_from_mono by metis
    qed
  qed
qed

text \<open>
  What the program prints for a number: for \<open>n\<close> from 2 on, its prime factors in order, and
  their product is \<open>n\<close>.
\<close>

definition prime_factors :: "nat list \<Rightarrow> nat \<Rightarrow> bool" where
  "prime_factors fs n \<longleftrightarrow> prod_list fs = n \<and> sorted fs \<and> (\<forall>p \<in> set fs. is_prime p)"

lemma factors_from_all:
  "factors_from d fs m n \<Longrightarrow> prime_factors (fs @ (if m = 1 then [] else [m])) n"
  by (auto simp: factors_from_def prime_factors_def sorted_append)

lemma factor_number_result:
  assumes "root_ok root" "2 \<le> n"
  shows "\<exists>fs. prime_factors fs (unat n) \<and>
    factor_number root L n w =
      Some (lc_print L newline (fold (print_factor L) fs (lc_print L (decimal (unat n) @ '':'') w)))"
proof -
  have n: "2 \<le> unat n" using assms(2) by (simp add: word_le_nat_alt)
  let ?w = "lc_print L (decimal (unat n) @ '':'') w"
  have "no_factor_below (unat (2 :: u64)) (unat n)" by (simp add: no_factor_below_def)
  from factor_loop_result [OF assms(1) _ _ _ this, of L ?w] n obtain m fs
    where l: "factor_loop root L n (root n) 2 ?w = Some (m, fold (print_factor L) fs ?w)"
    and f: "factors_from 2 fs (unat m) (unat n)" by auto
  have m: "m = 1 \<longleftrightarrow> unat m = 1" by (simp add: word_eq_iff_unsigned [where ?'a = nat])
  have "\<not> n < 2" using assms(2) by simp
  with l m have "factor_number root L n w = Some (lc_print L newline
      (fold (print_factor L) (fs @ (if unat m = 1 then [] else [unat m])) ?w))"
    by (simp add: factor_number_def Let_def print_factor_def)
  with factors_from_all [OF f] show ?thesis by blast
qed

end
