(* ===== verification/ProgramFacts.thy ===== *)
theory ProgramFacts
  imports ShellFacts Factor
begin

text \<open>
  What the small programs do: the code init exits with, the program that execv enters, the
  text echo prints, and that yes never ends.
\<close>

section \<open>Loops that never end\<close>

definition goes_on :: "('st \<Rightarrow> ('st + 'a, 'w) ucall) \<Rightarrow> bool" where
  "goes_on turn \<longleftrightarrow> (\<forall>st s w. \<exists>st' s' w'. turn st s w = Inr ((Back (Inl st'), s'), w'))"

lemma u_loop_stops: "u_loop turn x s w = Some y \<Longrightarrow> \<not> goes_on turn"
proof (rule u_loop.raw_induct [where P = "\<lambda>turn st s w y. \<not> goes_on turn"])
  fix lp turn x s w y
  assume IH: "\<And>turn x s w y. lp turn x s w = Some y \<Longrightarrow> \<not> goes_on turn"
    and step: "(case turn x s w of
        Inl e \<Rightarrow> Some (Inl e)
      | Inr r \<Rightarrow>
          (case fst (fst r) of
             Back y \<Rightarrow>
               (case y of
                  Inl st' \<Rightarrow> lp turn st' (snd (fst r)) (snd r)
                | Inr a \<Rightarrow> Some (Inr ((Back a, snd (fst r)), snd r)))
           | Gone g \<Rightarrow> Some (Inr ((Gone g, snd (fst r)), snd r)))) = Some y"
  show "\<not> goes_on turn"
  proof
    assume "goes_on turn"
    then obtain st' s' w' where "turn x s w = Inr ((Back (Inl st'), s'), w')"
      unfolding goes_on_def by blast
    with step have "lp turn st' s' w' = Some y" by simp
    with IH \<open>goes_on turn\<close> show False by blast
  qed
qed

lemma u_loop_never: "goes_on turn \<Longrightarrow> u_loop turn st s w = None"
  using u_loop_stops [of turn st s w] by (cases "u_loop turn st s w") auto

lemma yes_ends_iff: "(\<exists>r. yes_main L argv s w = Some r) \<longleftrightarrow> 2 < length argv"
proof -
  have "u_loop (yes_turn L str) () s w = None" for str
    by (rule u_loop_never) (simp add: goes_on_def yes_turn_def Dprintf_def Dvprintf_def u_bind_def u_world_def u_return_def)
  then show ?thesis by (simp add: yes_main_def r_lift_def)
qed

section \<open>init\<close>

lemma getpid_back:
  assumes "runs_as K s pid" "int pid < 2 ^ 31"
  shows "wrap_getpid K s w = Inr ((Back (int pid), s), w)"
proof -
  have "c_int pid = int pid" using assms(2) by (simp add: c_int_def to_s32_id)
  then have "syscall K pid SysGetPid s w = Inr ((Ret (int pid), s), w)"
    using runs_as_bound [OF assms(1)] by (simp add: syscall_def)
  from sys_call_back [OF assms(1) this] show ?thesis
    using assms(2) by (simp add: wrap_getpid_def sys_getpid_def u_bind_def ret_int_def u_check_def u_return_def
        to_u32_id to_s32_id)
qed

lemma init_exits:
  assumes "runs_as K s pid" "server_inv s" "int pid < 2 ^ 31" "info_args info = Inr args" "pr_syscall info"
  shows "\<exists>s' w'. start_program K (\<lambda>_. init_main K) info s w =
      Inr ((Gone (Exits (if pid = 1 then 0 else 1)), s'), w') \<and> processFree K pid s w = Inr (s', w')"
proof -
  have pid: "pid < length (sv_procs s)" by (rule runs_as_bound [OF assms(1)])
  obtain s' w' where f: "processFree K pid s w = Inr (s', w')"
    by (cases "processFree K pid s w" rule: state_cases) (simp_all add: processFree_no_fault [OF assms(2) pid])
  then have e: "sys_call K (SysExit st) s w = Inr ((Gone (Exits st), s'), w')" for st
    using pid by (simp add: sys_call_def serverSysCall_as [OF assms(1)] syscall_def syscallExit_def)
  show ?thesis
    using getpid_back [OF assms(1,3)] f
    by (auto simp: start_program_def u_bind_def u_check_def assms(4,5) sys_init_def init_main_def u_return_def wrap_exit_def
        sys_exit_def e to_u32_def)
qed

text \<open>The forked child of a boot: init is its process 1, beside the unused process 0.\<close>

lemma boot_entered:
  assumes "boot K fs ip (Server_new port) w = Inr ((Entered q, s'), w')"
  shows "sv_procs s' = [Process_new, q] \<and> pr_syscall q \<and> pr_fds q = []"
  using assms
proof (rule boot_stages)
  fix b s1 w1 s2 w2 p s3 w3 ro w4
  assume d: "databaseLoad K (Server_new port\<lparr>sv_filesystem := Some fs\<rparr>) w = Inr ((b, s1), w1)"
    and a: "add_devices K s1 w1 = (s2, w2)"
    and l: "loadFileFS K (fileLocalPath K fs) ip Process_new w2 = Inr ((True, p), w3)"
    and s3: "s3 = s2\<lparr>sv_procs := sv_procs s2 @ [p]\<rparr>"
    and r: "processRun K (c_int (length (sv_procs s2))) True [] s3 w3 = Inr (ro, w4)"
    and e: "(\<exists>q'. ro = RunEntered q' \<and> Entered q = Entered q' \<and> w' = w4 \<and>
        s' = upd_proc (nat (c_int (length (sv_procs s2)))) (\<lambda>_. q') s3) \<or>
     (\<exists>s5 active. ro = RunParent \<and> Entered q = Handled True \<and> s' = s5\<lparr>sv_fdSetActive := active\<rparr> \<and>
        FD_SET (sv_tcpSockFd s5) [] = Inr active \<and>
        (s5 = s3 \<or> (0 \<le> sv_tcpPort s3 \<and> (\<exists>fd. s5 = s3\<lparr>sv_tcpSockFd := fd\<rparr>))))"
  have "sv_procs s2 = sv_procs s1" using a by (auto simp: add_devices_def split: prod.splits)
  then have p2: "sv_procs s2 = [Process_new]" by (simp add: databaseLoad_result [OF d] Server_new_def)
  have one: "c_int (Suc 0) = 1" using c_int_small [of 1] by simp
  from e have q: "ro = RunEntered q" "s' = upd_proc 1 (\<lambda>_. q) s3" by (auto simp: p2 one)
  with r have "vrun K True [] p w3 = Inr (RunEntered q, w4)"
    by (auto simp: processRun_def p2 s3 one split: if_splits)
  from vrun_result [OF this] q loaded_shell [OF l] show ?thesis by (auto simp: upd_proc_def s3 p2)
qed simp

lemma boot_init_exits:
  assumes "boot K fs ip (Server_new port) w = Inr ((Entered q, s), w1)" "\<And>w. px_getpid K w = p" "p \<noteq> -1"
  shows "\<exists>s' w' h. start_program K (\<lambda>_. init_main K) q s w1 = Inr ((Gone (Exits 0), s'), w') \<and>
    s' = s\<lparr>sv_procs := [Process_new, fst (Process_destroy K q w1)]\<rparr> \<and> callerPID s' p = None \<and>
    pr_dlHandle q = Some h \<and> w' = px_dlclose K h w1"
proof -
  note b = boot_new [OF assms(1)]
  from boot_entered [OF assms(1)] have procs: "sv_procs s = [Process_new, q]" and sys: "pr_syscall q"
    and fds: "pr_fds q = []" by simp_all
  have inv: "server_inv s" and pid: "pr_posixPID q = p" using b assms(2) by simp_all
  have run: "runs_as K s 1"
    using assms(3) by (simp add: runs_as_def callerPID_def procs assms(2) pid Process_new_def Let_def)
  have "proc_wf (sv_procs s ! 1)" by (rule server_invD(6) [OF inv]) (simp add: procs)
  then have wf: "proc_wf q" by (simp add: procs)
  have "pr_state q \<noteq> PrNone" using b by simp
  with wf obtain h where h: "pr_dlHandle q = Some h" by (auto simp: proc_wf_def)
  let ?s = "s\<lparr>sv_procs := [Process_new, fst (Process_destroy K q w1)]\<rparr>"
  have f: "processFree K 1 s w1 = Inr (?s, px_dlclose K h w1)"
    by (simp add: processFree_def procs fds upd_proc_def Process_destroy_def h)
  have "callerPID ?s p = None" using assms(3) by (simp add: callerPID_def Process_new_def Process_destroy_def Let_def)
  with init_exits [OF run inv _ info_args_wf [OF wf] sys, of w1] f h show ?thesis by auto
qed

section \<open>execv\<close>

lemma copy_args_yields:
  assumes "runs_as K s pid" "calm K view"
  shows "\<forall>a \<in> set as. cstr_size a < 2 ^ 64 \<Longrightarrow> view w1 = view w \<Longrightarrow>
    yields (copy_args K as ps) s w1 (same view s w fst)"
proof (induction as arbitrary: ps w1)
  case (Cons a as)
  have n: "(of_nat (cstr_size a) :: 64 word) \<noteq> 0" using Cons(2) by (intro size_not_0) (simp_all add: cstr_size_def)
  show ?case
    unfolding copy_args.simps
    by (rule yields_bind [OF malloc_yields [OF assms n]]) (use Cons in \<open>auto simp: same_def\<close>)
qed (simp add: same_def)

text \<open>execv copies the vector and its arguments, and asks the server for the program with these.\<close>

lemma execv_asks:
  assumes "runs_as K s pid" "calm K view" "argv \<noteq> []" "8 * length argv < 2 ^ 64" "\<forall>a \<in> set argv. cstr_size a < 2 ^ 64"
  shows "\<exists>w1. view w1 = view w \<and>
    wrap_execv K p argv s w = u_bind (sys_exec K p argv) (\<lambda>_. u_return (-1)) s w1"
proof -
  have n: "(of_nat (8 * length argv) :: 64 word) \<noteq> 0" using assms(3,4) by (intro size_not_0) simp_all
  from malloc_yields [OF assms(1,2) n] obtain av w1 where m:
    "wrap_malloc K (of_nat (8 * length argv)) s w = Inr ((Back (Some av), s), w1)" "view w1 = view w"
    unfolding yields_def same_def by blast
  from copy_args_yields [OF assms(1,2,5) m(2), of "[]"] obtain ps w2 where
    "copy_args K argv [] s w1 = Inr ((Back (True, ps), s), w2)" "view w2 = view w"
    by (auto simp: yields_def same_def)
  with m(1) have "wrap_execv K p argv s w = u_bind (sys_exec K p argv) (\<lambda>_. u_return (-1)) s w2"
    by (simp add: wrap_execv_def u_bind_Back)
  with \<open>view w2 = view w\<close> show ?thesis by blast
qed

section \<open>echo\<close>

text \<open>The arguments that are not empty, with single spaces between them.\<close>

fun spaced :: "string list \<Rightarrow> string" where
  "spaced [] = []"
| "spaced [a] = a"
| "spaced (a # b # as) = a @ '' '' @ spaced (b # as)"

definition prints_text :: "'w libc \<Rightarrow> bool" where
  \<comment> \<open>printing two texts prints their concatenation\<close>
  "prints_text L \<longleftrightarrow> (\<forall>a b w. lc_print L b (lc_print L a w) = lc_print L (a @ b) w) \<and> (\<forall>w. lc_print L [] w = w)"

lemma spaced_Cons: "as \<noteq> [] \<Longrightarrow> spaced (a # as) = a @ '' '' @ spaced as"
  by (cases as) simp_all

lemma echo_loop_text:
  assumes "prints_text L"
  shows "echo_loop L sp as s w =
    Inr ((Back (), s), lc_print L (let t = List.filter (\<lambda>a. a \<noteq> []) as in
      if t = [] then [] else (if sp then '' '' else []) @ spaced t) w)"
proof (induction as arbitrary: sp w)
  case Nil
  with assms show ?case by (simp add: u_return_def prints_text_def)
next
  case (Cons a as)
  have p: "lc_print L b (lc_print L c v) = lc_print L (c @ b) v" for b c v
    using assms by (simp add: prints_text_def)
  show ?case
  proof (cases "a = []")
    case False
    then show ?thesis
      using Cons [of True]
      by (auto simp: u_bind_def u_world_def u_return_def p spaced_Cons Let_def)
  qed (simp add: Cons)
qed

lemma echo_text:
  "prints_text L \<Longrightarrow> echo_main L argv s w =
    Inr ((Back 0, s), lc_print L (spaced (List.filter (\<lambda>a. a \<noteq> []) (drop 1 argv)) @ newline) w)"
  using echo_loop_text [of L False "drop 1 argv" s w]
  by (auto simp: echo_main_def u_bind_def u_world_def u_return_def prints_text_def Let_def)

end
