(* ===== verification/Kernel.thy ===== *)
theory Kernel
  imports SysResults
begin

text \<open>
  What the server is to a program, as a specification: processes with open files under small
  numbers and a working directory, and a table of devices. Entries of the server, reference
  counts and vectors are gone. \<open>kernel_step\<close> says what each call may answer and do;
  \<open>syscall_refines\<close> is that \<^verbatim>\<open>Server::syscall\<close> does nothing else.
\<close>

section \<open>The specification\<close>

record aproc =
  ap_files :: "nat \<rightharpoonup> fd_data"
  ap_cwd :: "string option"

record kernel =
  ak_procs :: "aproc list"
  ak_devices :: "string \<rightharpoonup> device"

definition set_proc :: "nat \<Rightarrow> aproc \<Rightarrow> kernel \<Rightarrow> kernel" where
  "set_proc pid a k = k\<lparr>ak_procs := (ak_procs k)[pid := a]\<rparr>"

definition push_proc :: "aproc \<Rightarrow> kernel \<Rightarrow> kernel" where
  "push_proc a k = k\<lparr>ak_procs := ak_procs k @ [a]\<rparr>"

definition lowest_free :: "(nat \<rightharpoonup> 'a) \<Rightarrow> nat \<Rightarrow> bool" where
  "lowest_free m i \<longleftrightarrow> m i = None \<and> (\<forall>j < i. m j \<noteq> None)"

definition opens :: "kernel \<Rightarrow> string \<Rightarrow> fd_data \<Rightarrow> bool" where
  \<comment> \<open>what a path may stand for: a device of the table, or a file of the host\<close>
  "opens k pth d \<longleftrightarrow>
     (if strncmp_eq pth dev_prefix 5 then \<exists>x. ak_devices k (drop 5 pth) = Some x \<and> d = FdTypeDevice x
      else \<exists>fd. fd \<noteq> -1 \<and> d = FdTypeFd fd)"

definition reads :: "fd_data option \<Rightarrow> bool \<Rightarrow> nat \<Rightarrow> int \<Rightarrow> string \<Rightarrow> bool" where
  \<comment> \<open>what a read may answer and store: a host file or a socket is the host's business\<close>
  "reads f b n r bs \<longleftrightarrow>
     (if f \<in> {None, Some (FdTypeDevice DeviceBase), Some (FdTypeDevice (DeviceSocket None))} then r = -1 \<and> bs = []
      else if f = Some (FdTypeDevice DeviceNull) then r = 0 \<and> bs = []
      else f \<in> {Some (FdTypeDevice DeviceFull), Some (FdTypeDevice DeviceZero)} \<longrightarrow>
        r = to_s32 (int n) \<and> bs = (if b then replicate n NUL else []))"

definition writes :: "fd_data option \<Rightarrow> string \<Rightarrow> int \<Rightarrow> bool" where
  "writes f bs r \<longleftrightarrow>
     (if f \<in> {None, Some (FdTypeDevice DeviceBase), Some (FdTypeDevice DeviceFull),
        Some (FdTypeDevice (DeviceSocket None))} then r = -1
      else f \<in> {Some (FdTypeDevice DeviceNull), Some (FdTypeDevice DeviceZero)} \<longrightarrow> r = to_s32 (int (length bs)))"

text \<open>\<open>mem\<close> and \<open>cl\<close>: memory does not run out, closing does not fail.\<close>

inductive kernel_step :: "bool \<Rightarrow> bool \<Rightarrow> nat \<Rightarrow> sysreq \<Rightarrow> kernel \<Rightarrow> reply \<Rightarrow> kernel \<Rightarrow> bool"
  for mem cl pid where
  opened: "a = ak_procs k ! pid \<Longrightarrow> opens k p d \<Longrightarrow> lowest_free (ap_files a) i \<Longrightarrow>
    kernel_step mem cl pid (SysOpen (Some p) fl md) k (Ret (int i))
      (set_proc pid (a\<lparr>ap_files := (ap_files a)(i \<mapsto> d)\<rparr>) k)"
| not_opened: "mem \<longrightarrow> strncmp_eq p dev_prefix 5 \<longrightarrow> ak_devices k (drop 5 p) = None \<Longrightarrow>
    kernel_step mem cl pid (SysOpen (Some p) fl md) k (Ret (-1)) k"
| closed: "a = ak_procs k ! pid \<Longrightarrow> ap_files a i = Some d \<Longrightarrow>
    kernel_step mem cl pid (SysClose (int i)) k (Ret 0)
      (set_proc pid (a\<lparr>ap_files := (ap_files a)(i := None)\<rparr>) k)"
| not_closed: "cl \<longrightarrow> ap_files (ak_procs k ! pid) i = None \<Longrightarrow>
    kernel_step mem cl pid (SysClose (int i)) k (Ret (-1)) k"
| read: "reads (ap_files (ak_procs k ! pid) i) b n r bs \<Longrightarrow>
    kernel_step mem cl pid (SysRead (int i) b n) k (RetData r bs) k"
| written: "writes (ap_files (ak_procs k ! pid) i) bs r \<Longrightarrow>
    kernel_step mem cl pid (SysWrite (int i) bs) k (Ret r) k"
| chdir: "a = ak_procs k ! pid \<Longrightarrow>
    kernel_step mem cl pid (SysChDir (Some d)) k (Ret 0) (set_proc pid (a\<lparr>ap_cwd := Some d\<rparr>) k)"
| no_chdir: "\<not> mem \<Longrightarrow> kernel_step mem cl pid (SysChDir (Some d)) k (Ret (-1)) k"
| getcwd: "ap_cwd (ak_procs k ! pid) = Some d \<Longrightarrow> 0 < n \<Longrightarrow>
    kernel_step mem cl pid (SysGetCwd True n) k (RetData (to_u32 (1 + int (length d))) (getcwd_buf d n)) k"
| no_cwd: "ap_cwd (ak_procs k ! pid) = None \<Longrightarrow> kernel_step mem cl pid (SysGetCwd b n) k (Ret 0) k"
| no_buffer: "ap_cwd (ak_procs k ! pid) \<noteq> None \<Longrightarrow> kernel_step mem cl pid (SysGetCwd False n) k NoRet k"
| getpid: "kernel_step mem cl pid SysGetPid k (Ret (c_int pid)) k"
| alloc: "kernel_step mem cl pid (SysAlloc ptr n) k (RetPtr q) k"
| forked: "r = 0 \<or> r = c_int (length (ak_procs k)) \<Longrightarrow>
    kernel_step mem cl pid SysFork k (Ret r)
      (push_proc \<lparr>ap_files = Map.empty, ap_cwd = ap_cwd (ak_procs k ! pid)\<rparr> k)"
| not_forked: "kernel_step mem cl pid SysFork k (Ret (-1)) k"
| exec: "pr_argv q = Some argv \<Longrightarrow> pr_cwd q = c \<Longrightarrow> mem \<longrightarrow> c = ap_cwd (ak_procs k ! pid) \<Longrightarrow>
    kernel_step mem cl pid (SysExec p argv) k (Enters q) (set_proc pid \<lparr>ap_files = Map.empty, ap_cwd = c\<rparr> k)"
| no_exec: "kernel_step mem cl pid (SysExec p argv) k NoRet k"
| exit: "ap_files a \<subseteq>\<^sub>m ap_files (ak_procs k ! pid) \<Longrightarrow> cl \<longrightarrow> ap_files a = Map.empty \<Longrightarrow>
    kernel_step mem cl pid (SysExit c) k (Exits c) (set_proc pid a k)"
| invalid: "kernel_step mem cl pid (SysInvalid i) k NoRet k"

section \<open>The abstraction\<close>

definition abs_files :: "server \<Rightarrow> nat \<Rightarrow> nat \<rightharpoonup> fd_data" where
  "abs_files s p i = (case fd_slot s p i of None \<Rightarrow> None | Some fd \<Rightarrow> map_option fe_d (fdGet fd (sv_fdEntries s)))"

definition abs_proc :: "server \<Rightarrow> nat \<Rightarrow> aproc" where
  "abs_proc s p = \<lparr>ap_files = abs_files s p, ap_cwd = pr_cwd (sv_procs s ! p)\<rparr>"

definition abs_kernel :: "server \<Rightarrow> kernel" where
  "abs_kernel s = \<lparr>ak_procs = map (abs_proc s) [0 ..< length (sv_procs s)],
     ak_devices = (\<lambda>n. map_option fst (dev_abs (sv_devices s) n))\<rparr>"

lemma abs_kernel_procs [simp]:
  "length (ak_procs (abs_kernel s)) = length (sv_procs s)"
  "p < length (sv_procs s) \<Longrightarrow> ak_procs (abs_kernel s) ! p = abs_proc s p"
  by (simp_all add: abs_kernel_def)

lemma abs_proc_simps [simp]: "ap_files (abs_proc s p) = abs_files s p" "ap_cwd (abs_proc s p) = pr_cwd (sv_procs s ! p)"
  by (simp_all add: abs_proc_def)

lemma abs_files_None: "server_inv s \<Longrightarrow> abs_files s p i = None \<longleftrightarrow> fd_slot s p i = None"
  using server_invD(2) [of s] by (auto simp: abs_files_def slots_ok_def split: option.splits)

lemma abs_kernel_eqI:
  "sv_procs s' = sv_procs s \<Longrightarrow> sv_fdEntries s' = sv_fdEntries s \<Longrightarrow>
   (\<And>n. map_option fst (dev_abs (sv_devices s') n) = map_option fst (dev_abs (sv_devices s) n)) \<Longrightarrow>
   abs_kernel s' = abs_kernel s"
  by (simp add: abs_kernel_def abs_proc_def abs_files_def fd_slot_def fun_eq_iff cong: option.case_cong)

text \<open>An operation that touches one process only changes that process of the abstract state.\<close>

lemma abs_change:
  assumes "isolated pid s s'" "length (sv_procs s') = length (sv_procs s)" "pid < length (sv_procs s)"
    and "\<And>n. map_option fst (dev_abs (sv_devices s') n) = map_option fst (dev_abs (sv_devices s) n)"
    and "abs_proc s' pid = a"
  shows "abs_kernel s' = set_proc pid a (abs_kernel s)"
proof -
  have "abs_proc s' p = abs_proc s p" if p: "p < length (sv_procs s)" "p \<noteq> pid" for p
  proof -
    from assms(1,2) p have e: "p < length (sv_procs s')" "sv_procs s' ! p = sv_procs s ! p"
      and g: "\<And>i fd. fd_slot s p i = Some fd \<Longrightarrow> fdGet fd (sv_fdEntries s') = fdGet fd (sv_fdEntries s)"
      by (auto simp: isolated_def)
    show ?thesis
      by (simp add: abs_proc_def e(2) abs_files_def fd_slot_proc [OF p(1) e] g fun_eq_iff split: option.split)
  qed
  then have "map (abs_proc s') [0 ..< length (sv_procs s)] = (map (abs_proc s) [0 ..< length (sv_procs s)])[pid := a]"
    using assms(3,5) by (intro nth_equalityI) (auto simp: nth_list_update)
  with assms(2,4) show ?thesis by (simp add: abs_kernel_def set_proc_def)
qed

lemma abs_push:
  assumes "pr_fds c = []"
  shows "abs_kernel (s\<lparr>sv_procs := sv_procs s @ [c]\<rparr>) =
    push_proc \<lparr>ap_files = Map.empty, ap_cwd = pr_cwd c\<rparr> (abs_kernel s)"
proof -
  let ?s = "s\<lparr>sv_procs := sv_procs s @ [c]\<rparr>" and ?n = "length (sv_procs s)"
  have "fd_slot ?s p = fd_slot s p" if "p < ?n" for p
    using that by (simp add: fd_slot_def nth_append fun_eq_iff)
  then have "abs_proc ?s p = abs_proc s p" if "p < ?n" for p
    using that by (simp add: abs_proc_def abs_files_def nth_append fun_eq_iff cong: option.case_cong)
  moreover have "abs_proc ?s ?n = \<lparr>ap_files = Map.empty, ap_cwd = pr_cwd c\<rparr>"
    using assms by (simp add: abs_proc_def abs_files_def fd_slot_def vec_look_def fun_eq_iff)
  ultimately show ?thesis by (simp add: abs_kernel_def push_proc_def)
qed

lemma abs_installed:
  assumes "server_inv s" "installed s pid d k i s'" "pid < length (sv_procs s)"
  shows "abs_files s' pid = (abs_files s pid)(i \<mapsto> d)" "lowest_free (abs_files s pid) i"
proof -
  note look = installed_look [OF assms(2,3)]
  show "lowest_free (abs_files s pid) i"
    using look(3,8) abs_files_None [OF assms(1)] by (simp add: lowest_free_def)
  have "fdGet fd (sv_fdEntries s') = fdGet fd (sv_fdEntries s)" if "fd_slot s pid j = Some fd" for j fd
  proof -
    from that server_invD(2) [OF assms(1)] have "fdGet fd (sv_fdEntries s) \<noteq> None" unfolding slots_ok_def by blast
    with look(1) have "nat fd \<noteq> k" by (auto simp: fdGet_None_elook)
    with look(2) show ?thesis by (simp add: fdGet_elook_iff)
  qed
  moreover have "fdGet (int k) (sv_fdEntries s') = Some \<lparr>fe_fd = int k, fe_refCount = Some 1, fe_d = d\<rparr>"
    using look(2) by (simp add: fdGet_elook_iff)
  ultimately show "abs_files s' pid = (abs_files s pid)(i \<mapsto> d)"
    by (auto simp: abs_files_def look(4) fun_eq_iff split: option.split)
qed

lemma abs_removed:
  assumes "server_inv s" "fd_slot s pid i = Some fd"
  shows "abs_files (removed s pid i fd socks) pid = (abs_files s pid)(i := None)"
proof -
  note look = removed_look [OF assms(2), of socks] and sl = server_invD(2) [OF assms(1)]
  have "fdGet f (sv_fdEntries (removed s pid i fd socks)) = fdGet f (sv_fdEntries s)"
    if "fd_slot s pid j = Some f" "j \<noteq> i" for j f
  proof -
    have "f \<noteq> fd" using sl that assms(2) unfolding slots_ok_def by metis
    moreover have "0 \<le> f" "0 \<le> fd" using sl that(1) assms(2) unfolding slots_ok_def by (metis fdGet_def)+
    ultimately have "nat f \<noteq> nat fd" by simp
    with look(1) show ?thesis by (simp add: fdGet_elook_iff)
  qed
  then show ?thesis by (auto simp: abs_files_def look(2) fun_eq_iff split: option.split)
qed

section \<open>Each call refines its specification\<close>

abbreviation dev_names :: "devices \<Rightarrow> string \<rightharpoonup> device" where
  "dev_names ds \<equiv> \<lambda>n. map_option fst (dev_abs ds n)"

lemma dev_open_names:
  assumes "dev_inv ds" "dev_open n ds = Inr (r, ds')"
  shows "dev_names ds' = dev_names ds" "r = Some d \<Longrightarrow> dev_names ds n = Some d"
    "r = None \<Longrightarrow> dev_names ds n = None"
  using assms dev_open_Some [of ds n _ ds'] dev_open_None [of n ds ds'] by (cases r; fastforce)+

lemma installed_refines:
  assumes "server_inv s" "installed s pid d k i s'" "pid < length (sv_procs s)"
  shows "lowest_free (abs_files s pid) i"
    "abs_kernel s' = set_proc pid ((abs_proc s pid)\<lparr>ap_files := (abs_files s pid)(i \<mapsto> d)\<rparr>) (abs_kernel s)"
proof -
  note a = abs_installed [OF assms]
  show "lowest_free (abs_files s pid) i" by (rule a(2))
  from assms(2) obtain fds where "s' = upd_proc pid (\<lambda>p. p\<lparr>pr_fds := fds\<rparr>) (s\<lparr>sv_fdEntries := sv_fdEntries s'\<rparr>)"
    by (auto simp: installed_def)
  then obtain es where "s' = upd_proc pid (\<lambda>p. p\<lparr>pr_fds := fds\<rparr>) (s\<lparr>sv_fdEntries := es\<rparr>)" by blast
  with assms(3) have "pr_cwd (sv_procs s' ! pid) = pr_cwd (sv_procs s ! pid)" by (simp add: upd_proc_def)
  with a(1) have "abs_proc s' pid = (abs_proc s pid)\<lparr>ap_files := (abs_files s pid)(i \<mapsto> d)\<rparr>"
    by (simp add: abs_proc_def)
  then show "abs_kernel s' = set_proc pid ((abs_proc s pid)\<lparr>ap_files := (abs_files s pid)(i \<mapsto> d)\<rparr>) (abs_kernel s)"
    by (intro abs_change [OF installed_isolated [OF assms(2,3,1)] _ assms(3)])
      (simp_all add: installed_frame [OF assms(2)])
qed

lemma fd_install_refines:
  assumes "server_inv s" "room s" "pid < length (sv_procs s)" "fd_install K pid d s w = Inr ((r, s'), w')"
    and "abs_kernel s = k" "opens k p d" "mem \<longrightarrow> malloc_total K"
  shows "kernel_step mem cl pid (SysOpen (Some p) fl md) k (Ret (case r of None \<Rightarrow> -1 | Some x \<Rightarrow> x)) (abs_kernel s')"
proof -
  have a: "abs_proc s pid = ak_procs k ! pid" using assms(3) by (simp add: assms(5) [symmetric])
  from fd_install_result [OF server_invD(1) [OF assms(1)] assms(2) [unfolded room_def] assms(4)]
  show ?thesis
  proof (elim disjE exE conjE)
    assume "r = None" "s' = s" "\<not> fst (px_malloc K sizeof_FdEntry w)"
    with assms(5,7) show ?thesis by (auto simp: malloc_total_def intro: kernel_step.not_opened)
  next
    fix j i assume r: "r = Some (c_int i)" and inst: "installed s pid d j i s'"
    note ref = installed_refines [OF assms(1) inst assms(3)]
    have "c_int i = int i" by (rule installed_fd(1) [OF inst assms(1-3)])
    with kernel_step.opened [OF a assms(6), of i mem cl fl md] ref r show ?thesis by (simp add: assms(5))
  qed
qed

lemma open_refines:
  assumes "server_inv s" "room s" "pid < length (sv_procs s)" "fdOpenFdFromPath K pid p x y s w = Inr ((r, s'), w')"
    and mem: "mem \<longrightarrow> malloc_total K"
  shows "kernel_step mem cl pid (SysOpen (Some p) fl md) (abs_kernel s) (Ret r) (abs_kernel s')"
proof (cases "strncmp_eq p dev_prefix 5")
  case True
  note inv = server_invD [OF assms(1)]
  from True assms(4) obtain dv ds where o: "dev_open (drop 5 p) (sv_devices s) = Inr (dv, ds)"
    by (auto simp: fdOpenFdFromPath_def fdOpenFdFromDevice_def and_then_eq_Inr)
  let ?s = "s\<lparr>sv_devices := ds\<rparr>"
  from dev_open_devices [OF o] inv(3) have "\<forall>e \<in> set ds. dev_ok (length (sv_sockets s)) (de_device e)"
    by (force simp: sockets_ok_def)
  then have s1: "server_inv ?s" by (rule server_inv_devices [OF assms(1) dev_inv_open [OF inv(4) o]])
  have k: "abs_kernel ?s = abs_kernel s"
    by (rule abs_kernel_eqI) (use dev_open_names(1) [OF inv(4) o] in \<open>simp_all add: fun_eq_iff\<close>)
  show ?thesis
  proof (cases dv)
    case None
    with dev_open_names(3) [OF inv(4) o] have "ak_devices (abs_kernel s) (drop 5 p) = None" by (simp add: abs_kernel_def)
    with None True assms(4) o k show ?thesis
      by (auto simp: fdOpenFdFromPath_def fdOpenFdFromDevice_def intro: kernel_step.not_opened)
  next
    case (Some d)
    with True assms(4) o obtain q where i: "fd_install K pid (FdTypeDevice d) ?s w = Inr ((q, s'), w')"
      and r: "r = (case q of None \<Rightarrow> -1 | Some x \<Rightarrow> x)"
      by (auto simp: fdOpenFdFromPath_def fdOpenFdFromDevice_def fault_simps)
    have "opens (abs_kernel s) p (FdTypeDevice d)"
      using True dev_open_names(2) [OF inv(4) o Some] by (simp add: opens_def abs_kernel_def)
    from fd_install_refines [OF s1 _ _ i k this mem] assms(2,3) r show ?thesis by (simp add: room_def)
  qed
next
  case False
  with assms(4) consider "s' = s" "r = -1"
    | q x w2 w3 where "fd_install K pid (FdTypeFd x) s w2 = Inr ((q, s'), w3)" "x \<noteq> -1"
      "r = (case q of None \<Rightarrow> -1 | Some y \<Rightarrow> y)"
    by (auto simp: fdOpenFdFromPath_def fdOpenFdFromFile_def fault_simps split: option.splits if_splits)
  then show ?thesis
  proof cases
    case 1
    with False show ?thesis by (simp add: kernel_step.not_opened)
  next
    case 2
    from False 2 have "opens (abs_kernel s) p (FdTypeFd x)" by (simp add: opens_def)
    from fd_install_refines [OF assms(1-3) 2(1) refl this mem] 2(3) show ?thesis by simp
  qed
qed

lemma removed_refines:
  assumes "server_inv s" "fd_slot s pid i = Some fd"
  shows "abs_kernel (removed s pid i fd socks) =
    set_proc pid ((abs_proc s pid)\<lparr>ap_files := (abs_files s pid)(i := None)\<rparr>) (abs_kernel s)"
proof (rule abs_change [OF removed_isolated [OF assms]])
  show "pid < length (sv_procs s)" using assms(2) by (simp add: fd_slot_Some)
  then show "abs_proc (removed s pid i fd socks) pid = (abs_proc s pid)\<lparr>ap_files := (abs_files s pid)(i := None)\<rparr>"
    using abs_removed [OF assms] by (simp add: abs_proc_def removed_frame)
qed (simp_all add: removed_frame)

lemma close_refines:
  assumes "server_inv s" "pid < length (sv_procs s)" "proc_fd (sv_procs s ! pid) f = Inr fd"
    and "fdClose K pid fd s w = Inr ((b, s'), w')" "cl \<longrightarrow> closes_ok K \<and> live_sockets s"
  shows "kernel_step mem cl pid (SysClose f) (abs_kernel s) (Ret (if b then 0 else -1)) (abs_kernel s')"
proof -
  let ?i = "nat f"
  have f: "f = int ?i" using assms(3) by (auto simp: proc_fd_def split: if_splits)
  have a: "abs_proc s pid = ak_procs (abs_kernel s) ! pid" using assms(2) by simp
  from proc_fd_slot [OF assms(2,3)] show ?thesis
  proof
    assume fd: "fd = -1"
    with assms(3) have "fd_slot s pid ?i = None"
      by (auto simp: fd_slot_def vec_look_def proc_fd_def split: if_splits)
    then have "ap_files (ak_procs (abs_kernel s) ! pid) ?i = None"
      using assms(2) by (simp add: abs_files_None [OF assms(1)])
    with kernel_step.not_closed [of cl "abs_kernel s" pid ?i mem] f fd assms(4) show ?thesis
      by (simp add: fdClose_neg)
  next
    assume slot: "fd_slot s pid ?i = Some fd"
    then obtain d where d: "abs_files s pid ?i = Some d"
      using abs_files_None [OF assms(1), of pid ?i] by (cases "abs_files s pid ?i") auto
    show ?thesis
    proof (cases b)
      case True
      with fdClose_result [OF assms(1) slot assms(4)] obtain socks where "s' = removed s pid ?i fd socks" by blast
      with removed_refines [OF assms(1) slot, of socks] kernel_step.closed [OF a, of ?i d mem cl] d f True
      show ?thesis by simp
    next
      case False
      with fdClose_result [OF assms(1) slot assms(4)] fdClose_True [OF assms(1) _ _ slot assms(4)] assms(5)
      have "s' = s" "\<not> cl" by auto
      with kernel_step.not_closed [of cl "abs_kernel s" pid ?i mem] f False show ?thesis by simp
    qed
  qed
qed

text \<open>Freeing a process closes some of its files, and all of them if closing does not fail.\<close>

lemma processFree_refines:
  assumes "server_inv s" "pid < length (sv_procs s)" "processFree K pid s w = Inr (s', w')"
  shows "abs_files s' pid \<subseteq>\<^sub>m abs_files s pid"
    "closes_ok K \<Longrightarrow> live_sockets s \<Longrightarrow> abs_files s' pid = Map.empty"
proof -
  from assms(3) obtain s1 w1 where
    l: "processFree_loop K pid [0 ..< length (pr_fds (sv_procs s ! pid))] s w = Inr (s1, w1)"
    and s': "s' = upd_proc pid (\<lambda>_. fst (Process_destroy K (sv_procs s1 ! pid) w1)) s1"
    by (auto simp: processFree_def fault_simps)
  have step: "abs_files t' pid \<subseteq>\<^sub>m abs_files t pid"
    if "server_inv t" "fd_slot t pid i = Some fd" "fdClose K pid fd t v = Inr ((b, t'), v')" for t i fd v b t' v'
    using fdClose_result [OF that] abs_removed [OF that(1,2)] by (cases b) (auto simp: map_le_def split: if_splits)
  have "abs_files s1 pid \<subseteq>\<^sub>m abs_files s pid"
    by (rule processFree_loop_rel [where R = "\<lambda>s t. abs_files t pid \<subseteq>\<^sub>m abs_files s pid",
          OF _ _ step assms(1,2) upt_ok l]) (auto intro: map_le_trans)
  moreover have "length (sv_procs s1) = length (sv_procs s)"
    using processFree_loop_inv [OF assms(1,2) upt_ok l] by (simp add: kept_def)
  then have "abs_files s' pid = abs_files s1 pid"
    using assms(2) by (simp add: s' abs_files_def fd_slot_def upd_proc_def Process_destroy_def fun_eq_iff cong: option.case_cong)
  ultimately show "abs_files s' pid \<subseteq>\<^sub>m abs_files s pid" by simp
  assume "closes_ok K" "live_sockets s"
  with processFree_frees [OF assms(1) _ _ assms(2,3)] show "abs_files s' pid = Map.empty"
    by (simp add: abs_files_def fun_eq_iff)
qed

text \<open>Reading and writing go to what the descriptor is open on, and to nothing if it is not.\<close>

lemma fd_at:
  assumes "server_inv s" "pid < length (sv_procs s)" "proc_fd (sv_procs s ! pid) f = Inr fd"
  shows "f = int (nat f)" "abs_files s pid (nat f) = map_option fe_d (fdGet fd (sv_fdEntries s))"
proof -
  show "f = int (nat f)" using assms(3) by (auto simp: proc_fd_def split: if_splits)
  from proc_fd_slot [OF assms(2,3)] show "abs_files s pid (nat f) = map_option fe_d (fdGet fd (sv_fdEntries s))"
  proof
    assume fd: "fd = -1"
    with assms(3) have "fd_slot s pid (nat f) = None"
      by (auto simp: fd_slot_def vec_look_def proc_fd_def split: if_splits)
    with fd show ?thesis by (simp add: abs_files_def fdGet_def)
  qed (simp add: abs_files_def)
qed

lemma fdRead_refines:
  assumes "fdRead K s fd b n w = Inr ((r, bs), w')"
  shows "reads (map_option fe_d (fdGet fd (sv_fdEntries s))) b n (to_s32 r) bs"
  using assms to_s32_id [of 0] to_s32_id [of "-1"]
  by (auto simp: fdRead_def reads_def dev_read_def split: option.splits fd_data.splits device.splits)

lemma fdWrite_refines:
  assumes "fdWrite K s fd bs w = Inr (r, w')"
  shows "writes (map_option fe_d (fdGet fd (sv_fdEntries s))) bs (to_s32 r)"
  using assms to_s32_id [of "-1"]
  by (auto simp: fdWrite_def writes_def dev_write_def split: option.splits fd_data.splits device.splits)

lemma chdir_refines:
  assumes "pid < length (sv_procs s)" "setCwd K p (sv_procs s ! pid) w = Inr ((b, q), w')" "mem \<longrightarrow> malloc_total K"
  shows "kernel_step mem cl pid (SysChDir p) (abs_kernel s) (Ret (if b then 0 else -1)) (abs_kernel (upd_proc pid (\<lambda>_. q) s))"
proof -
  from setCwd_result [OF assms(2)] obtain d where d: "p = Some d"
    and q: "q = (if b then (sv_procs s ! pid)\<lparr>pr_cwd := Some d\<rparr> else sv_procs s ! pid)" by blast
  show ?thesis
  proof (cases b)
    case True
    let ?s = "upd_proc pid (\<lambda>_. q) s"
    have "abs_proc ?s pid = (abs_proc s pid)\<lparr>ap_cwd := Some d\<rparr>"
      using assms(1) q True
      by (simp add: abs_proc_def abs_files_def fd_slot_def upd_proc_def fun_eq_iff cong: option.case_cong)
    from abs_change [OF isolated_upd _ assms(1) _ this]
    have "abs_kernel ?s = set_proc pid ((abs_proc s pid)\<lparr>ap_cwd := Some d\<rparr>) (abs_kernel s)" by (simp add: upd_proc_def)
    with kernel_step.chdir [of "abs_proc s pid" "abs_kernel s" pid mem cl d] assms(1) d True show ?thesis by simp
  next
    case False
    with q have "upd_proc pid (\<lambda>_. q) s = s" by (simp add: upd_proc_def)
    moreover have "\<not> mem" using setCwd_total [OF _ assms(2)] assms(3) False by blast
    ultimately show ?thesis using False d by (simp add: kernel_step.no_chdir)
  qed
qed

lemma fork_refines:
  assumes "server_inv s" "pid < length (sv_procs s)" "processFork K pid s w = Inr ((r, s'), w')"
  shows "kernel_step mem cl pid SysFork (abs_kernel s) (Ret r) (abs_kernel s')"
  using processFork_result [OF assms(3)]
proof (elim disjE exE conjE)
  assume "r = -1" "s' = s"
  then show ?thesis by (simp add: kernel_step.not_forked)
next
  fix c w1 i assume c: "forkCopy K (sv_procs s ! pid) w = Inr (Some c, w1)" and r: "r = 0"
    and s': "s' = s\<lparr>sv_procs := sv_procs s @ [c\<lparr>pr_posixPID := i\<rparr>]\<rparr>"
  from forkCopy_Some [OF c] server_invD(6) [OF assms(1,2)] s' assms(2)
  have "abs_kernel s' = push_proc \<lparr>ap_files = Map.empty, ap_cwd = ap_cwd (ak_procs (abs_kernel s) ! pid)\<rparr> (abs_kernel s)"
    by (simp add: abs_push)
  with kernel_step.forked r show ?thesis by metis
next
  fix c w1 i assume c: "forkCopy K (sv_procs s ! pid) w = Inr (Some c, w1)" and r: "r = c_int (length (sv_procs s))"
    and s': "s' = s\<lparr>sv_procs := sv_procs s @ [c]\<rparr>"
  from forkCopy_Some [OF c] server_invD(6) [OF assms(1,2)] s' assms(2)
  have "abs_kernel s' = push_proc \<lparr>ap_files = Map.empty, ap_cwd = ap_cwd (ak_procs (abs_kernel s) ! pid)\<rparr> (abs_kernel s)"
    by (simp add: abs_push)
  with kernel_step.forked [of r "abs_kernel s" mem cl pid] r show ?thesis by simp
qed

lemma replaced_refines:
  assumes "server_inv s" "pid < length (sv_procs s)" "processFree K pid s w = Inr (s1, w')" "pr_fds q = []"
  shows "abs_kernel (upd_proc pid (\<lambda>_. q) s1) =
    set_proc pid \<lparr>ap_files = Map.empty, ap_cwd = pr_cwd q\<rparr> (abs_kernel s)"
proof (rule abs_change [OF isolated_trans [OF processFree_isolated [OF assms(1-3)] isolated_upd] _ assms(2)])
  have k: "kept s s1" using server_inv_processFree [OF assms(1-3)] by simp
  then show "length (sv_procs (upd_proc pid (\<lambda>_. q) s1)) = length (sv_procs s)" by (simp add: kept_def upd_proc_def)
  show "map_option fst (dev_abs (sv_devices (upd_proc pid (\<lambda>_. q) s1)) n) = map_option fst (dev_abs (sv_devices s) n)" for n
    using k by (simp add: kept_def upd_proc_def)
  show "abs_proc (upd_proc pid (\<lambda>_. q) s1) pid = \<lparr>ap_files = Map.empty, ap_cwd = pr_cwd q\<rparr>"
    using k assms(2,4)
    by (simp add: kept_def abs_proc_def abs_files_def fd_slot_def vec_look_def upd_proc_def fun_eq_iff)
qed

lemma exec_refines:
  assumes "server_inv s" "pid < length (sv_procs s)" "sysExec K pid p argv s w = Inr ((r, s'), w')"
    "mem \<longrightarrow> malloc_total K"
  shows "kernel_step mem cl pid (SysExec p argv) (abs_kernel s) r (abs_kernel s')"
  using assms(3)
proof (cases rule: sysExec_result)
  case failed
  then show ?thesis by (simp add: kernel_step.no_exec)
next
  case (loaded np1 np2 np3 s1 w1 w2 w3 w4 b2 b3 q)
  note np = exec_process [OF loaded(1-3)]
  have cwd: "mem \<longrightarrow> pr_cwd np3 = pr_cwd (sv_procs s ! pid)"
    using np setCwd_total [OF _ loaded(3)] assms(4) by simp
  from sysExec_no_exit [OF assms(3)] loaded(6) have r: "r = Enters q" and a: "arun K False argv np3 w4 = Inr (RunEntered q, w')" by auto
  from arun_result [OF a] np have q: "pr_fds q = []" "pr_cwd q = pr_cwd np3" "pr_argv q = Some argv" by simp_all
  from kernel_step.exec [OF q(3,2), of mem "abs_kernel s" pid cl p] cwd assms(2)
    replaced_refines [OF assms(1,2) loaded(4) q(1)] loaded(5) r q(2)
  show ?thesis by simp
qed

lemma exit_refines:
  assumes "server_inv s" "pid < length (sv_procs s)" "processFree K pid s w = Inr (s', w')"
    "cl \<longrightarrow> closes_ok K \<and> live_sockets s"
  shows "kernel_step mem cl pid (SysExit c) (abs_kernel s) (Exits c) (abs_kernel s')"
proof -
  have k: "kept s s'" using server_inv_processFree [OF assms(1-3)] by simp
  note f = processFree_refines [OF assms(1-3)]
  from k have "abs_kernel s' = set_proc pid (abs_proc s' pid) (abs_kernel s)"
    by (intro abs_change [OF processFree_isolated [OF assms(1-3)] _ assms(2)]) (simp_all add: kept_def)
  moreover have "kernel_step mem cl pid (SysExit c) (abs_kernel s) (Exits c) (set_proc pid (abs_proc s' pid) (abs_kernel s))"
    using f assms(2,4) by (intro kernel_step.exit) auto
  ultimately show ?thesis by simp
qed

section \<open>The refinement\<close>

lemma syscall_refines:
  assumes "server_inv s" "room s" "syscall K pid req s w = Inr ((r, s'), w')"
    and mem: "mem \<longrightarrow> malloc_total K" and cl: "cl \<longrightarrow> closes_ok K \<and> live_sockets s"
  shows "kernel_step mem cl pid req (abs_kernel s) r (abs_kernel s')"
proof -
  from assms(3) have pid: "pid < length (sv_procs s)" by (auto simp: syscall_def split: if_splits)
  note call = assms(3) [unfolded syscall_def Let_def]
  show ?thesis
  proof (cases req)
    case (SysExit c)
    with call pid show ?thesis
      by (auto simp: syscallExit_def fault_simps intro: exit_refines [OF assms(1) pid _ cl])
  next
    case SysFork
    with call pid show ?thesis by (auto simp: fault_simps intro: fork_refines [OF assms(1) pid])
  next
    case (SysRead f b n)
    with call pid obtain fd x bs where fd: "proc_fd (sv_procs s ! pid) f = Inr fd"
      and rd: "fdRead K s fd b n w = Inr ((x, bs), w')" and r: "r = RetData (to_s32 x) bs" "s' = s"
      by (auto simp: fault_simps)
    note at = fd_at [OF assms(1) pid fd]
    have "kernel_step mem cl pid (SysRead (int (nat f)) b n) (abs_kernel s) r (abs_kernel s)"
      unfolding r by (rule kernel_step.read) (simp add: pid at(2) fdRead_refines [OF rd])
    with at(1) SysRead r(2) show ?thesis by simp
  next
    case (SysWrite f bs)
    with call pid obtain fd x where fd: "proc_fd (sv_procs s ! pid) f = Inr fd"
      and wr: "fdWrite K s fd bs w = Inr (x, w')" and r: "r = Ret (to_s32 x)" "s' = s"
      by (auto simp: fault_simps)
    note at = fd_at [OF assms(1) pid fd]
    have "kernel_step mem cl pid (SysWrite (int (nat f)) bs) (abs_kernel s) r (abs_kernel s)"
      unfolding r by (rule kernel_step.written) (simp add: pid at(2) fdWrite_refines [OF wr])
    with at(1) SysWrite r(2) show ?thesis by simp
  next
    case (SysOpen p fl md)
    with call pid show ?thesis by (cases p) (auto simp: need_def fault_simps intro: open_refines [OF assms(1,2) pid _ mem])
  next
    case (SysClose f)
    with call pid show ?thesis by (auto simp: fault_simps intro: close_refines [OF assms(1) pid _ _ cl])
  next
    case (SysExec p argv)
    with call pid show ?thesis by (auto intro: exec_refines [OF assms(1) pid _ mem])
  next
    case (SysChDir p)
    with call pid show ?thesis by (auto simp: fault_simps intro: chdir_refines [OF pid _ mem])
  next
    case (SysGetCwd b n)
    with call pid show ?thesis
      by (auto split: option.splits if_splits intro: kernel_step.no_cwd kernel_step.no_buffer kernel_step.getcwd)
  qed (use call pid in \<open>auto split: prod.splits intro: kernel_step.getpid kernel_step.alloc kernel_step.invalid\<close>)
qed

end
