(* ===== verification/KernelRun.thy ===== *)
theory KernelRun
  imports Kernel SysRun
begin

text \<open>
  Programs seen through the specification \<open>Kernel\<close>: the number the server knows a process
  by does not change while it runs, and every program without fork takes the abstract state
  from step to step of that process, whatever functions of the library it calls.
\<close>

definition kernel_steps :: "bool \<Rightarrow> nat \<Rightarrow> kernel \<Rightarrow> kernel \<Rightarrow> bool" where
  \<comment> \<open>steps of one process; closing may fail\<close>
  "kernel_steps mem pid = rtranclp (\<lambda>k k'. \<exists>req r. req \<noteq> SysFork \<and> kernel_step mem False pid req k r k')"

lemma kernel_steps_refl: "kernel_steps mem pid k k"
  by (simp add: kernel_steps_def)

lemma kernel_steps_step:
  "kernel_steps mem pid k k' \<Longrightarrow> kernel_step mem False pid req k' r k'' \<Longrightarrow> req \<noteq> SysFork \<Longrightarrow>
   kernel_steps mem pid k k''"
  unfolding kernel_steps_def by (blast intro: rtranclp.rtrancl_into_rtrancl)

text \<open>A process never gets new files but the ones it opens, and other processes stay as they are.\<close>

lemma kernel_step_others:
  "kernel_step mem cl pid req k r k' \<Longrightarrow> req \<noteq> SysFork \<Longrightarrow>
   length (ak_procs k') = length (ak_procs k) \<and> ak_devices k' = ak_devices k \<and>
   (\<forall>q. q \<noteq> pid \<longrightarrow> ak_procs k' ! q = ak_procs k ! q)"
  by (induction rule: kernel_step.induct) (simp_all add: set_proc_def)

lemma kernel_steps_others:
  assumes "kernel_steps mem pid k k'"
  shows "length (ak_procs k') = length (ak_procs k) \<and> ak_devices k' = ak_devices k \<and>
    (\<forall>q. q \<noteq> pid \<longrightarrow> ak_procs k' ! q = ak_procs k ! q)"
  using assms unfolding kernel_steps_def
proof (induction rule: rtranclp_induct)
  case (step k1 k2)
  then obtain req r where "kernel_step mem False pid req k1 r k2" "req \<noteq> SysFork" by blast
  from kernel_step_others [OF this] step.IH show ?case by simp
qed simp

section \<open>The process stays the same\<close>

context own_process
begin

lemma same_process:
  assumes "server_inv s" "room s" "callerPID s p = Some pid" "serverSysCall K req s w = Inr ((r, s'), w')"
    "\<forall>c. r \<noteq> Exits c" "req \<noteq> SysFork"
  shows "callerPID s' p = Some pid"
proof -
  note c = callerPID_Some [OF assms(3)]
  have call: "syscall K pid req s w = Inr ((r, s'), w')" using assms(3,4) by (simp add: serverSysCall_def getpid)
  from syscall_caller [OF assms(1) call assms(5,6) _ getpid] c
  have self: "pid < length (sv_procs s')" "pr_posixPID (sv_procs s' ! pid) = p" by simp_all
  from callerPID_I [OF this] obtain j where j: "j \<le> pid" "callerPID s' p = Some j" "pr_posixPID (sv_procs s' ! j) = p"
    by blast
  have "\<not> j < pid"
  proof
    assume less: "j < pid"
    with syscall_isolated [OF assms(1,2) call] c have "sv_procs s' ! j = sv_procs s ! j" by (simp add: isolated_def)
    with c less j(3) show False by simp
  qed
  with j show ?thesis by simp
qed

lemma call_refines:
  assumes "server_inv s" "room s" "callerPID s p = Some pid" "serverSysCall K req s w = Inr ((r, s'), w')"
    "mem \<longrightarrow> malloc_total K"
  shows "kernel_step mem False pid req (abs_kernel s) r (abs_kernel s')"
  using assms(3,4) syscall_refines [OF assms(1,2) _ assms(5), of pid req w r s' w' False]
  by (simp add: serverSysCall_def getpid)

lemma lib_steps_refine:
  assumes "rtranclp (lib_step K False) (s, w) c" "server_inv s" "callerPID s p = Some pid" "room (fst c)"
    "mem \<longrightarrow> malloc_total K"
  shows "callerPID (fst c) p = Some pid \<and> kernel_steps mem pid (abs_kernel s) (abs_kernel (fst c))"
  using assms(1,4)
proof (induction rule: rtranclp_induct)
  case base
  with assms show ?case by (simp add: kernel_steps_refl)
next
  case (step c d)
  obtain s1 w1 s2 w2 where c: "c = (s1, w1)" "d = (s2, w2)" by (metis surj_pair)
  have "callerPID s2 p = Some pid \<and> kernel_steps mem pid (abs_kernel s) (abs_kernel s2)"
    using step.hyps(2) unfolding c
  proof (cases rule: lib_stepE)
    case (call req r)
    then have r: "room s1" using step.prems c room_mono serverSysCall_mono by fastforce
    from step.IH r c have ih: "callerPID s1 p = Some pid" "kernel_steps mem pid (abs_kernel s) (abs_kernel s1)"
      by simp_all
    have i: "server_inv s1" using lib_steps_keep [OF step.hyps(1) assms(2)] assms(3) r c by simp
    have "\<forall>c. r \<noteq> Exits c" "req \<noteq> SysFork" using call by (simp_all add: returns_def)
    with same_process [OF i r ih(1) call(1)] call_refines [OF i r ih(1) call(1) assms(5)] kernel_steps_step [OF ih(2)]
    show ?thesis by simp
  qed (use step c in simp)
  then show ?case by (simp add: c)
qed

lemma follows_refines:
  assumes "follows K False m" "server_inv s" "callerPID s p = Some pid" "m s w = Inr ((b, s'), w')" "room s'"
    "mem \<longrightarrow> malloc_total K"
  shows "kernel_steps mem pid (abs_kernel s) (abs_kernel s')"
proof -
  from assms(1,4) have t: "traced K False (s, w) (Inr ((b, s'), w'))" by (metis follows_def)
  show ?thesis
  proof (cases b)
    case (Back x)
    with t lib_steps_refine [of s w "(s', w')"] assms show ?thesis by simp
  next
    case (Gone r)
    with t obtain s1 w1 req where st: "rtranclp (lib_step K False) (s, w) (s1, w1)"
      and c: "serverSysCall K req s1 w1 = Inr ((r, s'), w')" "req \<noteq> SysFork" by (auto simp: left_by_def)
    have r: "room s1" using assms(5) serverSysCall_mono [OF c(1)] by (rule room_mono)
    have "server_inv s1" using lib_steps_keep [OF st assms(2)] assms(3) r by simp
    with lib_steps_refine [OF st assms(2,3) _ assms(6)] r call_refines [OF _ r _ c(1) assms(6)] kernel_steps_step c(2)
    show ?thesis by fastforce
  qed
qed

end

text \<open>So it is for a process of a reachable system.\<close>

lemma as_proc_refines:
  assumes "follows (as_proc p K) False m" "server_inv s" "0 < p" "callerPID s p = Some pid"
    "m s w = Inr ((b, s'), w')" "room s'" "mem \<longrightarrow> malloc_total K"
  shows "kernel_steps mem pid (abs_kernel s) (abs_kernel s')"
proof -
  have p: "1 + int (nat (p - 1)) = p" using assms(3) by simp
  have "mem \<longrightarrow> malloc_total (as_proc p K)" using assms(7) by (simp add: malloc_total_def as_proc_def)
  with as_proc.follows_refines [where n = "nat (p - 1)" and K = K and m = m and mem = mem] assms show ?thesis unfolding p by simp
qed

end
