(* ===== verification/ShellRun.thy ===== *)
theory ShellRun
  imports ShellFacts KernelRun
begin

text \<open>
  A turn of the shell in the system of POSIX processes: the prompt and the read leave the copy of
  the server alone, and a line \<^verbatim>\<open>cd\<close> that was read takes the system to a reachable one that
  differs in the working directory of the shell's process only.
\<close>

section \<open>Calls that leave the server alone\<close>

definition leaves :: "('a, 'w) ucall \<Rightarrow> bool" where
  "leaves m \<longleftrightarrow> (\<forall>s w b s' w'. m s w = Inr ((b, s'), w') \<longrightarrow> s' = s)"

named_theorems leave \<comment> \<open>what leaves the server alone\<close>

lemma leavesD: "leaves m \<Longrightarrow> m s w = Inr ((b, s'), w') \<Longrightarrow> s' = s"
  unfolding leaves_def by blast

lemma leave_steps [leave]: "leaves (u_return x)" "leaves (u_check r)" "leaves (u_world g)"
  by (auto simp: leaves_def u_return_def u_check_def u_world_def and_then_eq_Inr)

lemma leave_bind [leave]:
  assumes "leaves m" "\<And>x. leaves (g x)"
  shows "leaves (u_bind m g)"
  unfolding leaves_def
proof (intro allI impI)
  fix s w b s' w'
  assume m: "u_bind m g s w = Inr ((b, s'), w')"
  show "s' = s"
  proof (cases "m s w" rule: u_call_cases)
    case (ok x s1 w1)
    with m leavesD [OF assms(1) ok] leavesD [OF assms(2)] show ?thesis by (simp add: u_bind_def)
  next
    case (gone g s1 w1)
    with m leavesD [OF assms(1) gone] show ?thesis by (simp add: u_bind_def)
  qed (use m in \<open>simp add: u_bind_def\<close>)
qed

definition reads_only :: "sysreq \<Rightarrow> bool" where
  "reads_only req \<longleftrightarrow> (case req of SysRead _ _ _ \<Rightarrow> True | SysWrite _ _ \<Rightarrow> True | SysGetCwd _ _ \<Rightarrow> True
     | SysAlloc _ _ \<Rightarrow> True | SysGetPid \<Rightarrow> True | _ \<Rightarrow> False)"

lemma syscall_reads_only:
  "reads_only req \<Longrightarrow> syscall K pid req s w = Inr ((r, s'), w') \<Longrightarrow> s' = s"
  by (cases req) (auto simp: reads_only_def syscall_def fault_simps split: if_splits option.splits)

lemma leave_call [leave]: "reads_only req \<Longrightarrow> leaves (sys_call K req)"
  by (auto simp: leaves_def sys_call_def serverSysCall_def fault_simps split: option.splits dest: syscall_reads_only)

lemma leave_memory [leave]: "leaves (wrap_realloc K q n)" "leaves (wrap_malloc K n)" "leaves (wrap_free K q)"
  by (auto simp: wrap_realloc_def wrap_malloc_def wrap_free_def sys_alloc_def reads_only_def intro!: leave)

lemma leave_io [leave]: "leaves (wrap_read K fd x i)" "leaves (wrap_write K fd t i)" "leaves (wrap_getcwd K c n)"
  by (auto simp: wrap_read_def sys_read_def wrap_write_def sys_write_def wrap_getcwd_def sys_getcwd_def reads_only_def
      Let_def intro!: leave split: option.split)

lemma leave_absolute [leave]: "leaves (shellPathAbsolute K env x)"
  by (auto simp: shellPathAbsolute_def path_block_def intro!: leave split: option.split)

lemma leave_display [leave]: "leaves (shellPathDisplay K env x)"
  by (auto simp: shellPathDisplay_def home_display_def intro!: leave split: option.split)

lemma leave_prompt [leave]: "leaves (shell_prompt K env fdOut b)"
  by (auto simp: shell_prompt_def intro!: leave split: option.split)

section \<open>A line \<^verbatim>\<open>cd\<close>\<close>

text \<open>
  The turn that reads it, in any process: the shell parses the line it read in its buffer, and the
  buffer is whole again.
\<close>

lemma c_str_whole: "NUL \<notin> set m \<Longrightarrow> c_str (take (length m) (m @ r)) = m"
  by (auto simp: c_str_def)

lemma cd_turn:
  assumes "runs_as K s pid" "calm K view" "sets_env L view put" "length (lc_stack L) = nat LINESIZE"
    and "shell_word g" "cd_target env g = Some t" "NUL \<notin> set t" "int (length t) + 1 < 2 ^ 32"
    and "px_io_sane K" "length b = nat LINESIZE" "m = ''cd'' @ '' '' @ g @ [CHR 0x0A]"
    and "shell_prompt K env fdOut b s w = Inr ((Back b1, s1), w1)"
    and "wrap_read K fdIn True (LINESIZE - 1) s1 w1 = Inr ((Back (int (length m), m), s2), w2)"
  shows "\<exists>b' w'. shell_turn K L env fdIn fdOut b s w =
      Inr ((Back (Inl b'), upd_proc pid (\<lambda>q. q\<lparr>pr_cwd := Some (canonical t)\<rparr>) s), w') \<and> length b' = nat LINESIZE \<and>
    view w' = (if int (length (canonical t)) < LINESIZE then put ''PWD'' (canonical t) (view w2) else view w2)"
proof -
  have s: "s1 = s" "s2 = s" using leavesD [OF leave_prompt assms(12)] leavesD [OF leave_io(1) assms(13)] by simp_all
  have "shell_word ''cd''" by (simp add: shell_word_def)
  note parse = parse_command [OF this assms(5)]
  have "NUL \<notin> set m" using assms(5) by (simp add: assms(11) shell_word_def)
  then have line: "c_str (take (nat (int (length m))) (m @ drop (length m) b1)) = m" by (simp add: c_str_whole)
  have pos: "0 < int (length m)" by (simp add: assms(11))
  from turn_reads [OF assms(9,10,12,13) pos, where L = L] line s obtain b2 where b2: "length b2 = nat LINESIZE" "c_str b2 = m"
    and turn: "shell_turn K L env fdIn fdOut b s w =
      u_bind (shellParseLine K L env fdOut m) (\<lambda>_. u_return (Inl (b2[length (parsed_line m) := NUL]))) s w2" by auto
  have l: "length t + 1 < 2 ^ 64" "int (length (canonical t)) + 1 < 2 ^ 32"
    using assms(8) length_canonical [of t] by simp_all
  note a = absolute_target [OF assms(1,2,5,6) l(1)]
  from cd_to [OF assms(1-4) a [where w = w2] NUL_canonical [OF assms(7)] l(2)] obtain x w' where
    "shellParseLine K L env fdOut m s w2 = Inr ((Back x, upd_proc pid (\<lambda>q. q\<lparr>pr_cwd := Some (canonical t)\<rparr>) s), w')"
    "view w' = (if int (length (canonical t)) < LINESIZE then put ''PWD'' (canonical t) (view w2) else view w2)"
    unfolding assms(11) parse yields_def by auto
  with turn b2 show ?thesis by (simp add: u_bind_def u_return_def)
qed

text \<open>The same in a process of a reachable system.\<close>

lemma as_proc_simps [simp]:
  "calm (as_proc p K) view = calm K view" "px_io_sane (as_proc p K) = px_io_sane K"
  by (simp_all add: as_proc_def calm_def px_io_sane_def)

lemma cd_turn_reach:
  assumes "reach K fs ip port S" "roomy S" "sy_nodes S p = Some s" "p \<noteq> sy_daemon S" "callerPID s p = Some pid"
    and "calm K view" "sets_env L view put" "length (lc_stack L) = nat LINESIZE" "px_io_sane K"
    and "shell_word g" "cd_target env g = Some t" "NUL \<notin> set t" "int (length t) + 1 < 2 ^ 32"
    and "length b = nat LINESIZE" "m = ''cd'' @ '' '' @ g @ [CHR 0x0A]"
    and "shell_prompt (as_proc p K) env fdOut b s (sy_world S) = Inr ((Back b1, s1), w1)"
    and "wrap_read (as_proc p K) fdIn True (LINESIZE - 1) s1 w1 = Inr ((Back (int (length m), m), s2), w2)"
  shows "\<exists>b' s' w'. shell_turn (as_proc p K) L env fdIn fdOut b s (sy_world S) = Inr ((Back (Inl b'), s'), w') \<and>
    reach K fs ip port (set_node S p (Some s') w') \<and> s' = upd_proc pid (\<lambda>q. q\<lparr>pr_cwd := Some (canonical t)\<rparr>) s \<and>
    length b' = nat LINESIZE \<and>
    wrap_getcwd (as_proc p K) (Some b') LINESIZE s' w' =
      Inr ((Back (int (length (canonical t)) < LINESIZE, Some (getcwd_buf (canonical t) (nat LINESIZE))), s'), w')"
proof -
  let ?K = "as_proc p K" and ?s = "upd_proc pid (\<lambda>q. q\<lparr>pr_cwd := Some (canonical t)\<rparr>) s"
  have run: "runs_as ?K s pid" using assms(5) by (simp add: runs_as_def)
  have K: "calm ?K view" "px_io_sane ?K" using assms(6,9) by simp_all
  from cd_turn [OF run K(1) assms(7,8,10-13) K(2) assms(14-17)]
  obtain b' w' where t: "shell_turn ?K L env fdIn fdOut b s (sy_world S) = Inr ((Back (Inl b'), ?s), w')"
    "length b' = nat LINESIZE" by auto
  have "room ?s" using assms(2,3) by (auto simp: roomy_def room_def upd_proc_def)
  from follows_reach [OF follow_turn assms(1-4) t(1) this]
  have "reach K fs ip port (set_node S p (Some ?s) w')" by (simp add: ended_def)
  moreover have "wrap_getcwd ?K (Some b') LINESIZE ?s w' =
      Inr ((Back (int (length (canonical t)) < LINESIZE, Some (getcwd_buf (canonical t) (nat LINESIZE))), ?s), w')"
    by (rule getcwd_back [OF runs_as_cwd [OF run] _ _ _ t(2)])
      (use runs_as_bound [OF run] assms(13) length_canonical [of t] in \<open>auto simp: upd_proc_def LINESIZE_def\<close>)
  ultimately show ?thesis using t by blast
qed

end
