(* ===== verification/UserDemo.thy ===== *)
theory UserDemo
  imports Demo ProgramFacts ShellRun
begin

text \<open>
  The host's C library of a concrete system, whose log is the world, and an integer square
  root that provides what factor relies on.
\<close>

section \<open>A library\<close>

definition demo_libc :: "os_call list libc" where
  "demo_libc = \<lparr>lc_setenv = (\<lambda>n v w. w @ [CallSetenv n v]), lc_print = (\<lambda>t w. w @ [CallPrint t]),
     lc_stack = replicate (nat LINESIZE) NUL\<rparr>"

lemma demo_calm: "calm (demo_os f p) (\<lambda>w. w)" "in_place (demo_os f p)"
  by (simp_all add: calm_def in_place_def demo_os_def)

lemma demo_sets_env: "sets_env demo_libc (\<lambda>w. w) (\<lambda>n v w. w @ [CallSetenv n v])"
  by (simp add: sets_env_def demo_libc_def)

lemma demo_runs_as: "runs_as (demo_os f 7) demo_server 1"
  by (simp add: runs_as_def demo_getpid demo_caller)

lemma demo_stack: "length (lc_stack demo_libc) = nat LINESIZE"
  by (simp add: demo_libc_def)

section \<open>A square root\<close>

fun isqrt :: "nat \<Rightarrow> nat" where
  "isqrt n = (if n = 0 then 0 else let r = 2 * isqrt (n div 4) in if (r + 1) ^ 2 \<le> n then r + 1 else r)"

declare isqrt.simps [simp del]

lemma isqrt_root: "(isqrt n) ^ 2 \<le> n \<and> n < (isqrt n + 1) ^ 2"
proof (induction n rule: isqrt.induct)
  case (1 n)
  show ?case
  proof (cases "n = 0")
    case True
    then show ?thesis by (simp add: isqrt.simps [of 0])
  next
    case False
    let ?k = "isqrt (n div 4)"
    from 1 [OF False] have k: "?k ^ 2 \<le> n div 4" "n div 4 < (?k + 1) ^ 2" by simp_all
    from k(1) have "(2 * ?k) ^ 2 \<le> n" by (simp add: power_mult_distrib)
    moreover from k(2) have "n < (2 * ?k + 2) ^ 2" by (simp add: power2_eq_square)
    ultimately show ?thesis using False by (subst (1 2) isqrt.simps) (simp add: Let_def)
  qed
qed

definition demo_root :: "u64 \<Rightarrow> u64" where
  "demo_root n = of_nat (isqrt (unat n))"

lemma demo_root_ok: "root_ok demo_root"
  unfolding root_ok_def
proof (intro allI)
  fix n :: u64
  let ?r = "isqrt (unat n)"
  have "?r ^ 2 \<le> unat n" "unat n < (?r + 1) ^ 2" using isqrt_root [of "unat n"] by simp_all
  moreover have "unat n < (2 ^ 32) ^ 2" using unsigned_less [of n] by simp
  ultimately have "?r ^ 2 < (2 ^ 32) ^ 2" by linarith
  then have r: "?r < 2 ^ 32" by (rule power2_less_imp_less) simp
  then have "unat (demo_root n) = ?r" by (simp add: demo_root_def unat_of_nat take_bit_nat_eq_self)
  with r \<open>unat n < (?r + 1) ^ 2\<close> show "unat n < (unat (demo_root n) + 1) ^ 2 \<and> unat (demo_root n) \<le> 2 ^ 32" by simp
qed

section \<open>A line of the shell\<close>

text \<open>Init with a host file as descriptor 0, and a line buffer whose rest is zero.\<close>

definition demo_file :: server where
  "demo_file = demo_open\<lparr>sv_fdEntries := [Some \<lparr>fe_fd = 0, fe_refCount = Some 1, fe_d = FdTypeFd 17\<rparr>]\<rparr>"

definition demo_line :: string where
  "demo_line = ''stop'' @ NUL # replicate (nat LINESIZE - 5) NUL"

lemma demo_line:
  "c_str demo_line = ''stop''" "length demo_line = nat LINESIZE"
  "store_nul (''stop'' @ drop (Suc (Suc (Suc (Suc 0)))) demo_line) 4 = Inr demo_line"
  "demo_line[Suc (Suc (Suc (Suc 0))) := NUL] = demo_line"
  by (simp_all add: demo_line_def c_str_def LINESIZE_def store_nul_def)

lemma demo_file_read:
  "serverSysCall (demo_os 0 7) (SysRead 0 True 65535) demo_file [] =
     Inr ((RetData 4 ''stop'', demo_file), [CallRead 17 65535])"
proof -
  have "callerPID demo_file 7 = Some 1"
    by (simp add: callerPID_def demo_file_def demo_open_fields demo_init_def Process_new_def Let_def)
  then show ?thesis
    by (simp add: serverSysCall_def demo_getpid syscall_def proc_fd_def demo_file_def demo_open_fields fdRead_def
        fdGet_def demo_os_def to_s32_def)
qed

lemma demo_file_wrap_read:
  "wrap_read (demo_os 0 7) 0 True (LINESIZE - 1) demo_file [] =
     Inr ((Back (4, ''stop''), demo_file), [CallRead 17 65535])"
  by (simp add: wrap_read_def sys_read_def sys_call_def u_bind_def LINESIZE_def to_u32_id demo_file_read
      u_check_def ret_int_def ret_data_def)

lemma demo_turn:
  "shell_turn (demo_os 0 7) demo_libc None 0 (-1) demo_line demo_file [] =
     Inr ((Back (Inl demo_line), demo_file), [CallRead 17 65535])"
proof -
  note r = demo_file_wrap_read
  have p: "shellParseLine (demo_os 0 7) demo_libc None (-1) ''stop'' demo_file w = Inr ((Back (), demo_file), w)" for w
    by (simp add: shellParseLine_def strip_comment_def strtok_r_def u_return_def)
  have q: "parsed_line ''stop'' = ''stop''"
    by (simp add: parsed_line_def strip_comment_def strtok_r_def)
  show ?thesis
    by (simp add: shell_turn_def shell_prompt_def u_bind_def r p q u_return_def u_check_def demo_line del: append.simps)
qed

section \<open>A line from a terminal\<close>

text \<open>A system whose init has a file as descriptor 0, from which a line is read.\<close>

definition typed_line :: string where
  "typed_line = ''cd'' @ '' '' @ ''//bin/'' @ [CHR 0x0A]"

definition typed_os :: "os_call list posix" where
  "typed_os = (demo_os 0 0)\<lparr>px_read := (\<lambda>fd n w. ((int (length (take n typed_line)), take n typed_line), w))\<rparr>"

definition demo_typed :: server where
  "demo_typed = demo_server\<lparr>sv_procs := [Process_new, demo_init\<lparr>pr_fds := [0]\<rparr>],
     sv_fdEntries := [Some \<lparr>fe_fd = 0, fe_refCount = Some 1, fe_d = FdTypeFd 17\<rparr>]\<rparr>"

definition demo_system3 :: "os_call list system" where
  "demo_system3 = \<lparr>sy_daemon = 10, sy_nodes = [10 \<mapsto> demo_daemon, 7 \<mapsto> demo_typed], sy_world = []\<rparr>"

lemma demo_typed_procs: "sv_procs demo_typed = [Process_new, demo_init\<lparr>pr_fds := [0]\<rparr>]"
  by (simp add: demo_typed_def)

lemma typed_os_calm: "calm typed_os (\<lambda>w. w)"
  using demo_calm(1) [of 0 0] by (simp add: calm_def typed_os_def)

lemma typed_os_sane: "px_io_sane typed_os"
  using px_io_sane_demo_os [of 0 0] by (simp add: px_io_sane_def typed_os_def)

lemma demo_typed_caller: "callerPID demo_typed 7 = Some 1"
  by (simp add: callerPID_def demo_typed_procs demo_init_def Process_new_def Let_def)

lemma demo_roomy3: "roomy demo_system3"
  by (auto simp: roomy_def room_def demo_system3_def demo_daemon_def demo_typed_def demo_server_def
      Server_new_def split: if_splits)

lemma demo_reach3: "reach typed_os demo_fs (Some init_path) 51717 demo_system3"
proof -
  have t: "tame typed_os" using tame_demo_os [of 0 0] by (simp add: tame_def typed_os_def)
  have r: "roomy \<lparr>sy_daemon = 10, sy_nodes = [10 \<mapsto> demo_daemon, 7 \<mapsto> s], sy_world = w\<rparr>" if "room s" for s and w :: "os_call list"
    using that by (auto simp: roomy_def room_def demo_daemon_def demo_server_def Server_new_def split: if_splits)
  have b: "reach typed_os demo_fs (Some init_path) 51717 demo_system"
    unfolding demo_system_def
    by (rule reach.boot [where w = "[]", OF _ _ _ tame_boot(1) [OF tame_as_fork [OF t], where r = 7 and p = 10]
          tame_boot(2) [OF tame_as_fork [OF t], where r = 0 and p = 7]]) (simp_all add: is_pid_def)
  let ?T = "\<lparr>sy_daemon = 10, sy_nodes = [10 \<mapsto> demo_daemon, 7 \<mapsto> demo_typed],
      sy_world = [CallDlopen ''./container//sys/init'', CallOpen ''./container//a'' 0 0]\<rparr>"
  have o: "px_getpid (as_proc 7 typed_os) w = 7" "px_malloc (as_proc 7 typed_os) n w = (True, w)"
    "px_open (as_proc 7 typed_os) p f m w = (17, w @ [CallOpen p f m])" for w n p f m
    by (simp_all add: as_proc_def typed_os_def demo_os_def)
  have "serverSysCall (as_proc 7 typed_os) (SysOpen (Some ''/a'') 0 0) demo_server w =
      Inr ((Ret 0, demo_typed), w @ [CallOpen ''./container//a'' 0 0])" for w
    unfolding serverSysCall_def o(1) demo_caller
    by (simp add: o demo_typed_def open_defs fdOpenFdFromFile_def fileLocalPath_def demo_defs)
  then have st: "sys_step typed_os demo_system ?T"
    using sys_step.call [of demo_system 7 demo_server "SysOpen (Some ''/a'') 0 0" typed_os "Ret 0" demo_typed]
    by (simp add: demo_system_def)
  have "reach typed_os demo_fs (Some init_path) 51717 ?T"
    by (rule reach.step [OF b _ st]) (use r demo_room in \<open>simp add: demo_system_def\<close>)
  moreover have "sys_step typed_os ?T demo_system3"
    using sys_step.world [of typed_os ?T "[]"] by (simp add: demo_system3_def)
  moreover have "roomy ?T" by (rule r) (simp add: room_def demo_typed_def)
  ultimately show ?thesis using reach.step by blast
qed

lemma typed_os_as_proc:
  "px_getpid (as_proc p typed_os) w = p"
  "px_read (as_proc p typed_os) fd n w = ((int (length (take n typed_line)), take n typed_line), w)"
  by (simp_all add: as_proc_def typed_os_def)

lemma demo_typed_call:
  "serverSysCall (as_proc 7 typed_os) (SysRead 0 True 65535) demo_typed [] =
     Inr ((RetData (int (length typed_line)) typed_line, demo_typed), [])"
  unfolding serverSysCall_def typed_os_as_proc demo_typed_caller
  by (simp add: syscall_def proc_fd_def demo_typed_def fdRead_def fdGet_def typed_os_as_proc typed_line_def to_s32_def)

lemma demo_typed_read:
  "wrap_read (as_proc 7 typed_os) 0 True (LINESIZE - 1) demo_typed [] =
     Inr ((Back (int (length (''cd'' @ '' '' @ ''//bin/'' @ [CHR 0x0A])), ''cd'' @ '' '' @ ''//bin/'' @ [CHR 0x0A]), demo_typed), [])"
  unfolding typed_line_def [symmetric]
  by (simp add: wrap_read_def sys_read_def sys_call_def u_bind_def LINESIZE_def to_u32_id demo_typed_call u_check_def
      ret_int_def ret_data_def)

end
