(* ===== verification/Dshell.thy ===== *)
theory Dshell
  imports CString Posix
begin

text \<open>
  The interactive shell \<^verbatim>\<open>src/programs/dshell\<close>: \<^verbatim>\<open>token.cpp\<close> splits a line into tokens,
  \<^verbatim>\<open>command.cpp\<close> groups tokens into job strings, \<^verbatim>\<open>job.cpp\<close> makes a job of each, and
  \<^verbatim>\<open>dshell.cpp\<close> runs them. Two things of the C++ code have no meaning as values and are kept
  visible instead: a token records the size of the block its characters were copied to,
  and what is read through the pointer \<^verbatim>\<open>ss.str().c_str()\<close> after the temporary string is
  gone is a parameter, \<open>stale\<close>, applied to the text the temporary held.
\<close>

section \<open>Tokens\<close>

record token =
  tk_str :: string
  tk_length :: nat
  tk_block :: nat \<comment> \<open>bytes allocated for tk_str\<close>

definition delimiterCount :: nat where
  "delimiterCount = 3"

definition delimiters :: string where
  "delimiters = [CHR '' '', CHR ''&'', CHR ''|'', CHR 0x0A]"

definition is_delimiter :: "char \<Rightarrow> bool" where
  \<comment> \<open>the loop over the first \<^verbatim>\<open>delimiterCount\<close> delimiters\<close>
  "is_delimiter c \<longleftrightarrow> c \<in> set (take delimiterCount delimiters)"

definition mk_token :: "string \<Rightarrow> token" where
  "mk_token s = \<lparr>tk_str = s, tk_length = length s, tk_block = length s\<rparr>"

definition addToQueue :: "string \<Rightarrow> token list \<Rightarrow> token list" where
  "addToQueue ss tokens = (if length ss > 0 then tokens @ [mk_token ss] else tokens)"

fun tokenize_loop :: "bool \<Rightarrow> string \<Rightarrow> token list \<Rightarrow> string \<Rightarrow> token list" where
  "tokenize_loop inString ss tokens [] = addToQueue ss tokens"
| "tokenize_loop inString ss tokens (c # cs) =
     (if inString then
        (if c = CHR 0x22 then tokenize_loop False [] (addToQueue ss tokens) cs
         else tokenize_loop True (ss @ [c]) tokens cs)
      else if c = CHR ''$'' then tokenize_loop False ss tokens cs
      else if c = CHR 0x22 then tokenize_loop True [] (addToQueue ss tokens) cs
      else if is_delimiter c then
        (if c \<noteq> CHR '' '' \<and> c \<noteq> CHR 0x0A
         then tokenize_loop False [] (addToQueue [c] (addToQueue ss tokens)) cs
         else tokenize_loop False [] (addToQueue ss tokens) cs)
      else tokenize_loop False (ss @ [c]) tokens cs)"

definition tokenize :: "string \<Rightarrow> token list" where
  "tokenize input = tokenize_loop False [] [] input"

section \<open>Job strings\<close>

definition jobSplitters :: string where
  "jobSplitters = ''&''"

definition is_splitter :: "token \<Rightarrow> bool" where
  "is_splitter t \<longleftrightarrow> tk_length t = 1 \<and> hd (tk_str t) \<in> set jobSplitters"

fun handle_tokens :: "(string \<Rightarrow> string) \<Rightarrow> string \<Rightarrow> string list \<Rightarrow> token list \<Rightarrow> string list" where
  "handle_tokens stale ss jobs [] = (if length ss > 0 then jobs @ [stale ss] else jobs)"
| "handle_tokens stale ss jobs (t # ts) =
     (if is_splitter t then handle_tokens stale [] (jobs @ [stale ss]) ts
      else handle_tokens stale (ss @ tk_str t @ '' '') jobs ts)"

definition handleCommand :: "(string \<Rightarrow> string) \<Rightarrow> token list \<Rightarrow> string list" where
  "handleCommand stale tokens = handle_tokens stale [] [] tokens"

section \<open>Jobs\<close>

record job =
  jobName :: string
  job_args :: "string list"
  stdoutStream :: "nat option"

definition Job_new :: "string option \<Rightarrow> fault + job" where
  \<comment> \<open>\<^verbatim>\<open>strlen(name)\<close> of a NULL name\<close>
  "Job_new name = (case name of
     None \<Rightarrow> Inl NullDeref
   | Some n \<Rightarrow> Inr \<lparr>jobName = n, job_args = [], stdoutStream = None\<rparr>)"

definition addArg :: "string \<Rightarrow> job \<Rightarrow> job" where
  "addArg arg j = j\<lparr>job_args := job_args j @ [arg]\<rparr>"

definition job_delims :: string where
  "job_delims = [CHR '' '', CHR 0x0A]"

function job_loop :: "job \<Rightarrow> string \<Rightarrow> job" where
  \<comment> \<open>\<^verbatim>\<open>while((arg = strtok(NULL, " \n")) != NULL)\<close>, with what strtok is left at\<close>
  "job_loop j save =
     (case strtok_r save job_delims of
        (None, _) \<Rightarrow> j
      | (Some arg, rest) \<Rightarrow> job_loop (addArg arg j) rest)"
  by pat_completeness auto

termination job_loop
  by (relation "measure (\<lambda>(j, save). length save)") (auto dest!: strtok_r_Some [OF sym])

declare job_loop.simps [simp del]

definition jobFromString :: "string \<Rightarrow> fault + job" where
  "jobFromString str =
     (case strtok_r str job_delims of (exeName, rest) \<Rightarrow>
        and_then (Job_new exeName) (\<lambda>j. Inr (job_loop j rest)))"

section \<open>The loop of the shell\<close>

text \<open>What \<^verbatim>\<open>dshell.cpp\<close> asks of the system: a process to start, a line, a line to print.\<close>

record 'w dsh_os =
  ds_popen :: "string \<Rightarrow> 'w \<Rightarrow> nat option \<times> 'w" \<comment> \<open>with mode "we"\<close>
  ds_getline :: "nat \<Rightarrow> 'w \<Rightarrow> string option \<times> 'w" \<comment> \<open>None at the end or on error\<close>
  ds_print :: "string \<Rightarrow> 'w \<Rightarrow> 'w"

definition startProcess :: "'w dsh_os \<Rightarrow> job \<Rightarrow> 'w \<Rightarrow> job \<times> 'w" where
  "startProcess D j w = (case ds_popen D (jobName j) w of (st, w') \<Rightarrow> (j\<lparr>stdoutStream := st\<rparr>, w'))"

definition getOutputStream :: "job \<Rightarrow> nat option" where
  "getOutputStream j = stdoutStream j"

text \<open>
  The loop that reads the output of a job puts each line into the buffer \<^verbatim>\<open>input\<close> and
  prints \<^verbatim>\<open>output\<close>, the argument \<open>out\<close>, which nothing assigns: a conversion \<^verbatim>\<open>%s\<close> of the null
  pointer is undefined, as in \<open>vformat\<close>.
\<close>

definition print_output :: "'w dsh_os \<Rightarrow> string option \<Rightarrow> 'w \<Rightarrow> fault + 'w" where
  "print_output D out w =
     (case out of None \<Rightarrow> Inl NullDeref | Some t \<Rightarrow> Inr (ds_print D (t @ [CHR 0x0A]) w))"

partial_function (option) output_loop :: "'w dsh_os \<Rightarrow> nat \<Rightarrow> string option \<Rightarrow> 'w \<Rightarrow> (fault + 'w) option" where
  "output_loop D st out w =
     (case fst (ds_getline D st w) of
        None \<Rightarrow> Some (Inr (snd (ds_getline D st w)))
      | Some line \<Rightarrow>
          (case print_output D out (snd (ds_getline D st w)) of
             Inl e \<Rightarrow> Some (Inl e)
           | Inr w1 \<Rightarrow> output_loop D st out w1))"

fun run_jobs :: "'w dsh_os \<Rightarrow> string list \<Rightarrow> 'w \<Rightarrow> (fault + 'w) option" where
  "run_jobs D [] w = Some (Inr w)"
| "run_jobs D (s # jobs) w =
     (case jobFromString s of
        Inl e \<Rightarrow> Some (Inl e)
      | Inr j \<Rightarrow>
          (case startProcess D j w of (j', w1) \<Rightarrow>
             case getOutputStream j' of
               None \<Rightarrow> Some (Inl NullDeref)
             | Some st \<Rightarrow>
                 (case output_loop D st None w1 of
                    None \<Rightarrow> None
                  | Some (Inl e) \<Rightarrow> Some (Inl e)
                  | Some (Inr w2) \<Rightarrow> run_jobs D jobs w2)))"

definition dshell_line :: "'w dsh_os \<Rightarrow> (string \<Rightarrow> string) \<Rightarrow> string \<Rightarrow> 'w \<Rightarrow> (fault + 'w) option" where
  "dshell_line D stale input w = run_jobs D (handleCommand stale (tokenize input)) w"

fun dshell_main :: "'w dsh_os \<Rightarrow> (string \<Rightarrow> string) \<Rightarrow> string list \<Rightarrow> 'w \<Rightarrow> (fault + 'w) option" where
  \<comment> \<open>on the lines standard input has\<close>
  "dshell_main D stale [] w = Some (Inr w)"
| "dshell_main D stale (l # ls) w =
     (case dshell_line D stale l w of
        Some (Inr w') \<Rightarrow> dshell_main D stale ls w'
      | r \<Rightarrow> r)"

end
