(* ===== verification/DshellFacts.thy ===== *)
theory DshellFacts
  imports Dshell
begin

text \<open>
  What the shell makes of a line: which characters end up in tokens, that words come back
  as they were typed, how tokens become job strings, and the job a line starts.
\<close>

section \<open>Tokens\<close>

text \<open>The characters the tokens hold, in order: a specification by one pass over the line.\<close>

fun surviving :: "bool \<Rightarrow> string \<Rightarrow> string" where
  "surviving q [] = []"
| "surviving q (c # cs) =
     (if c = CHR 0x22 then surviving (\<not> q) cs
      else if q then c # surviving True cs
      else if c = CHR '' '' \<or> c = CHR ''$'' then surviving False cs
      else c # surviving False cs)"

definition token_text :: "token list \<Rightarrow> string" where
  "token_text ts = concat (map tk_str ts)"

lemma token_text_add: "token_text (addToQueue ss ts) = token_text ts @ ss"
  by (simp add: token_text_def addToQueue_def mk_token_def)

lemma is_delimiter_iff: "is_delimiter c \<longleftrightarrow> c = CHR '' '' \<or> c = CHR ''&'' \<or> c = CHR ''|''"
  by (auto simp: is_delimiter_def delimiterCount_def delimiters_def)

lemma tokenize_loop_text: "token_text (tokenize_loop q ss ts cs) = token_text ts @ ss @ surviving q cs"
  by (induction q ss ts cs rule: tokenize_loop.induct) (auto simp: token_text_add is_delimiter_iff)

lemma tokenize_text: "token_text (tokenize s) = surviving False s"
  by (simp add: tokenize_def tokenize_loop_text) (simp add: token_text_def)

text \<open>A token is not empty, its length is that of its text, and its block has no byte for the NUL.\<close>

definition token_ok :: "token \<Rightarrow> bool" where
  "token_ok t \<longleftrightarrow> tk_str t \<noteq> [] \<and> tk_length t = length (tk_str t) \<and> tk_block t = length (tk_str t)"

lemma addToQueue_all:
  "(\<forall>t \<in> set (addToQueue ss ts). P t) \<longleftrightarrow> (\<forall>t \<in> set ts. P t) \<and> (ss \<noteq> [] \<longrightarrow> P (mk_token ss))"
  by (auto simp: addToQueue_def)

lemma token_ok_mk: "ss \<noteq> [] \<Longrightarrow> token_ok (mk_token ss)"
  by (simp add: token_ok_def mk_token_def cstr_size_def)

lemma tokenize_loop_ok: "\<forall>t \<in> set ts. token_ok t \<Longrightarrow> \<forall>t \<in> set (tokenize_loop q ss ts cs). token_ok t"
proof (induction cs arbitrary: q ss ts)
  case Nil
  then show ?case by (simp add: addToQueue_all token_ok_mk)
next
  case (Cons c cs)
  have q1: "\<forall>t \<in> set (addToQueue s ts). token_ok t" for s
    using Cons.prems by (simp add: addToQueue_all token_ok_mk)
  then have q2: "\<forall>t \<in> set (addToQueue s' (addToQueue s ts)). token_ok t" for s s'
    by (simp add: addToQueue_all [of s'] token_ok_mk)
  show ?case
    using Cons.IH [OF Cons.prems] Cons.IH [OF q1] Cons.IH [OF q2]
    by (simp only: tokenize_loop.simps split: if_split) blast
qed

lemma tokenize_ok: "\<forall>t \<in> set (tokenize s). token_ok t"
  unfolding tokenize_def by (rule tokenize_loop_ok) simp

text \<open>Outside quotes a token is an operator of one character, or has no space and no operator.\<close>

definition plain :: "string \<Rightarrow> bool" where
  "plain s \<longleftrightarrow> (\<forall>c \<in> set s. \<not> is_delimiter c \<and> c \<noteq> CHR 0x22 \<and> c \<noteq> CHR ''$'')"

definition operator :: "string \<Rightarrow> bool" where
  "operator s \<longleftrightarrow> s = ''&'' \<or> s = ''|''"

lemma tokenize_loop_plain:
  "CHR 0x22 \<notin> set cs \<Longrightarrow> plain ss \<Longrightarrow> \<forall>t \<in> set ts. plain (tk_str t) \<or> operator (tk_str t) \<Longrightarrow>
   \<forall>t \<in> set (tokenize_loop False ss ts cs). plain (tk_str t) \<or> operator (tk_str t)"
proof (induction cs arbitrary: ss ts)
  case Nil
  then show ?case by (simp add: addToQueue_all mk_token_def)
next
  case (Cons c cs)
  have q: "\<forall>t \<in> set (addToQueue ss ts). plain (tk_str t) \<or> operator (tk_str t)"
    using Cons.prems(2,3) by (simp add: addToQueue_all mk_token_def)
  have nil: "plain []" by (simp add: plain_def)
  have c: "c \<noteq> CHR 0x22" "CHR 0x22 \<notin> set cs" using Cons.prems(1) by auto
  show ?case
  proof (cases "is_delimiter c")
    case True
    show ?thesis
    proof (cases "c = CHR '' ''")
      case True
      with Cons.IH [OF c(2) nil q] show ?thesis by (simp add: is_delimiter_iff)
    next
      case False
      with True have op: "operator [c]" "c \<noteq> CHR 0x0A" "c \<noteq> CHR ''$''"
        by (auto simp: operator_def is_delimiter_iff)
      have "\<forall>t \<in> set (addToQueue [c] (addToQueue ss ts)). plain (tk_str t) \<or> operator (tk_str t)"
        using q op(1) by (simp add: addToQueue_all [of "[c]"] mk_token_def)
      from Cons.IH [OF c(2) nil this] True False op c show ?thesis by simp
    qed
  next
    case False
    show ?thesis
    proof (cases "c = CHR ''$''")
      case True
      with Cons.IH [OF c(2) Cons.prems(2,3)] show ?thesis by simp
    next
      case neq: False
      have "plain (ss @ [c])" using Cons.prems(2) False neq c(1) by (simp add: plain_def)
      from Cons.IH [OF c(2) this Cons.prems(3)] False neq c(1) show ?thesis by simp
    qed
  qed
qed

lemma tokenize_exact:
  "\<forall>t \<in> set (tokenize s). tk_str t \<noteq> [] \<and> tk_length t = length (tk_str t) \<and> tk_block t = length (tk_str t)"
  using tokenize_ok [of s] by (simp add: token_ok_def)

lemma tokenize_plain:
  "CHR 0x22 \<notin> set s \<Longrightarrow> t \<in> set (tokenize s) \<Longrightarrow> plain (tk_str t) \<or> operator (tk_str t)"
  unfolding tokenize_def using tokenize_loop_plain [of s "[]" "[]"] by (simp add: plain_def)

text \<open>Words separated by single spaces are the tokens, newline included.\<close>

fun unwords :: "string list \<Rightarrow> string" where
  "unwords [] = []"
| "unwords [w] = w"
| "unwords (w # ws) = w @ '' '' @ unwords ws"

lemma tokenize_loop_append:
  "plain v \<Longrightarrow> tokenize_loop False ss ts (v @ cs) = tokenize_loop False (ss @ v) ts cs"
proof (induction v arbitrary: ss)
  case Nil
  show ?case by simp
next
  case (Cons c v)
  from Cons.prems have "plain v" "\<not> is_delimiter c" "c \<noteq> CHR 0x22" "c \<noteq> CHR ''$''" by (simp_all add: plain_def)
  with Cons.IH [of "ss @ [c]"] show ?case by simp
qed

lemma tokenize_loop_words:
  "\<forall>v \<in> set vs. plain v \<and> v \<noteq> [] \<Longrightarrow> tokenize_loop False [] ts (unwords vs) = ts @ map mk_token vs"
proof (induction vs arbitrary: ts rule: unwords.induct)
  case 1
  show ?case by (simp add: addToQueue_def)
next
  case (2 w)
  then have "plain w" "w \<noteq> []" by simp_all
  then show ?case using tokenize_loop_append [of w "[]" ts "[]"] by (simp add: addToQueue_def)
next
  case (3 w v vs)
  then have w: "plain w" "w \<noteq> []" by simp_all
  have "tokenize_loop False [] ts (unwords (w # v # vs)) =
      tokenize_loop False w ts (CHR '' '' # unwords (v # vs))"
    using tokenize_loop_append [OF w(1), of "[]" ts "CHR '' '' # unwords (v # vs)"] by simp
  also have "\<dots> = tokenize_loop False [] (ts @ [mk_token w]) (unwords (v # vs))"
    using w(2) by (simp add: is_delimiter_iff addToQueue_def)
  also have "\<dots> = ts @ map mk_token (w # v # vs)" using 3 by simp
  finally show ?case .
qed

lemma tokenize_words: "\<forall>v \<in> set vs. plain v \<and> v \<noteq> [] \<Longrightarrow> tokenize (unwords vs) = map mk_token vs"
  unfolding tokenize_def by (subst tokenize_loop_words) simp_all

section \<open>Job strings\<close>

text \<open>The specification: the tokens cut at the splitters, each part with its tokens spaced.\<close>

fun segments :: "token list \<Rightarrow> token list list" where
  "segments [] = [[]]"
| "segments (t # ts) =
     (if is_splitter t then [] # segments ts
      else (t # hd (segments ts)) # tl (segments ts))"

definition spaced :: "token list \<Rightarrow> string" where
  "spaced ts = concat (map (\<lambda>t. tk_str t @ '' '') ts)"

lemma segments_not_Nil [simp]: "segments ts \<noteq> []"
  by (cases ts) auto

definition last_job :: "string list \<Rightarrow> string list" where
  \<comment> \<open>a last part without a token gives no job\<close>
  "last_job js = (if last js = [] then butlast js else js)"

lemma handle_tokens_segments:
  "handle_tokens stale ss jobs ts =
     jobs @ map stale (last_job ((ss @ spaced (hd (segments ts))) # map spaced (tl (segments ts))))"
proof (induction ts arbitrary: ss jobs)
  case Nil
  then show ?case by (simp add: last_job_def spaced_def)
next
  case (Cons t ts)
  show ?case
  proof (cases "is_splitter t")
    case True
    have "last_job (ss # x # xs) = ss # last_job (x # xs)" for x xs by (simp add: last_job_def)
    moreover obtain x xs where "segments ts = x # xs" by (cases "segments ts") auto
    ultimately show ?thesis using True Cons.IH [of "[]"] by (simp add: spaced_def)
  next
    case False
    then show ?thesis using Cons.IH [of "ss @ tk_str t @ '' ''"] by (simp add: spaced_def)
  qed
qed

lemma handleCommand_segments:
  "handleCommand stale ts = map stale (last_job (map spaced (segments ts)))"
proof -
  obtain x xs where "segments ts = x # xs" by (cases "segments ts") auto
  then show ?thesis by (simp add: handleCommand_def handle_tokens_segments)
qed

section \<open>Jobs\<close>

definition word :: "string \<Rightarrow> bool" where
  "word s \<longleftrightarrow> s \<noteq> [] \<and> CHR '' '' \<notin> set s \<and> CHR 0x0A \<notin> set s"

lemma takeWhile_word:
  assumes "word v" "c \<in> set job_delims"
  shows "takeWhile (\<lambda>c. c \<notin> set job_delims) (v @ c # s) = v"
    "dropWhile (\<lambda>c. c \<notin> set job_delims) (v @ c # s) = c # s"
    "dropWhile (\<lambda>c. c \<in> set job_delims) (v @ c # s) = v @ c # s"
proof -
  have v: "\<forall>x \<in> set v. x \<notin> set job_delims" "v \<noteq> []" using assms(1) by (auto simp: word_def job_delims_def)
  with assms(2) show "takeWhile (\<lambda>c. c \<notin> set job_delims) (v @ c # s) = v"
    "dropWhile (\<lambda>c. c \<notin> set job_delims) (v @ c # s) = c # s"
    by (simp_all add: takeWhile_append dropWhile_append)
  from v show "dropWhile (\<lambda>c. c \<in> set job_delims) (v @ c # s) = v @ c # s" by (cases v) simp_all
qed

lemma strtok_word:
  "word v \<Longrightarrow> c \<in> set job_delims \<Longrightarrow> strtok_r (v @ c # s) job_delims = (Some v, s)"
  by (simp add: strtok_r_def takeWhile_word Let_def)

lemma strtok_skip: "c \<in> set d \<Longrightarrow> strtok_r (c # s) d = strtok_r s d"
  by (simp add: strtok_r_def)

definition spaced_words :: "string list \<Rightarrow> string" where
  "spaced_words vs = concat (map (\<lambda>v. v @ '' '') vs)"

lemma job_loop_word:
  "word v \<Longrightarrow> c \<in> set job_delims \<Longrightarrow> job_loop j (v @ c # s) = job_loop (addArg v j) s"
  by (subst job_loop.simps) (simp add: strtok_word)

lemma job_loop_blank: "set s \<subseteq> set job_delims \<Longrightarrow> job_loop j s = j"
  by (subst job_loop.simps) (auto simp: strtok_r_def Let_def dropWhile_eq_Nil_conv)

lemma job_loop_words:
  "\<forall>v \<in> set vs. word v \<Longrightarrow>
   job_loop j (spaced_words vs @ s) = job_loop (j\<lparr>job_args := job_args j @ vs\<rparr>) s"
proof (induction vs arbitrary: j)
  case Nil
  then show ?case by (simp add: spaced_words_def)
next
  case (Cons v vs)
  then have "job_loop j (spaced_words (v # vs) @ s) = job_loop (addArg v j) (spaced_words vs @ s)"
    using job_loop_word [of v "CHR '' ''" j "spaced_words vs @ s"] by (simp add: spaced_words_def job_delims_def)
  with Cons show ?case by (simp add: addArg_def)
qed

text \<open>The words of a line, the last of them still with its newline.\<close>

lemma jobFromString_line:
  assumes "\<forall>v \<in> set (us @ [l]). word v"
  shows "jobFromString (spaced_words us @ l @ [CHR 0x0A] @ '' '') =
    Inr \<lparr>jobName = hd (us @ [l]), job_args = tl (us @ [l]), stdoutStream = None\<rparr>"
proof (cases us)
  case Nil
  with assms have "strtok_r (l @ CHR 0x0A # '' '') job_delims = (Some l, '' '')"
    by (intro strtok_word) (simp_all add: job_delims_def)
  with Nil show ?thesis by (simp add: jobFromString_def spaced_words_def Job_new_def job_loop_blank job_delims_def)
next
  case (Cons v vs)
  let ?rest = "spaced_words vs @ l @ [CHR 0x0A] @ '' ''"
  have "strtok_r (v @ CHR '' '' # ?rest) job_delims = (Some v, ?rest)"
    using assms Cons by (intro strtok_word) (simp_all add: job_delims_def)
  moreover have "job_loop j ?rest = j\<lparr>job_args := job_args j @ vs @ [l]\<rparr>" for j
    using assms Cons job_loop_words [of vs j "l @ [CHR 0x0A] @ '' ''"]
      job_loop_word [of l "CHR 0x0A" "j\<lparr>job_args := job_args j @ vs\<rparr>" "'' ''"]
    by (simp add: job_delims_def job_loop_blank addArg_def)
  ultimately show ?thesis using Cons by (simp add: jobFromString_def spaced_words_def Job_new_def)
qed

section \<open>A line\<close>

lemma unwords_snoc: "unwords us @ (if us = [] then [] else '' '') @ l = unwords (us @ [l])"
  by (induction us rule: unwords.induct) simp_all

lemma unwords_last: "unwords (us @ [l]) @ s = unwords (us @ [l @ s])"
  by (simp flip: unwords_snoc)

lemma plain_not_splitter: "plain v \<Longrightarrow> v \<noteq> [] \<Longrightarrow> \<not> is_splitter (mk_token v)"
  by (cases v) (auto simp: plain_def is_splitter_def mk_token_def jobSplitters_def is_delimiter_iff)

lemma handle_plain:
  "\<forall>v \<in> set vs. plain v \<and> v \<noteq> [] \<Longrightarrow>
   handle_tokens stale ss jobs (map mk_token vs) =
     (if ss @ spaced_words vs = [] then jobs else jobs @ [stale (ss @ spaced_words vs)])"
proof (induction vs arbitrary: ss)
  case Nil
  show ?case by (simp add: spaced_words_def)
next
  case (Cons v vs)
  then have "\<not> is_splitter (mk_token v)" by (intro plain_not_splitter) simp_all
  with Cons.IH [of "ss @ v @ '' ''"] Cons.prems show ?case
    by (simp add: mk_token_def spaced_words_def)
qed

lemma plain_newline: "plain v \<Longrightarrow> plain (v @ [CHR 0x0A])"
  by (simp add: plain_def is_delimiter_iff)

text \<open>
  A line of words gives one job: the first word with the others as arguments, provided that
  the dangling pointer still finds the text.
\<close>

lemma line_job:
  assumes "\<forall>v \<in> set (us @ [l]). plain v \<and> word v"
  shows "handleCommand stale (tokenize (unwords (us @ [l]) @ [CHR 0x0A])) =
      [stale (spaced_words us @ l @ [CHR 0x0A] @ '' '')] \<and>
    jobFromString (spaced_words us @ l @ [CHR 0x0A] @ '' '') =
      Inr \<lparr>jobName = hd (us @ [l]), job_args = tl (us @ [l]), stdoutStream = None\<rparr>"
proof -
  have pl: "\<forall>v \<in> set (us @ [l @ [CHR 0x0A]]). plain v \<and> v \<noteq> []"
    using assms plain_newline by (auto simp: word_def)
  have "tokenize (unwords (us @ [l]) @ [CHR 0x0A]) = map mk_token (us @ [l @ [CHR 0x0A]])"
    using tokenize_words [OF pl] by (simp only: unwords_last)
  moreover have "spaced_words (us @ [l @ [CHR 0x0A]]) = spaced_words us @ l @ [CHR 0x0A] @ '' ''"
    by (simp add: spaced_words_def)
  ultimately have "handleCommand stale (tokenize (unwords (us @ [l]) @ [CHR 0x0A])) =
      [stale (spaced_words us @ l @ [CHR 0x0A] @ '' '')]"
    using handle_plain [OF pl, of stale "[]" "[]"] by (simp add: handleCommand_def)
  moreover have "\<forall>v \<in> set (us @ [l]). word v" using assms by blast
  ultimately show ?thesis using jobFromString_line by blast
qed

text \<open>
  What is started is the first word alone, and the first line it puts out is the end: the null
  pointer is printed.
\<close>

lemma output_first:
  "output_loop D st None w =
     (case ds_getline D st w of (None, w1) \<Rightarrow> Some (Inr w1) | (Some line, w1) \<Rightarrow> Some (Inl NullDeref))"
  by (subst output_loop.simps) (simp add: print_output_def case_prod_unfold split: option.split)

lemma spaced_unwords: "spaced_words us @ l = unwords (us @ [l])"
  by (induction us rule: unwords.induct) (simp_all add: spaced_words_def)

lemma line_popen:
  assumes "\<forall>v \<in> set (us @ [l]). plain v \<and> word v" "txt = unwords (us @ [l]) @ [CHR 0x0A, CHR '' '']"
  shows "dshell_line D stale (unwords (us @ [l]) @ [CHR 0x0A]) w = run_jobs D [stale txt] w \<and>
    run_jobs D [txt] w =
      (case ds_popen D (hd (us @ [l])) w of
         (None, w1) \<Rightarrow> Some (Inl NullDeref)
       | (Some st, w1) \<Rightarrow>
           (case ds_getline D st w1 of (None, w2) \<Rightarrow> Some (Inr w2) | (Some line, w2) \<Rightarrow> Some (Inl NullDeref)))"
proof -
  have t: "spaced_words us @ l @ [CHR 0x0A] @ '' '' = txt"
    by (simp add: assms(2) flip: spaced_unwords)
  show ?thesis
    using line_job [OF assms(1), of stale, unfolded t] output_first [of D]
    by (simp add: dshell_line_def startProcess_def getOutputStream_def split: option.splits prod.splits)
qed

text \<open>A job string with no word in it is the one that faults.\<close>

lemma jobFromString_fault:
  "jobFromString s = Inl e \<longleftrightarrow> e = NullDeref \<and> set s \<subseteq> set job_delims"
proof -
  have "fst (strtok_r s job_delims) = None \<longleftrightarrow> set s \<subseteq> set job_delims"
    by (auto simp: strtok_r_def Let_def dropWhile_eq_Nil_conv)
  then show ?thesis
    by (auto simp: jobFromString_def Job_new_def and_then_eq_Inl split: prod.splits option.splits)
qed

end
