(* ===== verification/Log.thy ===== *)
theory Log
  imports CString Posix
begin

text \<open>
  \<^verbatim>\<open>src/server/log.cpp\<close>: the log file of the server. A line is a time stamp, the program,
  the level and the message; \<open>vformat\<close> is vfprintf for the two conversions the server
  uses. The stamp is made by \<^verbatim>\<open>strftime\<close> with \<^verbatim>\<open>%G\<close>, the year of the ISO 8601 week, which
  is the year of that week's Thursday, beside the month and day of the calendar. No other
  component reads the log, so their models leave the calls out.
\<close>

section \<open>Levels\<close>

datatype log_level =
  LogLevelCrit | LogLevelErr | LogLevelWarning | LogLevelNotice | LogLevelInfo | LogLevelDebug

fun level_value :: "log_level \<Rightarrow> nat" where
  "level_value LogLevelCrit = 0"
| "level_value LogLevelErr = 1"
| "level_value LogLevelWarning = 2"
| "level_value LogLevelNotice = 3"
| "level_value LogLevelInfo = 4"
| "level_value LogLevelDebug = 5"

definition logStr :: "string list" where
  "logStr = [''CRITICAL'', ''ERROR'', ''WARNING'', ''NOTICE'', ''INFO'', ''DEBUG'']"

text \<open>The order of the C enumeration.\<close>

lemma level_value_eq: "level_value a = level_value b \<longleftrightarrow> a = b"
  by (cases a; cases b) simp_all

instantiation log_level :: linorder
begin

definition less_eq_log_level :: "log_level \<Rightarrow> log_level \<Rightarrow> bool" where
  "less_eq_log_level a b \<longleftrightarrow> level_value a \<le> level_value b"

definition less_log_level :: "log_level \<Rightarrow> log_level \<Rightarrow> bool" where
  "less_log_level a b \<longleftrightarrow> level_value a < level_value b"

instance
  by standard (auto simp: less_eq_log_level_def less_log_level_def level_value_eq)

end

definition level_str :: "log_level \<Rightarrow> string" where
  "level_str l = logStr ! level_value l"

lemma level_bound: "level_value l < length logStr"
  by (cases l) (simp_all add: logStr_def)

lemma level_str_inj: "level_str a = level_str b \<longleftrightarrow> a = b"
proof -
  have "distinct logStr" by (simp add: logStr_def)
  then show ?thesis by (simp add: level_str_def nth_eq_iff_index_eq level_bound level_value_eq)
qed

lemma level_le_critical: "LogLevelCrit \<le> (l :: log_level)" "l \<le> LogLevelDebug"
  by (cases l; simp add: less_eq_log_level_def)+

section \<open>The time stamp\<close>

record tm =
  tm_sec :: int
  tm_min :: int
  tm_hour :: int
  tm_mday :: int
  tm_mon :: int
  tm_year :: int \<comment> \<open>since 1900\<close>
  tm_wday :: int \<comment> \<open>since Sunday\<close>
  tm_yday :: int

definition is_leap :: "int \<Rightarrow> bool" where
  "is_leap y \<longleftrightarrow> y mod 4 = 0 \<and> (y mod 100 \<noteq> 0 \<or> y mod 400 = 0)"

definition thursday :: "tm \<Rightarrow> int" where
  \<comment> \<open>the day of the year of the Thursday of this week\<close>
  "thursday t = tm_yday t - (tm_wday t + 6) mod 7 + 3"

definition iso_year :: "tm \<Rightarrow> int" where
  "iso_year t =
     (let y = tm_year t + 1900
      in if thursday t < 0 then y - 1
         else if thursday t \<ge> (if is_leap y then 366 else 365) then y + 1
         else y)"

definition padded :: "nat \<Rightarrow> int \<Rightarrow> string" where
  "padded k i =
     (let d = decimal (nat \<bar>i\<bar>)
      in (if i < 0 then ''-'' else []) @ replicate (k - length d) (CHR ''0'') @ d)"

definition timestamp :: "tm \<Rightarrow> string" where
  \<comment> \<open>\<^verbatim>\<open>strftime(.., "%G-%m-%d %H:%M:%S", ..)\<close>\<close>
  "timestamp t =
     padded 4 (iso_year t) @ ''-'' @ padded 2 (tm_mon t + 1) @ ''-'' @ padded 2 (tm_mday t) @ '' '' @
     padded 2 (tm_hour t) @ '':'' @ padded 2 (tm_min t) @ '':'' @ padded 2 (tm_sec t)"

definition tm_ok :: "tm \<Rightarrow> bool" where
  \<comment> \<open>what localtime(3) documents of its result\<close>
  "tm_ok t \<longleftrightarrow> 0 \<le> tm_sec t \<and> tm_sec t \<le> 60 \<and> 0 \<le> tm_min t \<and> tm_min t \<le> 59 \<and>
     0 \<le> tm_hour t \<and> tm_hour t \<le> 23 \<and> 1 \<le> tm_mday t \<and> tm_mday t \<le> 31 \<and>
     0 \<le> tm_mon t \<and> tm_mon t \<le> 11 \<and> 0 \<le> tm_wday t \<and> tm_wday t \<le> 6 \<and>
     0 \<le> tm_yday t \<and> tm_yday t \<le> 365 \<and> -(2 ^ 31) \<le> tm_year t \<and> tm_year t < 2 ^ 31"

lemma length_padded_pos: "0 \<le> i \<Longrightarrow> i < 10 ^ k \<Longrightarrow> 0 < k \<Longrightarrow> length (padded k i) = k"
  using length_decimal [of "nat \<bar>i\<bar>" k] by (simp add: padded_def Let_def nat_less_iff)

lemma length_padded_mono: "\<bar>i\<bar> < 10 ^ k \<Longrightarrow> 0 < k \<Longrightarrow> j \<le> k \<Longrightarrow> length (padded j i) \<le> k + 1"
  using length_decimal [of "nat \<bar>i\<bar>" k] by (auto simp: padded_def Let_def nat_less_iff abs_if)

lemma iso_year_near: "iso_year t - (tm_year t + 1900) \<in> {-1, 0, 1}"
  by (simp add: iso_year_def Let_def)

lemma iso_year_middle:
  assumes "tm_ok t" "3 \<le> tm_yday t" "tm_yday t < 362"
  shows "iso_year t = tm_year t + 1900"
proof -
  have "0 \<le> (tm_wday t + 6) mod 7" "(tm_wday t + 6) mod 7 \<le> 6" by simp_all
  with assms have "0 \<le> thursday t" "thursday t < 365" by (simp_all add: thursday_def)
  then show ?thesis by (simp add: iso_year_def Let_def)
qed

lemma timestamp_length:
  assumes "tm_ok t"
  shows "length (timestamp t) \<le> 26"
proof -
  have two: "length (padded 2 i) = 2" if "0 \<le> i" "i \<le> 60" for i
    using that by (intro length_padded_pos) simp_all
  have "\<bar>iso_year t\<bar> < 10 ^ 10"
    using assms iso_year_near [of t] by (auto simp: tm_ok_def abs_if)
  then have "length (padded 4 (iso_year t)) \<le> 10 + 1" by (rule length_padded_mono) simp_all
  with assms show ?thesis by (simp add: timestamp_def two tm_ok_def)
qed

section \<open>Writing a line\<close>

datatype log_arg = ArgS "string option" | ArgU nat

fun vformat :: "string \<Rightarrow> log_arg list \<Rightarrow> fault + string" where
  "vformat [] args = Inr []"
| "vformat (c # cs) args =
     (if c \<noteq> CHR ''%'' then and_then (vformat cs args) (\<lambda>t. Inr (c # t))
      else case cs of
        [] \<Rightarrow> Inl UninitRead
      | d # ds \<Rightarrow>
          (case args of
             [] \<Rightarrow> Inl UninitRead
           | ArgS s # rest \<Rightarrow>
               if d \<noteq> CHR ''s'' then Inl UninitRead
               else (case s of
                   None \<Rightarrow> Inl NullDeref
                 | Some x \<Rightarrow> and_then (vformat ds rest) (\<lambda>t. Inr (x @ t)))
           | ArgU n # rest \<Rightarrow>
               if d \<noteq> CHR ''u'' then Inl UninitRead
               else and_then (vformat ds rest) (\<lambda>t. Inr (decimal n @ t))))"

record 'w log_os =
  lo_fopen :: "'w \<Rightarrow> bool \<times> 'w" \<comment> \<open>"./distlog" for appending\<close>
  lo_localtime :: "'w \<Rightarrow> tm option"
  lo_append :: "string \<Rightarrow> 'w \<Rightarrow> 'w" \<comment> \<open>what is printed up to fclose\<close>

definition vlog ::
    "'w log_os \<Rightarrow> log_level \<Rightarrow> string \<Rightarrow> log_arg list \<Rightarrow> 'w \<Rightarrow> fault + 'w" where
  "vlog L level format args w =
     (case lo_fopen L w of (ok, w1) \<Rightarrow>
        if \<not> ok then Inr w1
        else case lo_localtime L w1 of
          None \<Rightarrow> Inl NullDeref
        | Some timeInfo \<Rightarrow>
            (let str = timestamp timeInfo
             in if length str + 1 > 128 then Inl OutOfBounds
                else and_then (vformat format args) (\<lambda>msg.
                  Inr (lo_append L (str @ '' DistServer '' @ logStr ! level_value level @ '' - '' @ msg) w1))))"

definition log_message ::
    "'w log_os \<Rightarrow> log_level \<Rightarrow> string \<Rightarrow> log_arg list \<Rightarrow> 'w \<Rightarrow> fault + 'w" where
  "log_message L level format args w = vlog L level format args w"

lemma vformat_plain: "CHR ''%'' \<notin> set s \<Longrightarrow> vformat s args = Inr s"
  by (induction s) auto

lemma vlog_appends:
  assumes "lo_fopen L w = (True, w1)" "lo_localtime L w1 = Some t" "tm_ok t" "vformat fmt args = Inr m"
  shows "vlog L level fmt args w =
    Inr (lo_append L (timestamp t @ '' DistServer '' @ level_str level @ '' - '' @ m) w1)"
  using assms timestamp_length [OF assms(3)] by (simp add: vlog_def Let_def level_str_def)

end
