(* ===== verification/Replies.thy ===== *)
theory Replies
  imports SysResults UserLib
begin

text \<open>
  The types of system calls. The server writes its answer through a pointer it takes from the
  argument list, and which type it points to is known to both sides by the number of the call
  only. \<open>reply_typed\<close> is the type and the range of the answer to each call, as the
  library reads it.
\<close>

definition s32 :: "int \<Rightarrow> bool" where
  "s32 i \<longleftrightarrow> - (2 ^ 31) \<le> i \<and> i < 2 ^ 31"

fun reply_typed :: "sysreq \<Rightarrow> reply \<Rightarrow> bool" where
  "reply_typed (SysExit c) r = (r = Exits c)"
| "reply_typed (SysExec p a) r = (r = NoRet \<or> (\<exists>q. r = Enters q))"
| "reply_typed (SysAlloc p n) r = (\<exists>q. r = RetPtr q)"
| "reply_typed (SysRead f b n) r = (\<exists>i bs. r = RetData i bs \<and> s32 i)"
| "reply_typed (SysGetCwd b n) r =
     (r = Ret 0 \<or> (if b then \<exists>i bs. r = RetData i bs \<and> 0 \<le> i \<and> i < 2 ^ 32 \<and> length bs = n else r = NoRet))"
| "reply_typed (SysInvalid i) r = (r = NoRet)"
| "reply_typed (SysChDir p) r = (r = Ret 0 \<or> r = Ret (-1))"
| "reply_typed (SysClose f) r = (r = Ret 0 \<or> r = Ret (-1))"
| "reply_typed _ r = (\<exists>i. r = Ret i \<and> s32 i)"

lemma s32_simps [simp]: "s32 (c_int n)" "s32 (to_s32 i)" "s32 0" "s32 (-1)"
  using to_s32_bounds by (simp_all add: s32_def c_int_def)

lemma fd_install_s32: "fd_install K pid d s w = Inr ((Some i, s'), w') \<Longrightarrow> s32 i"
  by (auto simp: fd_install_def fdAdd_def Let_def split: prod.splits if_splits option.splits)

lemma fd_opened_s32:
  "fd_install K pid d s w = Inr ((r, s'), w') \<Longrightarrow> s32 (case r of None \<Rightarrow> -1 | Some i \<Rightarrow> i)"
  using fd_install_s32 by (cases r) auto

lemma device_s32:
  assumes "fdOpenFdFromDevice K pid n fl md s w = Inr ((i, s'), w')"
  shows "s32 i"
proof (cases "dev_open n (sv_devices s)")
  case (Inr x)
  obtain d ds where x: "x = (d, ds)" by (cases x)
  show ?thesis
  proof (cases d)
    case None
    with assms Inr x show ?thesis by (auto simp: fdOpenFdFromDevice_def)
  next
    case (Some y)
    with assms Inr x obtain r where
      "fd_install K pid (FdTypeDevice y) (s\<lparr>sv_devices := ds\<rparr>) w = Inr ((r, s'), w')"
      "i = (case r of None \<Rightarrow> -1 | Some x \<Rightarrow> x)"
      by (auto simp: fdOpenFdFromDevice_def and_then_eq_Inr)
    then show ?thesis by (auto dest: fd_opened_s32)
  qed
qed (use assms in \<open>simp add: fdOpenFdFromDevice_def\<close>)

lemma file_s32:
  assumes "fdOpenFdFromFile K pid p fl md s w = Inr ((i, s'), w')"
  shows "s32 i"
proof -
  from assms consider "i = -1"
    | q x w2 w3 where "fd_install K pid (FdTypeFd x) s w2 = Inr ((q, s'), w3)" "i = (case q of None \<Rightarrow> -1 | Some y \<Rightarrow> y)"
    by (auto simp: fdOpenFdFromFile_def fault_simps split: option.splits if_splits)
  then show ?thesis by cases (auto dest: fd_opened_s32)
qed

lemma open_s32: "fdOpenFdFromPath K pid p fl md s w = Inr ((i, s'), w') \<Longrightarrow> s32 i"
  by (auto simp: fdOpenFdFromPath_def split: if_splits dest: device_s32 file_s32)

lemma fork_s32: "processFork K pid s w = Inr ((i, s'), w') \<Longrightarrow> s32 i"
  by (drule processFork_result) auto

lemma exec_reply: "sysExec K pid p a s w = Inr ((r, s'), w') \<Longrightarrow> r = NoRet \<or> r = Exits 0 \<or> (\<exists>q. r = Enters q)"
  by (erule sysExec_result) auto

lemma to_u32_range: "0 \<le> to_u32 i \<and> to_u32 i < 2 ^ 32"
  using take_bit_int_less_exp [of 32 i] by (simp add: to_u32_def)

lemma syscall_typed:
  assumes "syscall K pid req s w = Inr ((r, s'), w')"
  shows "reply_typed req r"
proof -
  from assms have pid: "pid < length (sv_procs s)" by (auto simp: syscall_def split: if_splits)
  note call = assms [unfolded syscall_def Let_def]
  show ?thesis
  proof (cases req)
    case (SysExec p a)
    with call pid have e: "sysExec K pid p a s w = Inr ((r, s'), w')" by simp
    with exec_reply [OF e] sysExec_no_exit [OF e] SysExec show ?thesis by auto
  next
    case SysFork
    with call pid show ?thesis by (auto simp: fault_simps dest: fork_s32)
  next
    case (SysOpen p f m)
    with call pid show ?thesis by (auto simp: fault_simps dest: open_s32)
  next
    case (SysGetCwd b n)
    with call pid to_u32_range show ?thesis
      by (auto simp: getcwd_buf_def simp del: of_nat_add of_nat_Suc split: option.splits if_splits)
  qed (use call pid in \<open>auto simp: fault_simps syscallExit_def split: prod.splits if_splits\<close>)
qed

text \<open>
  The calls after which the library reads an answer of type int or a pointer. A caller the
  server does not find in its table gets no answer at all.
\<close>

fun int_call :: "sysreq \<Rightarrow> bool" where
  "int_call (SysExit c) = False"
| "int_call (SysExec p a) = False"
| "int_call (SysAlloc p n) = False"
| "int_call (SysInvalid i) = False"
| "int_call (SysGetCwd b n) = b"
| "int_call _ = True"

lemma typed_read:
  assumes "reply_typed req r"
  shows "int_call req \<Longrightarrow> \<exists>i. ret_int r = Inr i \<and> - (2 ^ 31) \<le> i \<and> i < 2 ^ 32"
    and "req = SysAlloc p n \<Longrightarrow> \<exists>q. ret_ptr r = Inr q"
  using assms by (cases req; auto simp: ret_int_def ret_ptr_def s32_def split: if_splits)+

lemma unknown_caller_unread:
  "callerPID s (px_getpid K w) = None \<Longrightarrow>
   sys_getpid K s w = Inl UninitRead \<and> sys_alloc K q n s w = Inl UninitRead"
  by (simp add: sys_getpid_def sys_alloc_def sys_call_def serverSysCall_def u_bind_def u_check_def
      ret_int_def ret_ptr_def)

end
