(* ===== verification/Rabbits.thy ===== *)
theory Rabbits
  imports SysRun
begin

text \<open>
  The program rabbits (\<^verbatim>\<open>src/programs/rabbits\<close>), which forks for ever, in the system of POSIX
  processes: a turn of its loop is a fork step, followed on both sides. Where memory and the
  dynamic linker do not fail and there are process ids left, \<open>n\<close> turns of all rabbits make \<open>2 ^ n\<close>
  of one, while the table of each copy of the server has grown by \<open>n\<close> only: the numbers of the
  processes collide.
\<close>

section \<open>Copies do not fail\<close>

definition loads :: "'w posix \<Rightarrow> bool" where
  "loads K \<longleftrightarrow> malloc_total K \<and> (\<forall>p w. fst (px_dlopen K p w) \<noteq> None) \<and> (\<forall>h n w. px_dlsym K h n w \<noteq> None)"

lemma loads_demo_os: "loads (demo_os f p)"
  by (simp add: loads_def malloc_total_demo_os) (simp add: demo_os_def)

lemma fork_load_total:
  assumes "loads K"
  shows "\<exists>c w'. fork_load K p nm pt cw c0 w = Inr (Some c, w')"
proof -
  obtain h v where d: "px_dlopen K pt w = (Some h, v)"
    using assms by (cases "px_dlopen K pt w") (auto simp: loads_def, metis fst_conv option.exhaust)
  obtain m st rs where "px_dlsym K h ''main'' v = Some m" "px_dlsym K h ''_start'' v = Some st"
    "px_dlsym K h ''_restart'' v = Some rs" using assms unfolding loads_def by (metis option.exhaust)
  with d show ?thesis by (simp add: fork_load_def Let_def case_prod_unfold)
qed

lemma forkCopy_total:
  assumes "proc_wf p" "pr_state p \<noteq> PrNone" "loads K"
  shows "\<exists>c w'. forkCopy K p w = Inr (Some c, w')"
proof -
  have m: "fst (px_malloc K n v)" "fst (mallocs K ns v)" for n ns v
    using assms(3) mallocs_total by (auto simp: loads_def malloc_total_def)
  from assms(1,2) obtain nm pt cw where "pr_name p = Some nm" "pr_path p = Some pt" "pr_cwd p = Some cw"
    by (auto simp: proc_wf_def)
  then have "\<exists>c w'. fork_strings K p c0 v = Inr (Some c, w')" for c0 v
    using fork_load_total [OF assms(3)] m by (simp add: fork_strings_def need_def case_prod_unfold)
  then show ?thesis using m by (simp add: forkCopy_def info_args_wf [OF assms(1)] Let_def case_prod_unfold)
qed

section \<open>A turn of the loop\<close>

inductive rabbit_step :: "'w posix \<Rightarrow> 'w system \<Rightarrow> 'w system \<Rightarrow> bool" for K where
  turn: "sy_nodes S p = Some s \<Longrightarrow> p \<noteq> sy_daemon S \<Longrightarrow> fresh_pid c S \<Longrightarrow> callerPID s p = Some pid \<Longrightarrow>
    rabbits_turn (as_fork p c K) () s (sy_world S) = Inr ((Back (Inl ()), sp), w1) \<Longrightarrow>
    processFork (as_fork c 0 K) pid s (sy_world S) = Inr ((0, sc), w2) \<Longrightarrow>
    rabbit_step K S (S\<lparr>sy_nodes := (sy_nodes S)(p \<mapsto> sp, c \<mapsto> sc), sy_world := w1\<rparr>)"

lemma rabbits_turn_fork:
  assumes "callerPID s (px_getpid K w) = Some pid"
  shows "rabbits_turn K () s w = Inr ((Back (Inl ()), s'), w') \<longleftrightarrow> (\<exists>n. processFork K pid s w = Inr ((n, s'), w'))"
proof -
  have pid: "pid < length (sv_procs s)" using callerPID_Some [OF assms] by simp
  show ?thesis
    by (cases "processFork K pid s w" rule: result_cases)
      (use assms pid in \<open>auto simp: rabbits_turn_def wrap_fork_def sys_fork_def sys_call_def serverSysCall_def
        syscall_def u_bind_def u_check_def u_return_def ret_int_def\<close>)
qed

lemma rabbit_step_system: "rabbit_step K S T \<Longrightarrow> sys_step K S T"
proof (induction rule: rabbit_step.induct)
  case (turn S p s c pid sp w1 sc w2)
  from turn(4,5) obtain n where "processFork (as_fork p c K) pid s (sy_world S) = Inr ((n, sp), w1)"
    using rabbits_turn_fork [of s "as_fork p c K" "sy_world S" pid sp w1] by auto
  from sys_step.fork [OF turn(1-4) this turn(6)] show ?case .
qed

lemma dom_more: "dom (\<lambda>p. if P p then Some (f p) else m p) = {p. P p} \<union> dom m"
  by auto

lemma reach_finite: "reach K fs ip port S \<Longrightarrow> finite (dom (sy_nodes S))"
proof (induction rule: reach.induct)
  case (step S T)
  from step(3) have "finite (dom (sy_nodes S)) \<Longrightarrow> finite (dom (sy_nodes T))"
    by (induction rule: sys_step.induct) (simp_all add: dom_more del: dom_if)
  with step show ?case by simp
next
  case (boot d c w sd w1 q si w2)
  show ?case by (rule finite_subset [of _ "{c, d}"]) (auto split: if_splits)
qed


section \<open>Many turns\<close>

definition rabbit :: "'w system \<Rightarrow> nat \<Rightarrow> int \<Rightarrow> bool" where
  \<comment> \<open>a program that knows itself in a copy with \<open>n\<close> processes\<close>
  "rabbit S n q \<longleftrightarrow> q \<noteq> sy_daemon S \<and>
     (\<exists>t i. sy_nodes S q = Some t \<and> callerPID t q = Some i \<and> i < n \<and> length (sv_procs t) = n)"

definition quiet_reach :: "'w posix \<Rightarrow> fsdirect \<Rightarrow> string option \<Rightarrow> int \<Rightarrow> 'w system \<Rightarrow> bool" where
  "quiet_reach K fs ip port S \<longleftrightarrow> reach K fs ip port S \<and> roomy S"

lemma fresh_exists:
  assumes "finite (dom (sy_nodes S))" "card (dom (sy_nodes S)) + length (sv_procs s) < 2 ^ 31 - 1"
  shows "\<exists>c. fresh_pid c S \<and> (\<forall>q \<in> set (sv_procs s). pr_posixPID q \<noteq> c)"
proof -
  let ?U = "dom (sy_nodes S) \<union> pr_posixPID ` set (sv_procs s)"
  have f: "finite ?U" using assms(1) by simp
  have "card ?U \<le> card (dom (sy_nodes S)) + card (pr_posixPID ` set (sv_procs s))" by (rule card_Un_le)
  also have "\<dots> \<le> card (dom (sy_nodes S)) + length (sv_procs s)"
    using card_image_le [of "set (sv_procs s)" pr_posixPID] card_length [of "sv_procs s"] by simp
  finally have "card ?U < card {0 <..< 2 ^ 31 :: int}" using assms(2) by simp
  then have "\<not> {0 <..< 2 ^ 31} \<subseteq> ?U" using card_mono [OF f] leD by blast
  then obtain c where "c \<in> {0 <..< 2 ^ 31}" "c \<notin> ?U" by blast
  then show ?thesis by (intro exI [of _ c]) (auto simp: fresh_pid_def is_pid_def)
qed

text \<open>One rabbit takes its turn.\<close>

lemma one_turn:
  assumes "quiet_reach K fs ip port S" "loads K" "rabbit S n q" "card (dom (sy_nodes S)) + n < 2 ^ 31 - 1"
  shows "\<exists>c T. rabbit_step K S T \<and> quiet_reach K fs ip port T \<and> sy_nodes S c = None \<and>
    card (dom (sy_nodes T)) = Suc (card (dom (sy_nodes S))) \<and>
    rabbit T (Suc n) q \<and> rabbit T (Suc n) c \<and> (\<forall>p m. p \<noteq> q \<longrightarrow> rabbit S m p \<longrightarrow> rabbit T m p)"
proof -
  from assms(1) have r: "reach K fs ip port S" "roomy S" by (simp_all add: quiet_reach_def)
  from assms(3) obtain t i where q: "q \<noteq> sy_daemon S" "sy_nodes S q = Some t" "callerPID t q = Some i"
    "length (sv_procs t) = n" by (auto simp: rabbit_def)
  from reach_ok [OF r(1)] q(2) have ok: "server_inv t" "0 < q" by (auto dest: system_okD)
  obtain c where c: "fresh_pid c S" "\<forall>x \<in> set (sv_procs t). pr_posixPID x \<noteq> c"
    using fresh_exists [OF reach_finite [OF r(1)], of t] assms(4) q(4) by blast
  have i: "i < n" "pr_state (sv_procs t ! i) = PrRunning"
    using callerPID_running [OF ok(1) q(3)] ok(2) q(4) by simp_all
  obtain x w1 where x: "forkCopy K (sv_procs t ! i) (sy_world S) = Inr (Some x, w1)"
    using forkCopy_total [OF server_invD(6) [OF ok(1)] _ assms(2), of i] i q(4) by fastforce
  let ?tp = "t\<lparr>sv_procs := sv_procs t @ [x]\<rparr>"
  let ?tc = "t\<lparr>sv_procs := sv_procs t @ [x\<lparr>pr_posixPID := c\<rparr>]\<rparr>"
  have cpos: "0 < c" "c \<noteq> q" using c(1) q(2) by (auto simp: fresh_pid_def is_pid_pos)
  have "processFork (as_fork q c K) i t (sy_world S) = Inr ((c_int n, ?tp), w1)"
    using x cpos(1) q(4) by (simp add: processFork_def Let_def)
  then have p: "rabbits_turn (as_fork q c K) () t (sy_world S) = Inr ((Back (Inl ()), ?tp), w1)"
    using rabbits_turn_fork [of t "as_fork q c K" "sy_world S" i ?tp w1] q(3) by auto
  have ch: "processFork (as_fork c 0 K) i t (sy_world S) = Inr ((0, ?tc), w1)"
    using x by (simp add: processFork_def Let_def upd_proc_def)
  let ?T = "S\<lparr>sy_nodes := (sy_nodes S)(q \<mapsto> ?tp, c \<mapsto> ?tc), sy_world := w1\<rparr>"
  have st: "rabbit_step K S ?T" by (rule rabbit_step.turn [OF q(2,1) c(1) q(3) p ch])
  from r q(2) have "quiet_reach K fs ip port ?T"
    using reach.step [OF r rabbit_step_system [OF st]] by (auto simp: quiet_reach_def roomy_def room_def)
  moreover have "callerPID ?tp q = Some i"
    using q(3) by (auto simp: callerPID_def Let_def slot_index_append split: if_splits)
  then have "rabbit ?T (Suc n) q" using q(1,4) cpos(2) i(1) by (simp add: rabbit_def)
  moreover have "callerPID ?tc c = Some n"
    using callerPID_snoc [of "sv_procs t" c, where s = t and x = x] c(2) q(4) by simp
  moreover have "c \<noteq> sy_daemon S" "sy_nodes S c = None"
    using reach_ok [OF r(1)] c(1) by (auto simp: system_ok_def fresh_pid_def)
  moreover from this have "rabbit ?T m p" if "p \<noteq> q" "rabbit S m p" for p m
    using that by (auto simp: rabbit_def)
  moreover have "card (dom (sy_nodes ?T)) = Suc (card (dom (sy_nodes S)))"
  proof -
    have "dom (sy_nodes ?T) = insert c (dom (sy_nodes S))" using q(2) by auto
    moreover have "c \<notin> dom (sy_nodes S)" using c(1) by (auto simp: fresh_pid_def)
    ultimately show ?thesis using reach_finite [OF r(1)] by simp
  qed
  ultimately show ?thesis using st q(4) by (intro exI [of _ c] exI [of _ ?T]) (simp add: rabbit_def)
qed

text \<open>Each rabbit of a set takes its turn.\<close>

lemma round:
  assumes "finite R" "quiet_reach K fs ip port S" "loads K" "\<forall>q \<in> R. rabbit S n q"
    "card (dom (sy_nodes S)) + card R + n < 2 ^ 31"
  shows "\<exists>T C. rtranclp (rabbit_step K) S T \<and> quiet_reach K fs ip port T \<and> finite C \<and> card C = card R \<and>
    C \<inter> dom (sy_nodes S) = {} \<and> dom (sy_nodes S) \<subseteq> dom (sy_nodes T) \<and> C \<subseteq> dom (sy_nodes T) \<and>
    card (dom (sy_nodes T)) = card (dom (sy_nodes S)) + card R \<and>
    (\<forall>q \<in> R \<union> C. rabbit T (Suc n) q) \<and> (\<forall>p m. p \<notin> R \<longrightarrow> rabbit S m p \<longrightarrow> rabbit T m p)"
  using assms(1,4,5)
proof (induction rule: finite_induct)
  case empty
  show ?case by (intro exI [of _ S] exI [of _ "{}"]) (use assms(2) in simp)
next
  case (insert q R)
  then obtain T C where T: "rtranclp (rabbit_step K) S T" "quiet_reach K fs ip port T" "finite C" "card C = card R"
    "C \<inter> dom (sy_nodes S) = {}" "dom (sy_nodes S) \<subseteq> dom (sy_nodes T)" "C \<subseteq> dom (sy_nodes T)"
    "\<forall>p \<in> R \<union> C. rabbit T (Suc n) p" "\<forall>p m. p \<notin> R \<longrightarrow> rabbit S m p \<longrightarrow> rabbit T m p"
    and size: "card (dom (sy_nodes T)) = card (dom (sy_nodes S)) + card R"
    by auto
  from T(9) insert.hyps(2) insert.prems(1) have "rabbit T n q" by blast
  moreover have "card (dom (sy_nodes T)) + n < 2 ^ 31 - 1" using size insert.prems(2) insert.hyps by simp
  ultimately obtain c T' where T':
    "rabbit_step K T T'" "quiet_reach K fs ip port T'" "sy_nodes T c = None" "rabbit T' (Suc n) q" "rabbit T' (Suc n) c"
    "\<forall>p m. p \<noteq> q \<longrightarrow> rabbit T m p \<longrightarrow> rabbit T' m p"
    and size': "card (dom (sy_nodes T')) = Suc (card (dom (sy_nodes T)))"
    using one_turn [OF T(2) assms(3)] by blast
  have d: "dom (sy_nodes T) \<subseteq> dom (sy_nodes T')" using T'(1) by (cases rule: rabbit_step.cases) auto
  have "q \<notin> C" "c \<noteq> q" using insert.prems(1) T(5,6) T'(3) by (auto simp: rabbit_def)
  have c: "c \<notin> C" "c \<notin> dom (sy_nodes S)" "c \<in> dom (sy_nodes T')"
    using T(6,7) T'(3,5) by (auto simp: rabbit_def)
  have "rabbit T' (Suc n) p" if "p \<in> insert q R \<union> insert c C" for p
    using that T(8) T'(4,5,6) \<open>q \<notin> C\<close> insert.hyps(2) by auto
  moreover have "rabbit T' m p" if "p \<notin> insert q R" "rabbit S m p" for p m
    using that T(9) T'(6) by blast
  moreover have "dom (sy_nodes S) \<subseteq> dom (sy_nodes T')" "insert c C \<subseteq> dom (sy_nodes T')" using T(6,7) c(3) d by auto
  moreover have "insert c C \<inter> dom (sy_nodes S) = {}" using T(5) c(2) by auto
  moreover have "rtranclp (rabbit_step K) S T'" using T(1) T'(1) by (rule rtranclp.rtrancl_into_rtrancl)
  moreover have "card (insert c C) = card (insert q R)" using T(3,4) c(1) insert.hyps by simp
  moreover have "card (dom (sy_nodes T')) = card (dom (sy_nodes S)) + card (insert q R)"
    using size size' insert.hyps by simp
  ultimately show ?case using T(3) T'(2) by (intro exI [of _ T'] exI [of _ "insert c C"]) simp
qed

lemma rabbits_double:
  assumes "quiet_reach K fs ip port S" "loads K" "rabbit S m p" "card (dom (sy_nodes S)) + 2 ^ n + m + n \<le> 2 ^ 31"
  shows "\<exists>T R. rtranclp (rabbit_step K) S T \<and> quiet_reach K fs ip port T \<and> p \<in> R \<and> finite R \<and> card R = 2 ^ n \<and>
    card (dom (sy_nodes T)) + 1 = card (dom (sy_nodes S)) + 2 ^ n \<and> (\<forall>q \<in> R. rabbit T (m + n) q)"
  using assms(4)
proof (induction n)
  case 0
  show ?case by (intro exI [of _ S] exI [of _ "{p}"]) (use assms in simp)
next
  case (Suc n)
  then obtain T R where T: "rtranclp (rabbit_step K) S T" "quiet_reach K fs ip port T" "p \<in> R" "finite R" "card R = 2 ^ n"
    "\<forall>q \<in> R. rabbit T (m + n) q" and size: "card (dom (sy_nodes T)) + 1 = card (dom (sy_nodes S)) + 2 ^ n"
    by auto
  have "card (dom (sy_nodes T)) + card R + (m + n) < 2 ^ 31" using size Suc.prems T(5) by simp
  from round [OF T(4,2) assms(2) T(6) this] obtain U C where U: "rtranclp (rabbit_step K) T U" "quiet_reach K fs ip port U"
    "finite C" "card C = card R" "C \<inter> dom (sy_nodes T) = {}" "\<forall>q \<in> R \<union> C. rabbit U (Suc (m + n)) q"
    and size': "card (dom (sy_nodes U)) = card (dom (sy_nodes T)) + card R" by blast
  have "R \<subseteq> dom (sy_nodes T)" using T(6) by (auto simp: rabbit_def)
  with U(5) have "R \<inter> C = {}" by blast
  with T(4,5) U(3,4) have "card (R \<union> C) = 2 ^ Suc n" by (simp add: card_Un_disjoint)
  moreover have "card (dom (sy_nodes U)) + 1 = card (dom (sy_nodes S)) + 2 ^ Suc n" using size size' T(5) by simp
  ultimately show ?case using T U
    by (intro exI [of _ U] exI [of _ "R \<union> C"]) (auto intro: rtranclp_trans)
qed

text \<open>More rabbits than numbers: two of them are the same process to the server.\<close>

lemma same_number:
  assumes "finite R" "m < card R" "\<forall>q \<in> R. rabbit T m q"
  shows "\<exists>q \<in> R. \<exists>q' \<in> R. q \<noteq> q' \<and>
    (\<exists>t t' i. sy_nodes T q = Some t \<and> callerPID t q = Some i \<and> sy_nodes T q' = Some t' \<and> callerPID t' q' = Some i)"
proof -
  let ?f = "\<lambda>q. the (callerPID (the (sy_nodes T q)) q)"
  have "?f ` R \<subseteq> {..<m}" using assms(3) by (fastforce simp: rabbit_def)
  then have "card (?f ` R) \<le> m" using card_mono [of "{..<m}" "?f ` R"] by simp
  with assms(2) have "\<not> inj_on ?f R" by (metis card_image not_less)
  then obtain q q' where q: "q \<in> R" "q' \<in> R" "q \<noteq> q'" "?f q = ?f q'" unfolding inj_on_def by blast
  from assms(3) q(1) obtain t i where t: "sy_nodes T q = Some t" "callerPID t q = Some i" by (auto simp: rabbit_def)
  from assms(3) q(2) obtain t' i' where t': "sy_nodes T q' = Some t'" "callerPID t' q' = Some i'"
    by (auto simp: rabbit_def)
  from t t' q(4) have "i' = i" by simp
  with q(1-3) t t' show ?thesis by blast
qed

end
