(* ===== verification/Terminal.thy ===== *)
theory Terminal
  imports Rabbits
begin

text \<open>
  A terminal, from the message of a client to the shell: what a poll does in which one client
  asks for one, in the daemon and in the child it forks.
\<close>

section \<open>Starting a terminal\<close>

lemma loadFileLocal_total:
  assumes "loads K" "pr_state p = PrNone" "strstrrev l ''/'' = Some i"
  shows "\<exists>q w'. loadFileLocal K l p w = Inr ((True, q), w')"
proof -
  obtain h v where d: "px_dlopen K l w = (Some h, v)"
    using assms(1) by (cases "px_dlopen K l w") (auto simp: loads_def, metis fst_conv option.exhaust)
  obtain m st rs where "px_dlsym K h ''main'' v = Some m" "px_dlsym K h ''_start'' v = Some st"
    "px_dlsym K h ''_restart'' v = Some rs" using assms(1) unfolding loads_def by (metis option.exhaust)
  moreover have "fst (px_malloc K n u)" for n u using assms(1) by (simp add: loads_def malloc_total_def)
  ultimately show ?thesis using d assms(2,3) by (simp add: loadFileLocal_def Let_def case_prod_unfold)
qed

lemma load_shell:
  assumes "loads K" "sv_filesystem s = Some \<lparr>containerPath = Some (r @ ''/'')\<rparr>"
  shows "\<exists>q w'. loadFileFS K (server_loc K s) (Some shell_path) Process_new w = Inr ((True, q), w') \<and>
    pr_name q = Some ''shell'' \<and> pr_state q = PrLoaded \<and> pr_start q \<noteq> None"
proof -
  let ?l = "r @ ''/'' @ shell_path"
  have m: "fst (px_malloc K n u)" for n u using assms(1) by (simp add: loads_def malloc_total_def)
  then obtain w1 where l: "server_loc K s shell_path w = Inr (Some ?l, w1)"
    by (auto simp: server_loc_def need_def assms(2) fileLocalPath_def case_prod_unfold)
  obtain i where i: "strstrrev ?l ''/'' = Some i"
    using strstrrev_char_None [of ?l "CHR ''/''"] by (cases "strstrrev ?l ''/''") auto
  obtain q v where ld: "loadFileLocal K ?l (Process_new\<lparr>pr_cwd := Some (dirname shell_path)\<rparr>)
      (snd (px_malloc K (cstr_size shell_path) w1)) = Inr ((True, q), v)"
    using loadFileLocal_total [OF assms(1) _ i] by (metis (no_types, lifting) Process_new_def process.select_convs process.simps)
  have a: "is_absolute shell_path" by (simp add: is_absolute_def shell_path_def)
  have f: "loadFileFS K (server_loc K s) (Some shell_path) Process_new w = Inr ((True, q), v)"
    using l ld m a by (simp add: loadFileFS_def Process_new_def case_prod_unfold)
  have "base_name shell_path = ''shell''" by (simp add: base_name_def shell_path_def) code_simp
  with mounted.loadFileFS_name [OF f [unfolded server_loc_mounted [OF assms(2)]]] loadFileFS_True [OF f] f
  show ?thesis by auto
qed


text \<open>The shell that runs the terminal on device \<open>nm\<close>, as its own POSIX process \<open>p\<close>.\<close>

definition terminal_shell :: "int \<Rightarrow> string \<Rightarrow> process \<Rightarrow> bool" where
  "terminal_shell p nm q \<longleftrightarrow> pr_name q = Some ''shell'' \<and> pr_argv q = Some [''shell'', dev_prefix @ nm] \<and>
     pr_state q = PrRunning \<and> pr_posixPID q = p"

definition tty_free :: "server \<Rightarrow> string \<Rightarrow> bool" where
  "tty_free s nm \<longleftrightarrow> tty_search 1023 0 (sv_devices s) = nm \<and> dev_abs (sv_devices s) nm = None"

definition can_boot_shell :: "server \<Rightarrow> bool" where
  \<comment> \<open>a mounted file system, and process numbers within an int\<close>
  "can_boot_shell s \<longleftrightarrow> (\<exists>r. sv_filesystem s = Some \<lparr>containerPath = Some (r @ ''/'')\<rparr>) \<and>
     0 < length (sv_procs s) \<and> length (sv_procs s) < 2 ^ 31 - 1"

lemma start_tty_runs:
  assumes "loads K" "server_inv s" "tty_free s nm" "can_boot_shell s" "\<And>w. px_fork K w = (r, w)" "0 \<le> r"
  shows "\<exists>ds q w'. start_tty K con s w =
      Inr ((if r = 0 then Entered q else Handled True, if r = 0 then con else con\<lparr>con_type := ConTTY\<rparr>,
        s\<lparr>sv_devices := ds, sv_procs := sv_procs s @ [q]\<rparr>), w') \<and>
    dev_abs ds = (dev_abs (sv_devices s))(nm \<mapsto> (DeviceSocket (Some (con_sock con)), 0)) \<and>
    (r = 0 \<longrightarrow> terminal_shell (px_getpid K w') nm q)"
proof -
  from assms(4) obtain root where fs: "sv_filesystem s = Some \<lparr>containerPath = Some (root @ ''/'')\<rparr>"
    and n: "0 < length (sv_procs s)" "length (sv_procs s) < 2 ^ 31 - 1" by (auto simp: can_boot_shell_def)
  have m: "fst (px_malloc K n u)" "fst (mallocs K ns u)" for n ns u
    using assms(1) mallocs_total by (auto simp: loads_def malloc_total_def)
  let ?d = "DeviceSocket (Some (con_sock con))"
  have nm: "tty_search 1023 0 (sv_devices s) = nm" "dev_abs (sv_devices s) nm = None"
    using assms(3) by (simp_all add: tty_free_def)
  obtain ok ds w1 where a: "dev_add K nm (Some ?d) (sv_devices s) w = ((ok, ds), w1)" by (metis surj_pair)
  have ok: "ok" using a nm(2) m
    by (auto simp: dev_add_def dev_exists_abs case_prod_unfold split: if_splits)
  note ds = dev_add_True [OF server_invD(4) [OF assms(2)] a [unfolded eqTrueI [OF ok]]]
  let ?s1 = "s\<lparr>sv_devices := ds\<rparr>"
  obtain sh w2 where sh: "loadFileFS K (server_loc K ?s1) (Some shell_path) Process_new w1 = Inr ((True, sh), w2)"
    "pr_name sh = Some ''shell''" "pr_state sh = PrLoaded" "pr_start sh \<noteq> None"
    using load_shell [OF assms(1), of ?s1 root w1] fs by auto
  have pid: "c_int (length (sv_procs s)) = int (length (sv_procs s))" using n(2) by (intro c_int_small) simp
  let ?s2 = "?s1\<lparr>sv_procs := sv_procs s @ [sh]\<rparr>"
  have add: "processAdd sh ?s1 = (int (length (sv_procs s)), ?s2)" using sh(3) pid by (simp add: processAdd_def)
  define w3 where "w3 = snd (mallocs K (map cstr_size [''shell'', dev_prefix @ nm])
    (snd (px_malloc K (8 * (length [dev_prefix @ nm] + 1)) w2)))"
  define q where "q = sh\<lparr>pr_state := PrRunning, pr_posixPID := px_getpid K w3, pr_argc := 2,
    pr_argv := Some [''shell'', dev_prefix @ nm], pr_syscall := True\<rparr>"
  have run: "processRun K (int (length (sv_procs s))) True [dev_prefix @ nm] ?s2 w2 =
      Inr (if r = 0 then RunEntered q else RunParent, w3)"
    using Suc_leI [OF n(1)] m sh(2-4) assms(5,6)
    by (auto simp: processRun_def vrun_def arun_def case_prod_unfold w3_def q_def)
  have "start_tty K con s w =
      Inr ((if r = 0 then Entered q else Handled True, if r = 0 then con else con\<lparr>con_type := ConTTY\<rparr>,
        ?s1\<lparr>sv_procs := sv_procs s @ [if r = 0 then q else sh]\<rparr>), w3)"
    using a ok sh(1) add run nm(1) n by (simp add: start_tty_def Let_def upd_proc_last)
  moreover have "terminal_shell (px_getpid K w3) nm q" using sh(2) by (simp add: terminal_shell_def q_def)
  ultimately show ?thesis using ds
    by (intro exI [of _ ds] exI [of _ "if r = 0 then q else sh"] exI [of _ w3]) auto
qed

section \<open>The poll\<close>

text \<open>The command \<^verbatim>\<open>type tty\<close>, as the client sends it.\<close>

definition asks_tty :: string where
  "asks_tty = ''type tty'' @ [CHR 0x0A]"

lemma asks_tty_text: "tcp_text asks_tty = ''type tty''"
  unfolding asks_tty_def by (rule tcp_text_line) (simp_all add: is_line_end_def)

lemma asks_tty_command: "con_type con = ConNone \<Longrightarrow> tcp_command K con ''type tty'' s w = start_tty K con s w"
  by (simp add: tcp_command_def strtok_r_def)

lemma tcpPoll_tty:
  assumes "loads K" "server_inv s" "tty_free s nm" "can_boot_shell s" "\<And>w. px_fork K w = (r, w)" "0 \<le> r"
    and "polls K s w ready w1" "sv_connections s = cs @ con # rest" "\<forall>x \<in> set cs \<union> set rest. quiet ready s x"
    and "con_fd s con fd" "fd \<in> set ready" "px_read K fd 1024 w1 = ((int (length asks_tty), asks_tty), w2)"
    and "con_type con = ConNone"
  shows "\<exists>ds q w'. tcpPoll K s w =
      Inr ((if r = 0 then Entered q else Handled True, s\<lparr>sv_devices := ds, sv_procs := sv_procs s @ [q],
        sv_connections := cs @ (if r = 0 then con else con\<lparr>con_type := ConTTY\<rparr>) # rest\<rparr>), w') \<and>
    dev_abs ds = (dev_abs (sv_devices s))(nm \<mapsto> (DeviceSocket (Some (con_sock con)), 0)) \<and>
    (r = 0 \<longrightarrow> terminal_shell (px_getpid K w') nm q)"
proof -
  have r: "tcpRead K con s w1 = start_tty K con s w2"
    using tcpRead_message [OF assms(10,12)] asks_tty_text asks_tty_command [OF assms(13)] by (simp add: asks_tty_def)
  obtain ds q w' where t: "start_tty K con s w2 =
      Inr ((if r = 0 then Entered q else Handled True, if r = 0 then con else con\<lparr>con_type := ConTTY\<rparr>,
        s\<lparr>sv_devices := ds, sv_procs := sv_procs s @ [q]\<rparr>), w')"
    and ds: "dev_abs ds = (dev_abs (sv_devices s))(nm \<mapsto> (DeviceSocket (Some (con_sock con)), 0))"
      "r = 0 \<longrightarrow> terminal_shell (px_getpid K w') nm q"
    using start_tty_runs [OF assms(1-6), of con w2] by blast
  let ?s = "s\<lparr>sv_devices := ds, sv_procs := sv_procs s @ [q]\<rparr>"
  have q: "\<forall>x \<in> set cs. quiet ready s x" "\<forall>x \<in> set rest. quiet ready ?s x"
    using assms(9) by (auto simp: quiet_def con_fd_def)
  have "tcpPoll K s w = tcp_conns K ready cs (con # rest) s w1"
    using tcpPoll_polls [OF assms(7)] tcp_conns_quiet [OF q(1), of K "[]" "con # rest" w1] assms(8)
    by (simp del: tcp_conns.simps)
  also have "\<dots> = Inr ((if r = 0 then Entered q else Handled True,
      ?s\<lparr>sv_connections := cs @ (if r = 0 then con else con\<lparr>con_type := ConTTY\<rparr>) # rest\<rparr>), w')"
    using tcp_conns_quiet [OF q(2), of K "cs @ [con\<lparr>con_type := ConTTY\<rparr>]" "[]" w'] t r
    unfolding tcp_conns_active [OF assms(10,11)] by simp
  finally show ?thesis using ds by auto
qed

section \<open>In the system\<close>

lemma as_forks_calls [simp]:
  "loads (as_forks p g K) = loads K" "polls (as_forks p g K) s w ready w1 = polls K s w ready w1"
  "px_read (as_forks p g K) = px_read K"
  by (simp_all add: as_forks_def loads_def malloc_total_def polls_def)

lemma terminal_step:
  assumes "loads K" "sy_nodes S (sy_daemon S) = Some s" "server_inv s" "tty_free s nm" "can_boot_shell s" "fresh_pid c S"
    and "polls K s (sy_world S) ready w1" "sv_connections s = cs @ con # rest" "\<forall>x \<in> set cs \<union> set rest. quiet ready s x"
    and "con_fd s con fd" "fd \<in> set ready" "px_read K fd 1024 w1 = ((int (length asks_tty), asks_tty), w2)"
    and "con_type con = ConNone"
  shows "\<exists>T sd sc q. sys_step K S T \<and> sy_nodes T = (sy_nodes S)(sy_daemon S \<mapsto> sd, c \<mapsto> sc) \<and>
    sv_connections sd = cs @ con\<lparr>con_type := ConTTY\<rparr> # rest \<and>
    sv_procs sc = sv_procs s @ [q] \<and> terminal_shell c nm q \<and>
    (\<forall>t \<in> {sd, sc}. dev_abs (sv_devices t) = (dev_abs (sv_devices s))(nm \<mapsto> (DeviceSocket (Some (con_sock con)), 0)))"
proof -
  from assms(6) have c: "0 < c" "c \<noteq> sy_daemon S" using assms(2) by (auto simp: fresh_pid_def is_pid_pos)
  let ?d = "as_forks (sy_daemon S) (\<lambda>w. c) K" and ?c = "as_forks c (in_child c (\<lambda>w. c)) K"
  have f: "px_fork ?c w = (0, w)" "px_fork ?d w = (c, w)" for w by (simp_all add: in_child_def)
  obtain dsd qd wd where d: "tcpPoll ?d s (sy_world S) = Inr ((Handled True, s\<lparr>sv_devices := dsd,
      sv_procs := sv_procs s @ [qd], sv_connections := cs @ con\<lparr>con_type := ConTTY\<rparr> # rest\<rparr>), wd)"
    "dev_abs dsd = (dev_abs (sv_devices s))(nm \<mapsto> (DeviceSocket (Some (con_sock con)), 0))"
    using tcpPoll_tty [of ?d s nm c "sy_world S" ready w1 cs con rest fd w2] assms c f(2) by auto
  obtain dsc qc wc where ch: "tcpPoll ?c s (sy_world S) = Inr ((Entered qc, s\<lparr>sv_devices := dsc,
      sv_procs := sv_procs s @ [qc], sv_connections := cs @ con # rest\<rparr>), wc)"
    "dev_abs dsc = (dev_abs (sv_devices s))(nm \<mapsto> (DeviceSocket (Some (con_sock con)), 0))" "terminal_shell c nm qc"
    using tcpPoll_tty [of ?c s nm 0 "sy_world S" ready w1 cs con rest fd w2] assms f(1) by auto
  let ?sc = "s\<lparr>sv_devices := dsc, sv_procs := sv_procs s @ [qc], sv_connections := cs @ con # rest\<rparr>"
  have "\<forall>x \<in> {c}. \<exists>q w2. tcpPoll (as_forks x (in_child x (\<lambda>w. c)) K) s (sy_world S) = Inr ((Entered q, ?sc), w2)"
    using ch(1) by auto
  note st = sys_step.poll [OF assms(2) _ _ _ d(1) this, simplified, OF assms(6)]
  show ?thesis
    by (intro exI conjI, rule st) (use c d(2) ch(2,3) in \<open>auto simp: fun_eq_iff\<close>)
qed

end
