(* ===== verification/Spec2Isabelle.thy ===== *)
theory Spec2Isabelle
  imports UserDemo DshellFacts Log Replies Terminal
begin

text \<open>
  A verification development for the DistServer platform: the server of \<^verbatim>\<open>src/server\<close>, which runs
  programs as forked processes and answers their system calls, the C library \<^verbatim>\<open>src/stdlib\<close> of these
  programs, the programs of \<^verbatim>\<open>src/programs\<close>, and the shell \<^verbatim>\<open>src/programs/dshell\<close>.

  \<^bold>\<open>The program.\<close> \<^verbatim>\<open>main.cpp\<close> becomes a daemon, mounts a directory as file system (\<^verbatim>\<open>FSDirect\<close>)
  and runs a \<^verbatim>\<open>Server\<close>. The server registers its devices, loads \<^verbatim>\<open>/sys/init\<close> as a shared library,
  forks it and polls its TCP clients, of which one may ask for a terminal (a new device and a
  forked shell) or for the server to stop. A program calls \<^verbatim>\<open>serverSysCall\<close> in its own POSIX
  process, on that process's copy of the server: the caller is found by its POSIX pid, and the call
  is done by \<^verbatim>\<open>Server::syscall\<close> on its descriptors, its working directory and its environment. The
  programs are linked against wrappers (\<^verbatim>\<open>sys.c\<close>, \<^verbatim>\<open>stdlib.c\<close>) that turn the functions of POSIX and
  of the C library into such calls; functions without a wrapper are the host's.

  \<^bold>\<open>The theories\<close>, each after those it builds on:
  \<^item> \<open>Prelude\<close>: faults and their sequencing, integer conversions, the search loop of all
    vectors (\<open>slot_index\<close>). \<open>Posix\<close>: the operating system, sqlite and the dynamic linker as a record
    of functions \<open>K\<close> over a world \<open>'w\<close>, with no assumption on their answers. \<open>CString\<close>: the string
    functions of the C library.
  \<^item> \<open>Util\<close> (\<^verbatim>\<open>util.cpp\<close>), \<open>LocalFs\<close> (\<^verbatim>\<open>fs.cpp\<close>, \<^verbatim>\<open>fsdirect.cpp\<close>; locale \<open>local_files\<close>),
    \<open>Sockets\<close> (\<^verbatim>\<open>net\<close>, \<^verbatim>\<open>connection.cpp\<close>), \<open>DeviceIO\<close> (\<^verbatim>\<open>devices\<close>; locale \<open>io_channel\<close>),
    \<open>DevTable\<close> (\<^verbatim>\<open>devices.cpp\<close>; locale \<open>name_table\<close>, a finite map from names to devices with
    reference counts, which the vector of the code refines), \<open>Slots\<close> (locale \<open>slot_table\<close>: a table
    whose insertion takes the lowest free slot; the descriptors of a process and the entries of the
    server are two instances), \<open>Log\<close> (\<^verbatim>\<open>log.cpp\<close>).
  \<^item> \<open>Proc\<close> (\<^verbatim>\<open>process.cpp\<close>): the state of a process, loading, running, copying for fork, and
    the invariant \<open>proc_wf\<close>.
  \<^item> \<open>ServerState\<close>, \<open>FdOps\<close>, \<open>Syscalls\<close>, \<open>TcpServer\<close>, \<open>ServerRun\<close>: \<^verbatim>\<open>class Server\<close> and
    \<^verbatim>\<open>main.cpp\<close>: the record \<open>server\<close>, the descriptor operations, the processes and system calls, the
    TCP side with boot and main loop, the command line.
  \<^item> \<open>FdInv\<close>, \<open>SysInv\<close>, \<open>TcpInv\<close>: every operation keeps \<open>server_inv\<close>. \<open>SysEffects\<close>: the
    faults of a call, and what it leaves alone. \<open>SysResults\<close>: the results of the calls. \<open>Kept\<close>: no call
    and no poll lowers the count of a device (\<open>copy_step\<close>: what can happen to one copy of the server), and a
    poll keeps the port and the database.
  \<^item> \<open>PosixSystem\<close>: the POSIX processes of the platform, each with its copy of the server, as
    the step relation \<open>sys_step\<close>: a program makes a call, ends, forks, or the daemon polls and starts
    terminals, each a new process. \<open>reach\<close> are the systems that follow a boot, \<open>system_ok\<close> holds in all of them.
  \<^item> \<open>Dshell\<close>, \<open>DshellFacts\<close>: the tokens, job strings and jobs of the shell.
  \<^item> \<open>UserLib\<close> (\<^verbatim>\<open>src/stdlib\<close>): the library as functions on a program's own copy of the server;
    \<open>u_bind\<close> sequences calls, of which some never come back (\<open>Gone\<close>), \<open>u_loop\<close> is a loop that need not
    end, and the record \<open>libc\<close> holds the functions of the host. \<open>UserFacts\<close>: getenv as a finite map,
    and the calls as seen through the library (\<open>calm\<close>: an allocator that does
    not fail and leaves a view of the world alone; \<open>yields\<close> is what a call gives when it comes back).
  \<^item> \<open>ShellPath\<close>, \<open>Shell\<close> (\<^verbatim>\<open>programs/shell/src/shell.c\<close>), \<open>Programs\<close> (\<^verbatim>\<open>stdio.c\<close> and the small
    programs), \<open>Factor\<close> (\<^verbatim>\<open>factor.c\<close> with its correctness). \<open>ShellPathFacts\<close>: the reduction of a path
    against the reference \<open>canonical\<close>. \<open>ShellFacts\<close>, \<open>ProgramFacts\<close>: what the commands and programs do
    (the exit code of init, the text of echo, the program execv enters, the loop of yes).
  \<^item> \<open>UserTrace\<close>: every library function and program is a sequence of system calls and changes
    of the world (\<open>follows\<close>, closed under sequencing and loops). \<open>UserKeeps\<close>: what such sequences keep
    of the server (locale \<open>own_process\<close>). \<open>SysRun\<close>: in a process of a reachable system they lead to
    reachable systems. \<open>ShellRun\<close>: a line \<^verbatim>\<open>cd x\<close> read by the shell in such a system.
  \<^item> \<open>Kernel\<close>: the abstract specification of the system calls, \<open>kernel_step\<close>, and that \<open>syscall\<close> refines it
    under the abstraction \<open>abs_kernel\<close>. \<open>KernelRun\<close>: so do the sequences of calls of a program.
    \<open>Replies\<close>: the type and range of the answer to each call. \<open>Rabbits\<close>: the program that forks, on
    both sides of its forks. \<open>Terminal\<close>: the poll that starts a terminal, in the daemon and in the child.
  \<^item> \<open>Demo\<close>, \<open>UserDemo\<close>: concrete servers, systems and operating systems, and a concrete library; the
    witnesses run on them.

  \<^bold>\<open>Conventions.\<close> A run that reaches undefined behaviour or a failed assert is \<open>Inl\<close> of a
  \<open>fault\<close>; results and the new state are \<open>Inr\<close>. \<^verbatim>\<open>NULL\<close> and fields not yet written are \<open>None\<close>. A
  pointer to a shared object is its index. malloc may fail wherever the code tests it; where the
  code uses \<^verbatim>\<open>new\<close> or a growing vector it is taken to succeed. \<open>fork\<close> returns a pid, and the model
  follows the side it selects: \<open>Entered\<close> and \<open>Enters\<close> are the forked or executed program, which
  never returns to the code. The functions a loaded program offers (\<^verbatim>\<open>start\<close>, \<^verbatim>\<open>restart\<close>) are numbers \<open>dlsym\<close>
  answered; entering the first ends the server's code, and the second, which \<^verbatim>\<open>forkCopy\<close> calls on the child's information, is
  a call of the operating system's record (\<open>px_restart\<close>). A connected socket is a descriptor; \<open>px_read\<close> yields the return value
  and the bytes stored.

  \<^bold>\<open>Bounds.\<close> The pids of the POSIX system are the positive numbers of 32 bits, and a fork gives one that no
  process has (\<open>fresh_pid\<close>); a system out of them has no such step. \<open>room\<close> asks that a server has fewer than \<open>2 ^ 31\<close> descriptor entries, so that
  an index fits \<^verbatim>\<open>int\<close>; beyond that \<^verbatim>\<open>ProcessPID\<close> and descriptors wrap. \<open>FD_SETSIZE\<close> is 1024 as in
  the C library. There is no fuel: loops are structural, have a measure (\<open>dev_destroy\<close>,
  \<open>strstrrev_loop\<close>, \<open>job_loop\<close>, \<open>shellPathReduce\<close>), or are partial functions whose value \<open>None\<close> is a
  run that does not end (\<open>main_loop\<close>, \<open>output_loop\<close>, \<open>u_loop\<close>, \<open>factor_loop\<close>). Sizes of the library are
  64-bit words, and its calls narrow them to 32 bits as the code does.

  \<^bold>\<open>The properties.\<close> C1 to C3: the invariant of the server, in one call and in all reachable
  systems. C4 to C17 but C7: what the system calls do, with fork, exec, exit and the devices; C15 is
  their refinement of a specification, C19 the types of their answers. C20: a string routine. C24 to
  C29: reading, clients and polling, with C25 the start of a terminal. C30 to C32: life cycle and log.
  C35 and C37 to C39: the shell dshell. C7, C18, C21 to C23, C33, C34, C36 and C40: the programs
  init, factor and rabbits and the shell of a terminal. Several state what the code does where a
  comment or the interface promises something else: C6 (the mode and flags of open are exchanged), C7
  (a relative path is not made absolute), C8 (closing a device leaves its count),
  C9 (a descriptor outside the table is undefined behaviour), C11 (the results of copying the directory and the
  environment are not looked at), C14 (reused pids), C16 (a failed fork
  frees twice), C20 (the empty needle), C23 (the display of a directory that is not below the home directory), C27 and C28
  (the poll loop skips a client, or runs past its list), C32, C36 (exported variables are not seen),
  C37, C39 (the arguments of a job are dropped, and the null pointer is printed) and C40 (process numbers are not unique).

  \<^bold>\<open>Not modelled.\<close> Calls to the log, signal, umask and usleep in the server; the messages printed
  by \<^verbatim>\<open>main.cpp\<close>; destructors that only free memory or are empty; the fields \<^verbatim>\<open>addr\<close>, \<^verbatim>\<open>addrLen\<close> and
  \<^verbatim>\<open>server\<close> of a socket; \<^verbatim>\<open>string.c\<close>, which does not compile. In \<open>PosixSystem\<close> file
  contents are the world's. The program of a process is any sequence of system calls there; \<open>SysRun\<close>
  ties the programs under \<^verbatim>\<open>src/programs\<close> to it, and \<open>Rabbits\<close> the one that forks, for
  a single turn at a time.
  The host's printf, setenv, sqrt and atoll are parameters.
\<close>

section \<open>The state of the server\<close>

text \<open>
  C1: a system call of any caller, whatever its arguments and whatever the operating system
  answers (with fewer than \<open>2 ^ 31\<close> descriptor entries, so that an index is an int), leaves the server well formed: entries at their index with reference count 1,
  every descriptor of a process naming an entry no other descriptor names, sockets and
  devices that exist, distinct device names, and processes that own what their state says.
\<close>

theorem syscall_invariant:
  assumes "server_inv s" "room s" "px_getpid K w \<noteq> -1"
    and "serverSysCall K req s w = Inr ((r, s'), w')"
  shows "server_inv s'"
  by (rule server_inv_serverSysCall [OF assms])

theorem syscall_invariant_witness:
  "serverSysCall (demo_os 0 7) (SysOpen (Some ''/dev/null'') 0 0) demo_server [] = Inr ((Ret 0, demo_open), []) \<and>
   server_inv demo_open"
proof -
  have c: "serverSysCall (demo_os 0 7) (SysOpen (Some ''/dev/null'') 0 0) demo_server [] = Inr ((Ret 0, demo_open), [])"
    by (simp add: serverSysCall_def demo_getpid demo_caller demo_open_call [simplified])
  from syscall_invariant [OF demo_server_inv demo_room _ c] c show ?thesis by (simp add: demo_getpid)
qed

text \<open>
  C2: in every system of POSIX processes that can be reached from a boot, every copy of the
  server is well formed, and a call a program makes is attributed to a running process of its
  copy that has the POSIX pid of the program, the first one with it. (That one is another program's where
  the operating system gave out a pid again, as C14 shows.)
\<close>

theorem reachable_nodes:
  assumes "reach K fs ip port S" "sy_nodes S p = Some s"
  shows "server_inv s \<and> (p \<noteq> sy_daemon S \<longrightarrow> (\<exists>i. callerPID s p = Some i \<and> i < length (sv_procs s) \<and>
    pr_posixPID (sv_procs s ! i) = p \<and> pr_state (sv_procs s ! i) = PrRunning \<and>
    (\<forall>j < i. pr_posixPID (sv_procs s ! j) \<noteq> p)))"
proof -
  from system_okD [OF reach_ok [OF assms(1)] assms(2)] have
    ok: "server_inv s" "0 < p" "p \<noteq> sy_daemon S \<longrightarrow> callerPID s p \<noteq> None" by simp_all
  then show ?thesis using callerPID_Some [of s p] callerPID_running [OF ok(1), of p] by auto
qed

theorem reachable_nodes_witness:
  "sy_nodes demo_system2 7 = Some demo_open \<and> server_inv demo_open \<and>
   (\<exists>i. callerPID demo_open 7 = Some i \<and> pr_posixPID (sv_procs demo_open ! i) = 7 \<and> pr_state (sv_procs demo_open ! i) = PrRunning)"
proof -
  have n: "sy_nodes demo_system2 7 = Some demo_open" "sy_daemon demo_system2 = 10"
    by (simp_all add: demo_system2_def demo_system_def)
  from reachable_nodes [OF demo_reach2 n(1)] n show ?thesis by auto
qed

text \<open>
  C3: in a reachable system a descriptor of the server is held by at most one slot of one
  process of a copy, and its entry is there with count 1: the question the code leaves
  open in \<^verbatim>\<open>Process::fdRemove\<close> (can it be in the list more than once?) is answered by no.
\<close>

theorem descriptors_unique:
  assumes "reach K fs ip port S" "sy_nodes S p = Some s" "fd_slot s a i = Some fd"
  shows "(\<exists>e. fdGet fd (sv_fdEntries s) = Some e \<and> fe_fd e = fd \<and> fe_refCount e = Some 1) \<and>
    (\<forall>b j. fd_slot s b j = Some fd \<longrightarrow> b = a \<and> j = i)"
proof -
  from reach_ok [OF assms(1)] assms(2) have inv: "server_inv s" by (simp add: system_ok_def)
  note sl = server_invD(2) [OF inv]
  from sl assms(3) obtain e where e: "fdGet fd (sv_fdEntries s) = Some e" unfolding slots_ok_def by blast
  from entries_ok_get [OF server_invD(1) [OF inv] e] e sl assms(3) show ?thesis
    unfolding slots_ok_def by metis
qed

theorem descriptors_unique_witness:
  "\<exists>e. fdGet 0 (sv_fdEntries demo_open) = Some e \<and> fe_refCount e = Some 1"
proof -
  have n: "sy_nodes demo_system2 7 = Some demo_open" by (simp add: demo_system2_def)
  from descriptors_unique [OF demo_reach2 n demo_open_slot] show ?thesis by blast
qed

text \<open>
  C4: a system call never changes another process of the table, nor what a descriptor of
  another process stands for.
\<close>

theorem syscall_isolation:
  assumes "server_inv s" "room s" "syscall K pid req s w = Inr ((r, s'), w')"
    and "q < length (sv_procs s)" "q \<noteq> pid"
  shows "sv_procs s' ! q = sv_procs s ! q \<and>
    (\<forall>i fd. fd_slot s q i = Some fd \<longrightarrow> fdGet fd (sv_fdEntries s') = fdGet fd (sv_fdEntries s))"
  using syscall_isolated [OF assms(1-3)] assms(4,5) by (simp add: isolated_def)

theorem syscall_isolation_witness:
  "\<exists>s'. syscall (demo_os 0 8) 2 (SysOpen (Some ''/dev/null'') 0 0) demo_two [] = Inr ((Ret 0, s'), []) \<and>
     sv_procs s' ! 1 = sv_procs demo_two ! 1 \<and> fdGet 0 (sv_fdEntries s') = fdGet 0 (sv_fdEntries demo_two)"
proof -
  obtain s' where c: "syscall (demo_os 0 8) 2 (SysOpen (Some ''/dev/null'') 0 0) demo_two [] = Inr ((Ret 0, s'), [])"
    by (simp add: demo_two_def demo_open_def demo_defs open_defs)
  have l: "1 < length (sv_procs demo_two)" "(1::nat) \<noteq> 2" "fd_slot demo_two 1 0 = Some 0"
    by (simp_all add: demo_two_def demo_open_def fd_slot_def vec_look_def)
  from syscall_isolation [OF demo_two_inv demo_two_room c l(1,2)] l(3) c show ?thesis by blast
qed

text \<open>
  C5: what a process opens, a device or a file, gets its lowest free descriptor, on the
  lowest free entry of the server, and no other descriptor of any process changes.
\<close>

theorem open_lowest:
  assumes "server_inv s" "room s" "syscall K pid (SysOpen (Some p) flags mode) s w = Inr ((Ret r, s'), w')"
    and "r \<noteq> -1"
  shows "\<exists>i k. r = int i \<and> fd_slot s pid i = None \<and> (\<forall>j < i. fd_slot s pid j \<noteq> None) \<and>
    fdGet (int k) (sv_fdEntries s) = None \<and> (\<forall>j < k. fdGet (int j) (sv_fdEntries s) \<noteq> None) \<and>
    fd_slot s' = (fd_slot s)(pid := (fd_slot s pid)(i \<mapsto> int k))"
proof -
  from assms(3) have pid: "pid < length (sv_procs s)" by (auto simp: syscall_def split: if_splits)
  from sysOpen_installed [OF assms] obtain ds d k i where
    r: "r = int i" and ins: "installed (s\<lparr>sv_devices := ds\<rparr>) pid d k i s'" by blast
  have same: "fd_slot (s\<lparr>sv_devices := ds\<rparr>) = fd_slot s" by (rule fd_slot_frame) simp
  note look = installed_look [OF ins, simplified, OF pid, unfolded same]
  have "fdGet (int k) (sv_fdEntries s) = None" "\<forall>j < k. fdGet (int j) (sv_fdEntries s) \<noteq> None"
    using look(1,7) by (simp_all add: fdGet_None_elook)
  with r look(3,4,8) show ?thesis by blast
qed

theorem open_lowest_witness: "fd_slot demo_open = (fd_slot demo_server)(1 := (fd_slot demo_server 1)(0 \<mapsto> 0))"
proof -
  from open_lowest [OF demo_server_inv demo_room demo_open_call] obtain i k where
    i: "0 = int i" and sl: "fd_slot demo_open = (fd_slot demo_server)(1 := (fd_slot demo_server 1)(i \<mapsto> int k))"
    by auto
  from demo_open_slot i have "int k = 0" unfolding sl by simp
  with i sl show ?thesis by simp
qed

text \<open>
  C6: the system call \<^verbatim>\<open>open(path, flags, mode)\<close> of a platform program reaches open(2) with
  the mode as its flags and the flags as its mode.
\<close>

theorem open_swaps_arguments:
  assumes "server_inv s" "room s" "pid < length (sv_procs s)" "\<not> strncmp_eq p dev_prefix 5"
    and "sv_filesystem s = Some fs" "fileLocalPath K fs p w = Inr (Some l, w1)"
    and "px_open K l mode flags w1 = (x, w2)" "malloc_total K"
  shows "if x = -1 then syscall K pid (SysOpen (Some p) flags mode) s w = Inr ((Ret (-1), s), w2)
    else \<exists>k i s' w'. syscall K pid (SysOpen (Some p) flags mode) s w = Inr ((Ret (int i), s'), w') \<and>
      installed s pid (FdTypeFd x) k i s'"
  by (rule sysOpen_file [OF assms])

theorem open_swaps_arguments_witness:
  "\<exists>k i s' w'. syscall (demo_os 0 7) 1 (SysOpen (Some ''/a'') 577 420) demo_server [] = Inr ((Ret (int i), s'), w') \<and>
     installed demo_server 1 (FdTypeFd 17) k i s' \<and>
     fst (px_open (demo_os 0 7) ''./container//a'' 420 577 []) = 17"
proof -
  have l: "fileLocalPath (demo_os 0 7) demo_fs ''/a'' [] = Inr (Some ''./container//a'', [])"
    by (simp add: fileLocalPath_def demo_fs_def demo_os_def)
  have o: "px_open (demo_os 0 7) ''./container//a'' 420 577 [] = (17, [CallOpen ''./container//a'' 420 577])"
    by (simp add: demo_os_def)
  from open_swaps_arguments [OF demo_server_inv demo_room _ _ _ l o malloc_total_demo_os, of 1] o
  show ?thesis by (simp add: demo_running strncmp_eq_def dev_prefix_def) (simp add: demo_server_def)
qed

text \<open>
  C8: closing a device just opened succeeds and gives back its descriptor and its entry, but
  the device stays in use for ever: its count is one higher than before, and after any calls and
  polls of that copy of the server, whatever the operating system answers, it is at least that and
  the device can not be removed. (Opening it gets that far where malloc does not fail and
  the count is not at the end of its range.)
\<close>

theorem device_close_keeps_count:
  assumes "server_inv s" "room s" "pid < length (sv_procs s)" "malloc_total K"
    and "dev_abs (sv_devices s) n = Some (d, c)" "c < 2 ^ 31 - 1"
  shows "\<exists>i s' w' s''. syscall K pid (SysOpen (Some (dev_prefix @ n)) flags mode) s w = Inr ((Ret (int i), s'), w') \<and>
    syscall K pid (SysClose (int i)) s' w' = Inr ((Ret 0, s''), w') \<and>
    fd_slot s'' = fd_slot s \<and> (\<forall>fd. fdGet fd (sv_fdEntries s'') = fdGet fd (sv_fdEntries s)) \<and>
    dev_abs (sv_devices s'') n = Some (d, c + 1) \<and>
    (\<forall>t v. rtranclp copy_step (s'', w') (t, v) \<longrightarrow>
       (\<exists>c' \<ge> c + 1. dev_abs (sv_devices t) n = Some (d, c')) \<and> dev_remove (Some n) (sv_devices t) = (False, sv_devices t))"
proof -
  obtain i s' w' s'' where
    o: "syscall K pid (SysOpen (Some (dev_prefix @ n)) flags mode) s w = Inr ((Ret (int i), s'), w')"
    and c: "syscall K pid (SysClose (int i)) s' w' = Inr ((Ret 0, s''), w')"
    and f: "fd_slot s'' = fd_slot s" "\<forall>fd. fdGet fd (sv_fdEntries s'') = fdGet fd (sv_fdEntries s)"
    and d: "dev_abs (sv_devices s'') = (dev_abs (sv_devices s))(n \<mapsto> (d, c + 1))"
    and i: "dev_inv (sv_devices s'')"
    using sysClose_device [OF assms] by blast
  have "0 \<le> c" by (rule dev_abs_nonneg [OF server_invD(4) [OF assms(1)] assms(5)])
  then have p: "dev_abs (sv_devices s'') n = Some (d, c + 1)" "0 < c + 1" using d by simp_all
  have "\<forall>t v. rtranclp copy_step (s'', w') (t, v) \<longrightarrow>
      (\<exists>c' \<ge> c + 1. dev_abs (sv_devices t) n = Some (d, c')) \<and> dev_remove (Some n) (sv_devices t) = (False, sv_devices t)"
    by (intro allI impI) (erule used_for_ever [OF _ i p])
  with o c f p(1) show ?thesis by (intro exI conjI)
qed

lemma demo_abs: "dev_abs (sv_devices demo_server) =
    [''full'' \<mapsto> (DeviceFull, 0), ''null'' \<mapsto> (DeviceNull, 0), ''zero'' \<mapsto> (DeviceZero, 0)]"
  by (simp add: demo_server_def demo_devices_def dev_abs_def fun_eq_iff)

theorem device_close_keeps_count_witness:
  "\<exists>i s' w' s''. syscall (demo_os 0 7) 1 (SysOpen (Some (dev_prefix @ ''null'')) 0 0) demo_server [] = Inr ((Ret (int i), s'), w') \<and>
    syscall (demo_os 0 7) 1 (SysClose (int i)) s' w' = Inr ((Ret 0, s''), w') \<and>
    dev_abs (sv_devices s'') ''null'' = Some (DeviceNull, 1) \<and>
    dev_remove (Some ''null'') (sv_devices s'') = (False, sv_devices s'')"
  using device_close_keeps_count [OF demo_server_inv demo_room, of 1 "demo_os 0 7" "''null''" DeviceNull 0 0 0 "[]"]
  by (auto simp: demo_running demo_abs)

text \<open>
  C9: reading, writing and closing a descriptor go outside the vector of the process
  exactly when the number the program passes does not index it; the server has no check,
  and with such a number it has no other fault.
\<close>

theorem descriptor_calls_fault:
  assumes "server_inv s" "pid < length (sv_procs s)"
    and "req = SysRead f b n \<or> req = SysWrite f d \<or> req = SysClose f"
  shows "syscall K pid req s w = Inl x \<longleftrightarrow>
    x = OutOfBounds \<and> \<not> (0 \<le> f \<and> nat f < length (pr_fds (sv_procs s ! pid)))"
  using assms(3)
  by (elim disjE) (auto simp: fd_ok_def sysRead_fault [OF assms(1,2)] sysWrite_fault [OF assms(1,2)]
      sysClose_fault [OF assms(1,2)])

theorem descriptor_calls_fault_witness:
  "syscall (demo_os 0 7) 1 (SysRead 1 True 8) demo_open [] = Inl OutOfBounds \<and>
   syscall (demo_os 0 7) 1 (SysRead 0 True 8) demo_open [] \<noteq> Inl OutOfBounds"
proof -
  have pid: "1 < length (sv_procs demo_open)" "length (pr_fds (sv_procs demo_open ! 1)) = 1"
    by (simp_all add: demo_open_def)
  from descriptor_calls_fault [OF demo_open_inv pid(1), of "SysRead 1 True 8" 1 True 8 "[]" "demo_os 0 7"]
    descriptor_calls_fault [OF demo_open_inv pid(1), of "SysRead 0 True 8" 0 True 8 "[]" "demo_os 0 7"]
  show ?thesis by (simp add: pid(2) [simplified])
qed

text \<open>
  C10: when no close fails, an exit releases exactly what the process held: none of its
  descriptors is left, the entries they named are free and all other entries are as before.
\<close>

theorem exit_releases:
  assumes "server_inv s" "pid < length (sv_procs s)" "closes_ok K" "live_sockets s"
  shows "\<exists>s' w'. syscall K pid (SysExit status) s w = Inr ((Exits status, s'), w') \<and>
    (\<forall>i. fd_slot s' pid i = None) \<and>
    (\<forall>fd. fdGet fd (sv_fdEntries s') =
       (if fd \<in> ran (fd_slot s pid) then None else fdGet fd (sv_fdEntries s)))"
proof -
  obtain s' w' where f: "processFree K pid s w = Inr (s', w')"
    by (cases "processFree K pid s w" rule: state_cases) (simp_all add: processFree_no_fault [OF assms(1,2)])
  then have "syscall K pid (SysExit status) s w = Inr ((Exits status, s'), w')"
    using assms(2) by (simp add: syscall_def syscallExit_def)
  with processFree_frees [OF assms(1,3,4,2) f] show ?thesis by blast
qed

theorem exit_releases_witness:
  "\<exists>s' w'. syscall (demo_os 0 7) 1 (SysExit 3) demo_open [] = Inr ((Exits 3, s'), w') \<and>
     fd_slot s' 1 0 = None \<and> fdGet 0 (sv_fdEntries s') = None"
proof -
  have h: "1 < length (sv_procs demo_open)" "closes_ok (demo_os 0 7)" "live_sockets demo_open"
    by (simp_all add: demo_open_def closes_ok_def demo_os_def live_sockets_def demo_server_def Server_new_def)
  have "0 \<in> ran (fd_slot demo_open 1)" using demo_open_slot by (rule ranI)
  with exit_releases [OF demo_open_inv h, of 3 "[]"] show ?thesis by metis
qed

text \<open>
  C11: a successful exec enters the new program as the same process, under the name of its
  file, with the arguments passed and no descriptor. It has the working directory and the environment of the old
  program where malloc does not fail; the code does not look at the results of copying them, so otherwise
  it may start in the directory of its file, or without an environment, and in no others.
\<close>

theorem exec_keeps_cwd_environ:
  assumes "server_inv s" "sv_filesystem s = Some \<lparr>containerPath = Some (c @ ''/'')\<rparr>"
    and "syscall K pid (SysExec (Some p) argv) s w = Inr ((Enters q, s'), w')"
  shows "pr_cwd q \<in> {pr_cwd (sv_procs s ! pid), Some (dirname p)} \<and> pr_environ q \<in> {pr_environ (sv_procs s ! pid), None} \<and>
    (malloc_total K \<longrightarrow> pr_cwd q = pr_cwd (sv_procs s ! pid) \<and> pr_environ q = pr_environ (sv_procs s ! pid)) \<and>
    pr_name q = Some (base_name p) \<and> pr_argv q = Some argv \<and> pr_argc q = int (length argv) \<and>
    pr_state q = PrRunning \<and> pr_posixPID q = px_getpid K w' \<and> pr_fds q = [] \<and> sv_procs s' ! pid = q"
  by (rule sysExec_enters [OF assms])

theorem exec_keeps_cwd_environ_witness:
  "\<exists>q s' w'. syscall (demo_os 0 7) 1 (SysExec (Some init_path) [''x'']) demo_open [] = Inr ((Enters q, s'), w') \<and>
     pr_name q = Some (base_name init_path) \<and> pr_cwd q = Some ''/sys'' \<and> pr_argv q = Some [''x''] \<and> pr_fds q = []"
proof -
  have fs: "sv_filesystem demo_open = Some demo_fs" by (simp add: demo_open_def demo_server_def)
  have K: "\<And>n w. px_malloc (demo_os 0 7) n w = (True, w)" "\<And>p w. fst (px_dlopen (demo_os 0 7) p w) = Some 1"
    "\<And>h s w. px_dlsym (demo_os 0 7) h s w = Some 2"
    by (simp_all add: demo_os_def)
  note ld = demo_loaded [OF K] server_loc_mounted [OF fs]
  obtain q s' w' where c: "syscall (demo_os 0 7) 1 (SysExec (Some init_path) [''x'']) demo_open [] = Inr ((Enters q, s'), w')"
    by (simp add: syscall_def sysExec_def ld demo_open_fields setEnviron_def setCwd_def processFree_def
        arun_def K Let_def fdClose_def fdGet_def close_data_def upd_proc_def Process_destroy_def demo_init_def)
  from exec_keeps_cwd_environ [OF demo_open_inv _ c] malloc_total_demo_os fs c show ?thesis
    by (simp add: demo_fs_def demo_open_def demo_init_def)
qed

text \<open>
  C12: after \<^verbatim>\<open>chdir(d)\<close> returned 0, getcwd with a buffer of \<open>n > 0\<close> bytes reports the size of
  \<open>d\<close> with its NUL and fills exactly the buffer with a terminated string: \<open>d\<close>, cut to
  \<open>n - 1\<close> characters.
\<close>

theorem chdir_getcwd:
  assumes "syscall K pid (SysChDir (Some d)) s w = Inr ((Ret 0, s'), w')" "0 < n" "NUL \<notin> set d"
  shows "\<exists>buf. syscall K pid (SysGetCwd True n) s' v = Inr ((RetData (to_u32 (int (length d + 1))) buf, s'), v) \<and>
    length buf = n \<and> c_str buf = take (n - 1) d"
  by (rule sysChDir_getcwd [OF assms])

theorem chdir_getcwd_witness:
  "\<exists>s' buf. syscall (demo_os 0 7) 1 (SysChDir (Some ''/home'')) demo_server [] = Inr ((Ret 0, s'), []) \<and>
     syscall (demo_os 0 7) 1 (SysGetCwd True 4) s' [] = Inr ((RetData (to_u32 6) buf, s'), []) \<and>
     length buf = 4 \<and> c_str buf = ''/ho''"
proof -
  obtain s' where c: "syscall (demo_os 0 7) 1 (SysChDir (Some ''/home'')) demo_server [] = Inr ((Ret 0, s'), [])"
    by (simp add: syscall_def setCwd_def demo_defs)
  from chdir_getcwd [OF c, of 4 "[]"] c show ?thesis by auto
qed

section \<open>Processes\<close>

text \<open>
  C13: both sides of a fork append one process at the same place: the parent is told its
  index, and in the child's copy a fresh POSIX pid finds it there, so that the reply to the
  parent is what getpid answers the child.
\<close>

theorem fork_reply_is_childs_pid:
  assumes "processFork (as_fork p c K) pid s w = Inr ((n, sp), w1)"
    and "processFork (as_fork c 0 K) pid s w = Inr ((0, sc), w2)" "0 < c" "callerPID s c = None"
  shows "length (sv_procs sp) = Suc (length (sv_procs s)) \<and> length (sv_procs sc) = Suc (length (sv_procs s)) \<and>
    serverSysCall (as_proc c K) SysGetPid sc v = Inr ((Ret n, sc), v)"
proof -
  from fork_sides [OF assms(1-3)] obtain x where n: "n = c_int (length (sv_procs s))"
    "sp = s\<lparr>sv_procs := sv_procs s @ [x]\<rparr>" "sc = s\<lparr>sv_procs := sv_procs s @ [x\<lparr>pr_posixPID := c\<rparr>]\<rparr>" by blast
  from fork_child_caller [OF assms(2)] assms(4) have "callerPID sc c = Some (length (sv_procs s))" by simp
  with n show ?thesis by (simp add: serverSysCall_def syscall_def)
qed

theorem fork_reply_is_childs_pid_witness:
  "serverSysCall (as_proc 9 (demo_os 0 7)) SysGetPid (demo_fork demo_server 9) [] =
     Inr ((Ret 2, demo_fork demo_server 9), [])"
  using fork_reply_is_childs_pid [OF demo_forks] by (simp add: callerPID_def demo_defs Let_def)

text \<open>
  C14: when the operating system gives a child the pid some process of its copy already has,
  the child's system calls are made in the name of that older process.
\<close>

theorem reused_pid_misattributed:
  assumes "processFork (as_fork c 0 K) pid s w = Inr ((0, sc), w2)" "callerPID s c = Some old"
  shows "old < length (sv_procs s) \<and> serverSysCall (as_proc c K) req sc v = syscall (as_proc c K) old req sc v \<and>
    serverSysCall (as_proc c K) SysGetPid sc v = Inr ((Ret (c_int old), sc), v)"
proof -
  from fork_child_caller [OF assms(1)] assms(2) have c: "callerPID sc c = Some old" by simp
  from callerPID_Some [OF assms(2)] callerPID_Some [OF c] have "old < length (sv_procs s)" "old < length (sv_procs sc)"
    by simp_all
  with c show ?thesis by (simp add: serverSysCall_def syscall_def)
qed

theorem reused_pid_misattributed_witness:
  "\<exists>sc w2. processFork (as_fork 9 0 (demo_os 0 7)) 1 (demo_fork demo_server 9) [] = Inr ((0, sc), w2) \<and>
     length (sv_procs sc) = 4 \<and>
     serverSysCall (as_proc 9 (demo_os 0 7)) SysGetPid sc [] = Inr ((Ret 2, sc), [])"
proof -
  obtain sc w2 where f: "processFork (as_fork 9 0 (demo_os 0 7)) 1 (demo_fork demo_server 9) [] = Inr ((0, sc), w2)"
    and l: "length (sv_procs sc) = 4"
    by (simp add: processFork_def demo_running(1) demo_forkCopy Let_def demo_fork_def upd_proc_def)
  have "callerPID (demo_fork demo_server 9) 9 = Some 2"
    by (simp add: callerPID_def demo_fork_def demo_defs Let_def)
  from reused_pid_misattributed [OF f this, of SysGetPid "[]"]
  have "serverSysCall (as_proc 9 (demo_os 0 7)) SysGetPid sc [] = Inr ((Ret (c_int 2), sc), [])" by blast
  moreover have "c_int 2 = 2" using c_int_small [of 2] by simp
  ultimately show ?thesis using f l by (metis (full_types))
qed

text \<open>
  C15: each system call does what the specification \<open>Kernel\<close> allows, and nothing else:
  seen as processes with files under small numbers, a working directory and a table of
  devices, the new state and the answer are those of a step for this call. With
  memory that does not run out and closing that does not fail, \<open>mem\<close> and \<open>cl\<close>, the
  specification rules out the failures they cause.
\<close>

theorem calls_refine:
  assumes "server_inv s" "room s" "callerPID s (px_getpid K w) = Some pid"
    and "serverSysCall K req s w = Inr ((r, s'), w')"
    and "mem \<longrightarrow> malloc_total K" "cl \<longrightarrow> closes_ok K \<and> live_sockets s"
  shows "kernel_step mem cl pid req (abs_kernel s) r (abs_kernel s')"
  using assms syscall_refines [OF assms(1,2) _ assms(5,6), of pid req w r s' w'] by (simp add: serverSysCall_def)

theorem calls_refine_witness:
  "kernel_step True False 1 (SysOpen (Some ''/dev/null'') 0 0) (abs_kernel demo_server) (Ret 0) (abs_kernel demo_open)"
proof -
  have c: "serverSysCall (demo_os 0 7) (SysOpen (Some ''/dev/null'') 0 0) demo_server [] = Inr ((Ret 0, demo_open), [])"
    by (simp add: serverSysCall_def demo_getpid demo_caller demo_open_call [simplified])
  have p: "callerPID demo_server (px_getpid (demo_os 0 7) []) = Some 1" by (simp add: demo_getpid demo_caller)
  from calls_refine [OF demo_server_inv demo_room p c, of True False] show ?thesis by (simp add: malloc_total_demo_os)
qed

text \<open>
  C16: a copy of a process for fork that got its first block either succeeds or frees the
  argument vector of the child twice; the second is what happens when the library of the
  program can not be loaded again.
\<close>

theorem fork_copy_outcomes:
  assumes "proc_wf p" "pr_state p \<noteq> PrNone" "fst (px_malloc K (8 * nat (pr_argc p)) w)"
  shows "((\<exists>c w'. forkCopy K p w = Inr (Some c, w')) \<or> forkCopy K p w = Inl DoubleFree) \<and>
    (\<forall>pt. pr_path p = Some pt \<longrightarrow> malloc_total K \<longrightarrow> (\<forall>v. fst (px_dlopen K pt v) = None) \<longrightarrow>
       forkCopy K p w = Inl DoubleFree)"
proof (intro conjI allI impI)
  show "(\<exists>c w'. forkCopy K p w = Inr (Some c, w')) \<or> forkCopy K p w = Inl DoubleFree"
  proof (cases "forkCopy K p w" rule: state_cases)
    case (fault e)
    with forkCopy_fault [OF fault assms(1,2)] show ?thesis by simp
  next
    case (ok r w')
    with forkCopy_cases [OF ok assms(1)] assms(3) show ?thesis by auto
  qed
  show "forkCopy K p w = Inl DoubleFree"
    if "pr_path p = Some pt" "malloc_total K" "\<forall>v. fst (px_dlopen K pt v) = None" for pt
    by (rule forkCopy_no_library [OF assms(1) that(1,2)]) (use that(3) in blast)
qed

theorem fork_copy_outcomes_witness:
  "forkCopy ((demo_os 0 7)\<lparr>px_dlopen := (\<lambda>p w. (None, w))\<rparr>) demo_init ([] :: os_call list) = Inl DoubleFree"
proof -
  let ?K = "(demo_os 0 7)\<lparr>px_dlopen := (\<lambda>p w. (None, w))\<rparr>"
  have "pr_state demo_init \<noteq> PrNone" "fst (px_malloc ?K (8 * nat (pr_argc demo_init)) [])" "malloc_total ?K"
    "pr_path demo_init = Some ''./container//sys/init''" "\<forall>v. fst (px_dlopen ?K ''./container//sys/init'' v) = None"
    by (simp_all add: demo_init_def demo_os_def malloc_total_def)
  with fork_copy_outcomes [OF demo_proc_wf(1), of ?K "[]"] show ?thesis by blast
qed

section \<open>Devices, files and sockets\<close>

text \<open>
  C17: opening a device by name can be undone: closing that name restores the table as a map
  from names to devices and counts, and in between the device can not be removed.
\<close>

theorem device_open_close:
  assumes "dev_inv es" "dev_open n es = Inr (Some d, es1)"
  shows "(\<exists>es2. dev_close n es1 = (True, es2) \<and> dev_abs es2 = dev_abs es) \<and>
    dev_remove (Some n) es1 = (False, es1)"
  using devs.opn_cls [OF assms] devs.opn_blocks_del [OF assms] by blast

lemma demo_devices_inv: "dev_inv demo_devices"
  by (simp add: demo_devices_def dev_inv_def)

theorem device_open_close_witness:
  "\<exists>es1 es2. dev_open ''null'' demo_devices = Inr (Some DeviceNull, es1) \<and>
     dev_close ''null'' es1 = (True, es2) \<and> dev_abs es2 = dev_abs demo_devices"
proof -
  obtain es1 where o: "dev_open ''null'' demo_devices = Inr (Some DeviceNull, es1)"
    by (simp add: dev_open_def dev_get_def dev_getIndex_def Let_def demo_devices_def)
  from device_open_close [OF demo_devices_inv o] o show ?thesis by blast
qed

text \<open>
  C19: the answer to a call has the type and the range the library reads it with: an int of
  32 bits with the bytes of a read, the pointer of an allocation, 0 or -1 of a close. So
  no function of the library reads an answer that was not written, for a caller the server knows.
\<close>

theorem replies_typed:
  assumes "callerPID s (px_getpid K w) \<noteq> None" "serverSysCall K req s w = Inr ((r, s'), w')"
  shows "reply_typed req r \<and>
    (int_call req \<longrightarrow> (\<exists>i. ret_int r = Inr i \<and> - (2 ^ 31) \<le> i \<and> i < 2 ^ 32)) \<and>
    (\<forall>p n. req = SysAlloc p n \<longrightarrow> (\<exists>q. ret_ptr r = Inr q))"
proof -
  from assms obtain pid where "syscall K pid req s w = Inr ((r, s'), w')" by (auto simp: serverSysCall_def)
  from syscall_typed [OF this] typed_read show ?thesis by blast
qed

theorem replies_typed_witness:
  "reply_typed (SysOpen (Some ''/dev/null'') 0 0) (Ret 0) \<and> (\<exists>i. ret_int (Ret 0) = Inr i \<and> i < 2 ^ 32)"
proof -
  have c: "serverSysCall (demo_os 0 7) (SysOpen (Some ''/dev/null'') 0 0) demo_server [] = Inr ((Ret 0, demo_open), [])"
    by (simp add: serverSysCall_def demo_getpid demo_caller demo_open_call [simplified])
  have p: "callerPID demo_server (px_getpid (demo_os 0 7) []) \<noteq> None" by (simp add: demo_getpid demo_caller)
  from replies_typed [OF p c] show ?thesis by (auto simp del: reply_typed.simps)
qed

text \<open>
  C20: \<^verbatim>\<open>strstrrev\<close> finds the last occurrence of a needle that is not empty: the position where it stands and
  behind which it stands nowhere. For the empty needle it answers the first position, which is the last
  occurrence its comment promises only in the empty string.
\<close>

theorem strstrrev_correct:
  "(needle \<noteq> [] \<longrightarrow> (strstrrev h needle = Some i \<longleftrightarrow> i < length h \<and> starts_with needle (drop i h) \<and>
    (\<forall>j. i < j \<longrightarrow> j < length h \<longrightarrow> \<not> starts_with needle (drop j h)))) \<and> strstrrev h [] = Some 0"
  using strstrrev_Some_iff by simp

theorem strstrrev_correct_witness: "strstrrev ''/a/b'' ''/'' = Some 2 \<and> strstrrev ''/a/b'' [] = Some 0"
  using strstrrev_correct [of "''/''" "''/a/b''" 2] by (auto simp: starts_with_def less_Suc_eq numeral_3_eq_3)

text \<open>
  C24: with a read(2) that keeps its contract, a read system call on whatever the descriptor
  stands for answers -1 or a count within the bytes asked for, stores no more than those
  and leaves the server as it was; below 2^31 bytes the count survives the 32-bit reply.
\<close>

theorem read_within_bounds:
  assumes "px_io_sane K" "syscall K pid (SysRead f b n) s w = Inr ((RetData r bs, s'), w')" "n < 2 ^ 31"
  shows "-1 \<le> r \<and> r \<le> int n \<and> length bs \<le> n \<and> s' = s"
  by (rule sysRead_bounds [OF assms])

theorem read_within_bounds_witness:
  "\<exists>r bs s' w'. syscall (demo_os 0 7) 1 (SysRead 0 True 4) demo_open [] = Inr ((RetData r bs, s'), w') \<and>
     -1 \<le> r \<and> r \<le> 4 \<and> length bs \<le> 4 \<and> s' = demo_open"
proof -
  obtain r bs s' w' where c: "syscall (demo_os 0 7) 1 (SysRead 0 True 4) demo_open [] = Inr ((RetData r bs, s'), w')"
    by (simp add: syscall_def proc_fd_def fdRead_def fdGet_def dev_read_def demo_open_fields)
  from read_within_bounds [OF px_io_sane_demo_os c] c show ?thesis by auto
qed

section \<open>Clients\<close>

text \<open>
  C26: one poll, accepting a client, handling every message and starting terminals, leaves
  the server well formed, in the daemon as in the children it forks.
\<close>

theorem poll_invariant:
  assumes "server_inv s" "tcpPoll K s w = Inr ((out, s'), w')"
  shows "server_inv s'"
  by (rule server_inv_tcpPoll [OF assms])

lemma demo_daemon_inv: "server_inv demo_daemon"
  using boot_new [OF demo_boot(1)] by simp

lemma demo_clients_inv: "server_inv (demo_clients n)"
proof -
  have s: "server_inv (demo_daemon\<lparr>sv_sockets := map (\<lambda>i. demo_socket (int i + 6)) [0 ..< n]\<rparr>)"
  proof (induction n)
    case 0
    have "demo_daemon\<lparr>sv_sockets := []\<rparr> = demo_daemon" by (simp add: demo_daemon_def demo_server_def Server_new_def)
    then show ?case using demo_daemon_inv by simp
  next
    case (Suc n)
    from server_inv_new_socket [OF Suc, of "demo_socket (int n + 6)"] show ?case
      by (simp add: sock_wf_def demo_socket_def)
  qed
  have "cons_ok (map Connection_new [0 ..< n]) (demo_daemon\<lparr>sv_sockets := map (\<lambda>i. demo_socket (int i + 6)) [0 ..< n]\<rparr>)"
    by (simp add: cons_ok_def Connection_new_def)
  from server_inv_connections [OF s this] show ?thesis by (simp add: demo_clients_def)
qed

theorem poll_invariant_witness:
  "tcpPoll (tcp_os [6] (''stop'' @ [CHR 0x0A])) (demo_clients 1) [] = Inr ((Handled True, stop (demo_clients 1)), []) \<and>
   server_inv (stop (demo_clients 1))"
proof -
  have "tcpPoll (tcp_os [6] (''stop'' @ [CHR 0x0A])) (demo_clients 1) [] = Inr ((Handled True, stop (demo_clients 1)), [])"
  proof (rule tcpPoll_stop [where cs = "[]" and rest = "[]" and con = "Connection_new 0" and fd = 6])
    show "polls (tcp_os [6] (''stop'' @ [CHR 0x0A])) (demo_clients 1) [] [6] []" by (rule demo_clients_polls) simp
    show "con_fd (demo_clients 1) (Connection_new 0) 6" using demo_clients_con [of 0 1] by simp
    show "fst (strtok_r (tcp_text (''stop'' @ [CHR 0x0A])) '' '') = Some ''stop''" by (rule stop_message)
  qed (simp_all add: demo_clients_def tcp_os_def)
  with poll_invariant [OF demo_clients_inv this] show ?thesis by simp
qed

text \<open>
  C25: a terminal, from the message of a client to the shell. Let a poll of the daemon read
  \<^verbatim>\<open>type tty\<close> from a client that has not told its type before, with the other clients quiet. Where the name
  of a terminal is free, a file system is mounted, there is a pid left, and malloc, dlopen and dlsym do not fail, the system can go on
  with a new process: the shell, as the next process of its copy, with the name of the first free terminal as its
  argument. In both copies that name is a device which is the socket of the client, and
  the daemon knows the client as a terminal.
\<close>

theorem terminal_started:
  assumes "sy_nodes S (sy_daemon S) = Some s" "server_inv s" "fresh_pid c S" "loads K"
    and "tty_free s nm" "can_boot_shell s"
    and "polls K s (sy_world S) ready w1" "sv_connections s = cs @ con # rest" "\<forall>x \<in> set cs \<union> set rest. quiet ready s x"
    and "con_fd s con fd" "fd \<in> set ready" "con_type con = ConNone"
    and "px_read K fd 1024 w1 = ((9, ''type tty'' @ [CHR 0x0A]), w2)"
  shows "\<exists>T sd sc q. sys_step K S T \<and> sy_nodes T = (sy_nodes S)(sy_daemon S \<mapsto> sd, c \<mapsto> sc) \<and>
    sv_connections sd = cs @ con\<lparr>con_type := ConTTY\<rparr> # rest \<and>
    sv_procs sc = sv_procs s @ [q] \<and> pr_name q = Some ''shell'' \<and> pr_argv q = Some [''shell'', ''/dev/'' @ nm] \<and>
    pr_state q = PrRunning \<and> pr_posixPID q = c \<and>
    (\<forall>t \<in> {sd, sc}. dev_abs (sv_devices t) = (dev_abs (sv_devices s))(nm \<mapsto> (DeviceSocket (Some (con_sock con)), 0)))"
proof -
  from assms(13) have "px_read K fd 1024 w1 = ((int (length asks_tty), asks_tty), w2)" by (simp add: asks_tty_def)
  from terminal_step [OF assms(4,1,2,5,6,3,7-11) this assms(12)] show ?thesis
    by (simp add: terminal_shell_def dev_prefix_def)
qed

lemma demo_loads_tcp: "loads (tcp_os ready bs)"
  using loads_demo_os by (simp add: loads_def malloc_total_def tcp_os_def)

theorem terminal_started_witness:
  "\<exists>T sd sc q. sys_step (tcp_os [6] (''type tty'' @ [CHR 0x0A])) \<lparr>sy_daemon = 10, sy_nodes = [10 \<mapsto> demo_clients 2], sy_world = []\<rparr> T \<and>
     sy_nodes T = [10 \<mapsto> sd, 12 \<mapsto> sc] \<and> sv_procs sc ! 2 = q \<and> pr_argv q = Some [''shell'', ''/dev/tty0''] \<and>
     sv_connections sd = [(Connection_new 0)\<lparr>con_type := ConTTY\<rparr>, Connection_new 1]"
proof -
  let ?S = "\<lparr>sy_daemon = 10, sy_nodes = [10 \<mapsto> demo_clients 2], sy_world = [] :: os_call list\<rparr>"
  let ?m = "''type tty'' @ [CHR 0x0A]"
  have n: "sy_nodes ?S (sy_daemon ?S) = Some (demo_clients 2)" "fresh_pid 12 ?S" by (simp_all add: fresh_pid_def is_pid_def)
  have dv: "sv_devices (demo_clients 2) = demo_devices" "length (sv_procs (demo_clients 2)) = 2"
    "sv_filesystem (demo_clients 2) = Some \<lparr>containerPath = Some (''./container'' @ ''/'')\<rparr>"
    by (simp_all add: demo_clients_def demo_daemon_def demo_server_def demo_fs_def)
  have "(1023::nat) = Suc 1022" by simp
  moreover have "tty_name 0 = ''tty0''" by (simp add: tty_name_def decimal.simps char_of_def bit_Suc_0_iff)
  moreover have "dev_abs demo_devices ''tty0'' = None" by (simp add: dev_abs_None demo_devices_def)
  ultimately have f: "tty_free (demo_clients 2) ''tty0''"
    by (simp only: tty_free_def dv tty_search.simps) (simp add: dev_exists_abs)
  have b: "can_boot_shell (demo_clients 2)" unfolding can_boot_shell_def dv by auto
  have c: "sv_connections (demo_clients 2) = [] @ Connection_new 0 # [Connection_new 1]"
    by (simp add: demo_clients_def numeral_2_eq_2)
  have q: "\<forall>x \<in> set [] \<union> set [Connection_new 1]. quiet [6] (demo_clients 2) x"
    using demo_clients_con [of 1 2] by (auto simp: quiet_def)
  have fd: "con_fd (demo_clients 2) (Connection_new 0) 6" "(6::int) \<in> set [6]" "con_type (Connection_new 0) = ConNone"
    using demo_clients_con [of 0 2] by (simp_all add: Connection_new_def)
  have r: "px_read (tcp_os [6] ?m) 6 1024 [] = ((9, ?m), [])" by (simp add: tcp_os_def)
  have p: "polls (tcp_os [6] ?m) (demo_clients 2) (sy_world ?S) [6] []"
    using demo_clients_polls [of "[6]" ?m 2 "[]"] by (simp del: append.simps)
  from terminal_started [OF n(1) demo_clients_inv n(2) demo_loads_tcp f b p c q fd r] dv(2)
  show ?thesis by (fastforce simp: nth_append fun_eq_iff)
qed

text \<open>
  C27: when a client disconnects and the others but the one after it in the list are quiet, that
  connection is kept but not looked at in this poll, whatever it sent.
\<close>

theorem disconnect_skips_next:
  assumes "polls K s w ready w1" "sv_connections s = cs @ con # skipped # rest"
    and "\<forall>c \<in> set cs. quiet ready s c" "\<forall>c \<in> set rest. quiet ready s c"
    and "con_fd s con fd" "fd \<in> set ready" "px_read K fd 1024 w1 = ((n, bs), w2)" "n \<le> 0"
  shows "tcpPoll K s w = Inr ((Handled True, s\<lparr>sv_connections := cs @ skipped # rest,
    sv_fdSetActive := removeAll fd (sv_fdSetActive s)\<rparr>), snd (px_close K fd w2))"
  by (rule tcpPoll_eof_skips [OF assms])

theorem disconnect_skips_next_witness:
  "\<exists>s'. tcpPoll (tcp_os [6, 7] []) (demo_clients 2) [] = Inr ((Handled True, s'), [CallClose 6]) \<and>
     sv_connections s' = [Connection_new 1]"
proof -
  have p: "polls (tcp_os [6, 7] []) (demo_clients 2) [] [6, 7] []" by (rule demo_clients_polls) simp
  have c: "sv_connections (demo_clients 2) = [] @ Connection_new 0 # Connection_new 1 # []"
    by (simp add: demo_clients_def numeral_2_eq_2)
  have f: "con_fd (demo_clients 2) (Connection_new 0) 6" using demo_clients_con [of 0 2] by simp
  have r: "px_read (tcp_os [6, 7] []) 6 1024 [] = ((0, []), [])" by (simp add: tcp_os_def)
  from disconnect_skips_next [OF p c _ _ f _ r] show ?thesis by (simp add: tcp_os_def demo_os_def)
qed

text \<open>
  C28: when the client that disconnects is the last of the list, and those before it are quiet,
  the loop advances its iterator past the end: the server has no defined behaviour from there on.
\<close>

theorem disconnect_last_faults:
  assumes "polls K s w ready w1" "sv_connections s = cs @ [con]" "\<forall>c \<in> set cs. quiet ready s c"
    and "con_fd s con fd" "fd \<in> set ready" "px_read K fd 1024 w1 = ((n, bs), w2)" "n \<le> 0"
    and "\<not> sv_stopFlag s"
  shows "tcpPoll K s w = Inl BadIterator \<and> main_loop K s w = Some (Inl BadIterator)"
  using tcpPoll_eof_last [OF assms(1-7)] main_loop_fault [OF assms(8)] by simp

theorem disconnect_last_faults_witness:
  "main_loop (tcp_os [6] []) (demo_clients 1) [] = Some (Inl BadIterator)"
proof -
  have p: "polls (tcp_os [6] []) (demo_clients 1) [] [6] []" by (rule demo_clients_polls) simp
  have c: "sv_connections (demo_clients 1) = [] @ [Connection_new 0]" by (simp add: demo_clients_def)
  have f: "con_fd (demo_clients 1) (Connection_new 0) 6" using demo_clients_con [of 0 1] by simp
  have r: "px_read (tcp_os [6] []) 6 1024 [] = ((0, []), [])" by (simp add: tcp_os_def)
  have s: "\<not> sv_stopFlag (demo_clients 1)"
    by (simp add: demo_clients_def demo_daemon_def demo_server_def Server_new_def)
  from disconnect_last_faults [OF p c _ f _ r _ s] show ?thesis by simp
qed

text \<open>
  C29: telling a server to stop works from one end to the other: \<^verbatim>\<open>main stop\<close> writes five
  bytes to the connection it made and closes it, twice; and a server that reads these bytes
  from one of its connections, with the others quiet, leaves its main loop.
\<close>

theorem stop_protocol:
  assumes "tcp_connect K' ''localhost'' default_port SocketTcp_new v = Inr ((True, sk), v1)" "sk_sockFd sk = Some fd'"
    and "polls K s w ready w1" "sv_connections s = cs @ con # rest"
    and "\<forall>c \<in> set cs. quiet ready s c" "\<forall>c \<in> set rest. quiet ready s c"
    and "con_fd s con fd" "fd \<in> set ready" "px_read K fd 1024 w1 = ((int (length msg), msg), w2)"
    and "msg = ''stop'' @ [CHR 0x0A]" "\<not> sv_stopFlag s"
  shows "main K' [prog, ''stop''] v =
      Some (Inr (Exit 0, snd (px_close K' fd' (snd (px_close K' fd' (snd (px_write K' fd' msg v1))))))) \<and>
    main_loop K s w = Some (Inr ((Handled True, stop s), w2))"
proof -
  have "tcpPoll K s w = Inr ((Handled True, stop s), w2)"
    by (rule tcpPoll_stop [OF assms(3-9)]) (simp_all only: assms(10) stop_message, simp)
  from main_loop_step [OF assms(11) this] main_loop_stopped [of "stop s"]
  have "main_loop K s w = Some (Inr ((Handled True, stop s), w2))" by (simp add: stop_def)
  with main_stop [OF assms(1,2)] assms(10) show ?thesis by simp
qed

theorem stop_protocol_witness:
  "\<exists>v1. main (demo_os 0 7) [''s'', ''stop''] [] = Some (Inr (Exit 0, v1)) \<and>
     main_loop (tcp_os [6] (''stop'' @ [CHR 0x0A])) (demo_clients 1) [] = Some (Inr ((Handled True, stop (demo_clients 1)), []))"
proof -
  let ?m = "''stop'' @ [CHR 0x0A]" and ?s = "demo_clients 1"
  obtain sk v1 where c: "tcp_connect (demo_os 0 7) ''localhost'' default_port SocketTcp_new [] = Inr ((True, sk), v1)"
    and fd: "sk_sockFd sk = Some 5"
    by (simp add: tcp_connect_def SocketTcp_new_def Socket_new_def demo_os_def Let_def)
  have p: "polls (tcp_os [6] ?m) ?s [] [6] []" by (rule demo_clients_polls) simp
  have cn: "sv_connections ?s = [] @ Connection_new 0 # []" by (simp add: demo_clients_def)
  have f: "con_fd ?s (Connection_new 0) 6" using demo_clients_con [of 0 1] by simp
  have r: "px_read (tcp_os [6] ?m) 6 1024 [] = ((int (length ?m), ?m), [])" by (simp add: tcp_os_def)
  have s: "\<not> sv_stopFlag ?s" by (simp add: demo_clients_def demo_daemon_def demo_server_def Server_new_def)
  from stop_protocol [OF c fd p cn _ _ f _ r refl s, of "''s''"] show ?thesis by auto
qed

section \<open>Life cycle\<close>



text \<open>
  C31: a boot that succeeds has init as process 1: in the daemon it is loaded and the port is in the set of
  descriptors, in the forked child it runs under the child's pid. The table has no devices but full, null and zero,
  unused, and all three where malloc does not fail: an addition that fails is only logged.
\<close>

theorem boot_makes_init:
  assumes "boot K fs ip (Server_new port) w = Inr ((out, s'), w')" "out \<noteq> Handled False"
  shows "server_inv s' \<and> sv_filesystem s' = Some fs \<and> length (sv_procs s') = 2 \<and>
    (case out of
       Handled _ \<Rightarrow> pr_state (sv_procs s' ! 1) = PrLoaded \<and> fd_in_range (sv_tcpSockFd s') \<and>
         sv_fdSetActive s' = [sv_tcpSockFd s']
     | Entered q \<Rightarrow> sv_procs s' ! 1 = q \<and> pr_state q = PrRunning \<and> pr_posixPID q = px_getpid K w') \<and>
    map_le (dev_abs (sv_devices s')) std_devices \<and> (malloc_total K \<longrightarrow> dev_abs (sv_devices s') = std_devices)"
  by (rule boot_new [OF assms])

theorem boot_makes_init_witness:
  "server_inv demo_server \<and> sv_procs demo_server ! 1 = demo_init \<and> pr_posixPID demo_init = 7"
  using boot_makes_init [OF demo_boot(2)] by simp

text \<open>
  C32: where localtime answers a date and the arguments match the format, a message to the log appends a time stamp, the name of the
  program, the level and the formatted message
  to the file, with no line end but the message's own, or nothing when the file does not open. The stamp fits the buffer, whose size the code overstates, and its year is
  that of the date unless the day is one of the first three of a year or one of its last four.
  (On the first of January 2016 it is 2015, as the witness shows.)
\<close>

theorem log_lines:
  assumes "lo_fopen L w = (ok, w1)" "lo_localtime L w1 = Some t" "tm_ok t" "vformat fmt args = Inr m"
  shows "vlog L level fmt args w =
      Inr (if ok then lo_append L (timestamp t @ '' DistServer '' @ level_str level @ '' - '' @ m) w1 else w1) \<and>
    length (timestamp t) < 128 \<and>
    (3 \<le> tm_yday t \<longrightarrow> tm_yday t < 362 \<longrightarrow> iso_year t = tm_year t + 1900)"
proof -
  have "length (timestamp t) < 128" using timestamp_length [OF assms(3)] by simp
  moreover have "vlog L level fmt args w = Inr w1" if "\<not> ok" using that assms(1) by (simp add: vlog_def)
  moreover have "vlog L level fmt args w =
      Inr (lo_append L (timestamp t @ '' DistServer '' @ level_str level @ '' - '' @ m) w1)" if ok
    using that assms(1) by (intro vlog_appends [OF _ assms(2-4)]) simp
  ultimately show ?thesis using iso_year_middle [OF assms(3)] by simp
qed

definition new_year :: tm where
  "new_year = \<lparr>tm_sec = 5, tm_min = 30, tm_hour = 8, tm_mday = 1, tm_mon = 0, tm_year = 116, tm_wday = 5, tm_yday = 0\<rparr>"

definition demo_log :: "string log_os" where
  "demo_log = \<lparr>lo_fopen = (\<lambda>w. (True, w)), lo_localtime = (\<lambda>w. Some new_year), lo_append = (\<lambda>x w. w @ x)\<rparr>"

theorem log_lines_witness:
  "vlog demo_log LogLevelInfo ''Stopping.'' [] [] = Inr ''2015-01-01 08:30:05 DistServer INFO - Stopping.''"
proof -
  have ok: "tm_ok new_year" by (simp add: new_year_def tm_ok_def)
  have m: "vformat ''Stopping.'' [] = Inr ''Stopping.''" by (rule vformat_plain) simp
  have "timestamp new_year = ''2015-01-01 08:30:05''"
    by (simp add: new_year_def timestamp_def iso_year_def thursday_def padded_def decimal.simps char_of_def bit_Suc_0_iff)
  with log_lines [OF _ _ ok m, of demo_log "[]" True "[]" LogLevelInfo] show ?thesis
    by (simp add: demo_log_def level_str_def logStr_def)
qed

section \<open>The interactive shell\<close>

text \<open>
  C35: the tokens of a line hold, in order, exactly the characters a single pass keeps: all
  those inside quotes, and outside of them all but spaces, quotes and dollar signs.
\<close>

theorem tokens_keep_characters: "concat (map tk_str (tokenize s)) = surviving False s"
  using tokenize_text [of s] by (simp add: token_text_def)

text \<open>
  C37: words separated by spaces come back as the tokens of the line, and the words of a
  line as typed keep its newline in the last one, since only three of the four delimiters
  are looked at.
\<close>

theorem words_are_tokens:
  assumes "\<forall>v \<in> set (us @ [l]). plain v \<and> v \<noteq> []"
  shows "map tk_str (tokenize (unwords (us @ [l]))) = us @ [l] \<and>
    map tk_str (tokenize (unwords (us @ [l]) @ [CHR 0x0A])) = us @ [l @ [CHR 0x0A]]"
proof -
  have "\<forall>v \<in> set (us @ [l @ [CHR 0x0A]]). plain v \<and> v \<noteq> []" using assms plain_newline by auto
  from tokenize_words [OF this] tokenize_words [OF assms] show ?thesis
    by (simp add: unwords_last mk_token_def comp_def)
qed

theorem words_are_tokens_witness:
  "map tk_str (tokenize (''ls -l'' @ [CHR 0x0A])) = [''ls'', ''-l'' @ [CHR 0x0A]]"
  using words_are_tokens [of "[''ls'']" "''-l''"] by (simp add: plain_def is_delimiter_iff)

text \<open>
  C38: the job strings are the runs of tokens between the separators, each token followed by
  a space; an empty run is a job too, except after the last separator. They are read
  through a pointer to a string that is gone, as \<open>stale\<close> gives it.
\<close>

theorem jobs_are_segments:
  "handleCommand stale ts = map stale (last_job (map (\<lambda>seg. concat (map (\<lambda>t. tk_str t @ '' '') seg)) (segments ts)))"
  using handleCommand_segments [of stale ts] by (simp add: spaced_def [abs_def])

text \<open>
  C39: a line of words is one job, made of what the dangling pointer reads. Where it still finds the
  text that was there, one process is started, with the first word alone: the arguments of the line do not
  reach it. If it can not be started the null stream is read, and if it puts out a line
  the null pointer is printed.
\<close>

theorem line_starts_first_word:
  assumes "\<forall>v \<in> set (us @ [l]). plain v \<and> word v" "txt = unwords (us @ [l]) @ [CHR 0x0A, CHR '' '']"
  shows "dshell_line D stale (unwords (us @ [l]) @ [CHR 0x0A]) w = run_jobs D [stale txt] w \<and>
    (stale txt = txt \<longrightarrow> dshell_line D stale (unwords (us @ [l]) @ [CHR 0x0A]) w =
      (case ds_popen D (hd (us @ [l])) w of
         (None, w1) \<Rightarrow> Some (Inl NullDeref)
       | (Some st, w1) \<Rightarrow>
           (case ds_getline D st w1 of (None, w2) \<Rightarrow> Some (Inr w2) | (Some line, w2) \<Rightarrow> Some (Inl NullDeref))))"
  by (rule conjI [OF conjunct1 [OF line_popen [OF assms]]], rule impI)
    (simp only: conjunct1 [OF line_popen [OF assms]] conjunct2 [OF line_popen [OF assms]])

definition demo_dsh :: "bool \<Rightarrow> string list dsh_os" where
  "demo_dsh puts = \<lparr>ds_popen = (\<lambda>p w. (Some 1, w @ [p])), ds_getline = (\<lambda>st w. (if puts then Some ''x'' else None, w)),
     ds_print = (\<lambda>x w. w)\<rparr>"

theorem line_starts_first_word_witness:
  "dshell_line (demo_dsh False) id (''ls -l'' @ [CHR 0x0A]) [] = Some (Inr [''ls'']) \<and>
   dshell_line (demo_dsh True) id (''ls -l'' @ [CHR 0x0A]) [] = Some (Inl NullDeref)"
proof -
  have w: "\<forall>v \<in> set ([''ls''] @ [''-l'']). plain v \<and> word v" by (simp add: plain_def word_def is_delimiter_iff)
  note r = line_starts_first_word [OF w refl, of _ id "[]", THEN conjunct2, THEN mp, OF id_apply]
  from r [of "demo_dsh False"] r [of "demo_dsh True"] show ?thesis by (simp add: demo_dsh_def)
qed

section \<open>The programs of the platform\<close>

text \<open>
  C7: where malloc and realloc do not fail, a line \<^verbatim>\<open>cd x\<close> of the shell sets the working directory of its process to the
  canonical form of \<open>x\<close>, with the home directory for \<^verbatim>\<open>~\<close>, and sets PWD to it if it fits in the
  line buffer; nothing else of the server changes, and of the world only the allocator's state. Against
  the comment in the code the path is not made absolute: \<^verbatim>\<open>cd foo\<close> makes \<^verbatim>\<open>foo\<close> the working directory, whatever it was before.
\<close>

theorem cd_command:
  assumes "runs_as K s pid" "calm K view" "sets_env L view put" "length (lc_stack L) = nat LINESIZE"
    and "shell_word g" "cd_target env g = Some t" "NUL \<notin> set t" "int (length t) + 1 < 2 ^ 32"
  shows "\<exists>w'. shellParseLine K L env fdOut (''cd'' @ '' '' @ g @ [CHR 0x0A]) s w =
      Inr ((Back (), upd_proc pid (\<lambda>q. q\<lparr>pr_cwd := Some (canonical t)\<rparr>) s), w') \<and>
    view w' = (if int (length (canonical t)) < LINESIZE then put ''PWD'' (canonical t) (view w) else view w) \<and>
    (hd g \<noteq> CHR ''~'' \<longrightarrow> t = g) \<and> (is_absolute (canonical t) \<longleftrightarrow> is_absolute t)"
proof -
  have c: "shell_word ''cd''" by (simp add: shell_word_def)
  have l: "length t + 1 < 2 ^ 64" "int (length (canonical t)) + 1 < 2 ^ 32"
    using assms(8) length_canonical [of t] by simp_all
  note a = absolute_target [OF assms(1,2,5,6) l(1)]
  have "hd g \<noteq> CHR ''~'' \<longrightarrow> t = g" using assms(6) by (simp add: cd_target_def split: if_splits)
  moreover have "is_absolute (canonical t) \<longleftrightarrow> is_absolute t" by (rule canonical_absolute)
  ultimately show ?thesis
    unfolding parse_command [OF c assms(5)]
    using cd_to [OF assms(1-4) a NUL_canonical [OF assms(7)] l(2)] by (simp add: yields_def)
qed

theorem cd_command_witness:
  "shellParseLine (demo_os 0 7) demo_libc (Some [''HOME=/home/'']) 3 (''cd'' @ '' '' @ ''~//bin/'' @ [CHR 0x0A]) demo_server [] =
     Inr ((Back (), upd_proc 1 (\<lambda>q. q\<lparr>pr_cwd := Some ''/home/bin''\<rparr>) demo_server), [CallSetenv ''PWD'' ''/home/bin'']) \<and>
   shellParseLine (demo_os 0 7) demo_libc None 3 (''cd'' @ '' '' @ ''foo'' @ [CHR 0x0A]) demo_server [] =
     Inr ((Back (), upd_proc 1 (\<lambda>q. q\<lparr>pr_cwd := Some ''foo''\<rparr>) demo_server), [CallSetenv ''PWD'' ''foo''])"
proof -
  have g: "shell_word ''~//bin/''" by (simp add: shell_word_def)
  have "env_matches HOME ''HOME=/home/''" by (simp add: env_matches_def HOME_def strncmp_eq_def)
  then have t: "cd_target (Some [''HOME=/home/'']) ''~//bin/'' = Some ''/home////bin/''"
    by (simp add: cd_target_def wrap_getenv_Cons HOME_def)
  have c: "canonical ''/home////bin/'' = ''/home/bin''" by (simp add: canonical_def)
  have n: "NUL \<notin> set ''/home////bin/''" "int (length ''/home////bin/'') + 1 < 2 ^ 32" by simp_all
  have g': "shell_word ''foo''" and t': "cd_target None ''foo'' = Some ''foo''" by (simp_all add: shell_word_def cd_target_def)
  have c': "canonical ''foo'' = ''foo''" "NUL \<notin> set ''foo''" "int (length ''foo'') + 1 < 2 ^ 32" by (simp_all add: canonical_def)
  show ?thesis
    using cd_command [OF demo_runs_as demo_calm(1) demo_sets_env demo_stack g t n, of 0 3 "[]"]
      cd_command [OF demo_runs_as demo_calm(1) demo_sets_env demo_stack g' t' c'(2,3), of 0 3 "[]"]
    unfolding c c'(1) by (simp add: LINESIZE_def)
qed

text \<open>
  C18: the child a boot forks runs the program init to its end, whatever the operating system
  answers: it finds itself to be process 1 through the library and its copy of the server, and
  exits with code 0. Its process is destroyed in that copy, so its pid is no longer known there, and
  its shared library is closed.
\<close>

theorem init_exits_after_boot:
  assumes "boot K fs ip (Server_new port) w = Inr ((Entered q, s), w1)" "\<And>w. px_getpid K w = p" "p \<noteq> -1"
  shows "\<exists>s' w' h. start_program K (\<lambda>env. init_main K) q s w1 = Inr ((Gone (Exits 0), s'), w') \<and>
    s' = s\<lparr>sv_procs := [Process_new, fst (Process_destroy K q w1)]\<rparr> \<and> callerPID s' p = None \<and>
    pr_dlHandle q = Some h \<and> w' = px_dlclose K h w1"
  by (rule boot_init_exits [OF assms])

theorem init_exits_after_boot_witness:
  "\<exists>s' w'. start_program (as_fork 7 0 (demo_os 0 0)) (\<lambda>env. init_main (as_fork 7 0 (demo_os 0 0))) demo_init
     demo_server [CallDlopen ''./container//sys/init''] = Inr ((Gone (Exits 0), s'), w') \<and> callerPID s' 7 = None"
  using init_exits_after_boot [OF demo_boot(2), of 7] by (auto simp: as_fork_def)

text \<open>
  C21: the reduction of a path in the shell, which shifts characters in its buffer until the
  length stays the same, computes the non-empty parts joined with single slashes and needs
  no second pass; it reads before the buffer exactly for the empty path.
\<close>

theorem path_reduction:
  "shellPathReduce p = (if p = [] then Inl OutOfBounds else Inr (canonical p)) \<and>
   path_parts (canonical p) = path_parts p \<and> canonical (canonical p) = canonical p"
proof -
  have ok: "\<forall>x \<in> set (path_parts p). part_ok x" using path_parts_ok by blast
  show ?thesis
    by (simp add: shellPathReduce_canonical canonical_idem) (simp add: canonical_def path_parts_join [OF ok])
qed

text \<open>
  C22: with a read(2) that keeps its contract, a turn of the shell's input loop that read something
  stores its final NUL inside the buffer of LINESIZE bytes: it parses the string of the bytes read, which is
  shorter than the buffer, and does what that parsing does, faults included; what the parser leaves in the
  buffer is no longer than the line, and the buffer keeps its size.
\<close>

theorem line_fits:
  assumes "px_io_sane K" "length b = nat LINESIZE"
    and "shell_prompt K env fdOut b s w = Inr ((Back b1, s1), w1)"
    and "wrap_read K fdIn True (LINESIZE - 1) s1 w1 = Inr ((Back (count, bs), s2), w2)" "0 < count"
  shows "\<exists>b2. length b2 = nat LINESIZE \<and> c_str b2 = c_str (take (nat count) (bs @ drop (length bs) b1)) \<and>
    length (parsed_line (c_str b2)) \<le> length (c_str b2) \<and> length (c_str b2) < nat LINESIZE \<and>
    shell_turn K L env fdIn fdOut b s w = u_bind (shellParseLine K L env fdOut (c_str b2)) (\<lambda>_.
      u_return (Inl (b2[length (parsed_line (c_str b2)) := NUL]))) s2 w2"
  by (rule turn_reads [OF assms])

theorem line_fits_witness:
  "\<exists>b2. c_str b2 = ''stop'' \<and> length b2 = nat LINESIZE \<and> shell_turn (demo_os 0 7) demo_libc None 0 (-1) demo_line demo_file [] =
     u_bind (shellParseLine (demo_os 0 7) demo_libc None (-1) (c_str b2)) (\<lambda>_.
       u_return (Inl (b2[length (parsed_line (c_str b2)) := NUL]))) demo_file [CallRead 17 65535]"
proof -
  have p: "shell_prompt (demo_os 0 7) None (-1) demo_line demo_file [] = Inr ((Back demo_line, demo_file), [])"
    by (simp add: shell_prompt_def u_return_def)
  have c: "c_str (take (nat 4) (''stop'' @ drop (length ''stop'') demo_line)) = ''stop''" by (simp add: c_str_def)
  from line_fits [OF px_io_sane_demo_os demo_line(2) p demo_file_wrap_read, of demo_libc] show ?thesis
    unfolding c by fastforce
qed

text \<open>
  C23: where memory does not run out and realloc keeps a block in place, and HOME is a canonical path other than \<^verbatim>\<open>/\<close> that
  does not begin with \<^verbatim>\<open>~\<close>, the prompt shows a canonical directory whose text begins with that of the home directory as
  \<^verbatim>\<open>~\<close> and the rest of the text after a slash. What is shown names the same directory again exactly if the
  home directory ends at a slash there: with the home \<^verbatim>\<open>/home/al\<close> the directory \<^verbatim>\<open>/home/alice\<close> is shown as \<^verbatim>\<open>~/ice\<close>.
\<close>

theorem displayed_path:
  assumes "runs_as K s pid" "calm K view" "in_place K" "wrap_getenv env HOME = Some home"
    and "canonical home = home" "home \<noteq> []" "home \<noteq> [slash]" "hd home \<noteq> CHR ''~''" "NUL \<notin> set home"
    and "canonical (home @ x) = home @ x" "length (home @ x) + 3 < 2 ^ 64"
    and "shown = CHR ''~'' # (if x = [] \<or> hd x = slash then x else slash # x)"
  shows "\<exists>b w1. shellPathDisplay K env (Some (home @ x)) s w = Inr ((Back (Some (b, shown)), s), w1) \<and> view w1 = view w \<and>
    ((\<exists>c w2. shellPathAbsolute K env (Some shown) s w1 = Inr ((Back (Some (c, home @ x)), s), w2)) \<longleftrightarrow>
      x = [] \<or> hd x = slash)"
proof -
  obtain y where y: "canonical (''~/'' @ x) = CHR ''~'' # y" using tilde_canonical by blast
  have sh: "shown = CHR ''~'' # y" using tilde_display [OF assms(5,6,10)] y assms(12) by simp
  have "length y \<le> length x + 1" using length_canonical [of "''~/'' @ x"] unfolding y by simp
  then have l: "length (home @ slash # y) + 1 < 2 ^ 64" using assms(11) by simp
  have "length (home @ x) + 2 < 2 ^ 64" using assms(11) by simp
  from display_home [OF assms(1-4,6,9,10,8) this] obtain b w1 where d:
    "shellPathDisplay K env (Some (home @ x)) s w = Inr ((Back (Some (b, shown)), s), w1)" "view w1 = view w"
    unfolding y yields_def same_def sh by blast
  have "yields (shellPathAbsolute K env (Some shown)) s w1
      (same view s w1 (\<lambda>r. \<exists>b. r = Some (b, canonical (home @ slash # y))))"
    unfolding sh by (rule absolute_home [OF assms(1,2,4) l])
  then have "(\<exists>c w2. shellPathAbsolute K env (Some shown) s w1 = Inr ((Back (Some (c, home @ x)), s), w2)) \<longleftrightarrow>
      canonical (home @ slash # x) = home @ x"
    unfolding tilde_resolves [OF assms(6) y] by (auto simp: yields_def same_def)
  with d home_boundary [OF assms(5-7,10)] show ?thesis by blast
qed

theorem displayed_path_witness:
  "\<exists>b w1. shellPathDisplay (demo_os 0 7) (Some [''HOME=/home/al'']) (Some ''/home/alice'') demo_server [] =
       Inr ((Back (Some (b, ''~/ice'')), demo_server), w1) \<and>
     (\<nexists>c w2. shellPathAbsolute (demo_os 0 7) (Some [''HOME=/home/al'']) (Some ''~/ice'') demo_server w1 =
       Inr ((Back (Some (c, ''/home/alice'')), demo_server), w2))"
proof -
  have "env_matches HOME ''HOME=/home/al''" by (simp add: env_matches_def HOME_def strncmp_eq_def)
  then have h: "wrap_getenv (Some [''HOME=/home/al'']) HOME = Some ''/home/al''"
    by (simp add: wrap_getenv_Cons HOME_def)
  have c: "canonical ''/home/al'' = ''/home/al''" "canonical (''/home/al'' @ ''ice'') = ''/home/al'' @ ''ice''"
    by (simp_all add: canonical_def)
  from displayed_path [OF demo_runs_as demo_calm h c(1) _ _ _ _ c(2) _ refl, of 0 "[]"] show ?thesis by auto
qed

text \<open>
  C33: a line \<^verbatim>\<open>cd x\<close> from the terminal to the working directory, in a reachable system. When the read of a turn
  of the shell gives that line, and memory does not run out, the turn ends with the working directory of the shell's process
  set to the canonical form of \<open>x\<close>, with the home directory for \<^verbatim>\<open>~\<close>, and nothing else of its copy of the server
  changed. The system is then again a reachable one, and getcwd of the next prompt answers that directory, or the range
  error when it does not fit in the line buffer.
\<close>

theorem cd_from_terminal:
  assumes "reach K fs ip port S" "roomy S" "sy_nodes S p = Some s" "p \<noteq> sy_daemon S" "callerPID s p = Some pid"
    and "calm K view" "sets_env L view put" "length (lc_stack L) = nat LINESIZE" "px_io_sane K"
    and "shell_word g" "cd_target env g = Some t" "NUL \<notin> set t" "int (length t) + 1 < 2 ^ 32"
    and "length b = nat LINESIZE" "m = ''cd'' @ '' '' @ g @ [CHR 0x0A]"
    and "shell_prompt (as_proc p K) env fdOut b s (sy_world S) = Inr ((Back b1, s1), w1)"
    and "wrap_read (as_proc p K) fdIn True (LINESIZE - 1) s1 w1 = Inr ((Back (int (length m), m), s2), w2)"
  shows "\<exists>b' s' w'. shell_turn (as_proc p K) L env fdIn fdOut b s (sy_world S) = Inr ((Back (Inl b'), s'), w') \<and>
    reach K fs ip port (set_node S p (Some s') w') \<and> s' = upd_proc pid (\<lambda>q. q\<lparr>pr_cwd := Some (canonical t)\<rparr>) s \<and>
    length b' = nat LINESIZE \<and>
    wrap_getcwd (as_proc p K) (Some b') LINESIZE s' w' =
      Inr ((Back (int (length (canonical t)) < LINESIZE, Some (getcwd_buf (canonical t) (nat LINESIZE))), s'), w')"
  by (rule cd_turn_reach [OF assms])

theorem cd_from_terminal_witness:
  "\<exists>b' s' w'. shell_turn (as_proc 7 typed_os) demo_libc None 0 (-1) demo_line demo_typed [] = Inr ((Back (Inl b'), s'), w') \<and>
     reach typed_os demo_fs (Some init_path) 51717 (set_node demo_system3 7 (Some s') w') \<and> pr_cwd (sv_procs s' ! 1) = Some ''/bin''"
proof -
  have n: "sy_nodes demo_system3 7 = Some demo_typed" "7 \<noteq> sy_daemon demo_system3" "sy_world demo_system3 = []"
    by (simp_all add: demo_system3_def)
  have g: "shell_word ''//bin/''" "cd_target None ''//bin/'' = Some ''//bin/''" "NUL \<notin> set ''//bin/''" "int (length ''//bin/'') + 1 < 2 ^ 32"
    by (simp_all add: shell_word_def cd_target_def)
  have c: "canonical ''//bin/'' = ''/bin''" by (simp add: canonical_def)
  have p: "shell_prompt (as_proc 7 typed_os) None (-1) demo_line demo_typed (sy_world demo_system3) =
      Inr ((Back demo_line, demo_typed), [])"
    by (simp add: shell_prompt_def u_return_def n(3))
  from cd_from_terminal [OF demo_reach3 demo_roomy3 n(1,2) demo_typed_caller typed_os_calm demo_sets_env demo_stack
      typed_os_sane g demo_line(2) refl p demo_typed_read] n(3) c
  show ?thesis by (auto simp: upd_proc_def demo_typed_procs)
qed

text \<open>
  C34: for every 64-bit number from 2 on the program factor ends, and what it prints are
  prime numbers in ascending order whose product is the number.
\<close>

theorem factors_printed:
  assumes "root_ok root" "2 \<le> n"
  shows "\<exists>fs. prime_factors fs (unat n) \<and>
    factor_number root L n w =
      Some (lc_print L newline (fold (print_factor L) fs (lc_print L (decimal (unat n) @ '':'') w)))"
  by (rule factor_number_result [OF assms])

theorem factors_printed_witness:
  "\<exists>fs. prime_factors fs 360 \<and> factor_number demo_root demo_libc 360 [] =
     Some (fold (print_factor demo_libc) fs [CallPrint (decimal 360 @ '':'')] @ [CallPrint newline])"
proof -
  have "(2 :: u64) \<le> 360" by simp
  from factors_printed [OF demo_root_ok this, of demo_libc "[]"] show ?thesis by (simp add: demo_libc_def)
qed

text \<open>
  C36: a variable set by \<^verbatim>\<open>export\<close> is not seen by the shell itself: setenv is the host's and
  getenv the platform's. Without a HOME in the environment the shell was started with, the lines
  \<^verbatim>\<open>export HOME=h\<close> and \<^verbatim>\<open>cd ~\<close> of the profile set the host's variable and stay in the directory.
\<close>

theorem export_not_seen:
  assumes "wrap_getenv env HOME = None" "shell_word (''HOME='' @ h)"
  shows "u_bind (shellParseLine K L env fdOut (''export'' @ '' '' @ (''HOME='' @ h) @ [CHR 0x0A])) (\<lambda>_.
      shellParseLine K L env fdOut (''cd'' @ '' '' @ ''~'' @ [CHR 0x0A])) s w =
    Inr ((Back (), s), lc_setenv L HOME h w)"
proof -
  have c: "shell_word ''cd''" "shell_word ''export''" "shell_word ''~''" by (simp_all add: shell_word_def)
  have e: "shellExport L (''HOME='' @ h) s w = Inr ((Back (), s), lc_setenv L HOME h w)"
    using export_word [of HOME h L s w] assms(2) by (simp add: HOME_def)
  have t: "cd_target env ''~'' = None" using assms(1) by (simp add: cd_target_def)
  show ?thesis
    unfolding parse_command [OF c(2) assms(2)] parse_command [OF c(1,3)]
    using e cd_nowhere [OF c(3) t] by (simp add: u_bind_def)
qed

theorem export_not_seen_witness:
  "u_bind (shellParseLine (demo_os 0 7) demo_libc None 3 (''export'' @ '' '' @ (''HOME='' @ ''/home'') @ [CHR 0x0A])) (\<lambda>_.
      shellParseLine (demo_os 0 7) demo_libc None 3 (''cd'' @ '' '' @ ''~'' @ [CHR 0x0A])) demo_server [] =
    Inr ((Back (), demo_server), [CallSetenv HOME ''/home''])"
proof -
  have g: "shell_word (''HOME='' @ ''/home'')" by (simp add: shell_word_def)
  have e: "wrap_getenv None HOME = None" by (simp add: wrap_getenv_def)
  show ?thesis
    unfolding export_not_seen [OF e g] by (simp add: demo_libc_def)
qed

text \<open>
  C40: the program rabbits overruns the platform. Where memory and the dynamic linker do not
  fail, a reachable system with a program leads by turns of the loop of rabbits, each a fork
  step followed on both sides, to a reachable system with \<open>2 ^ n\<close> programs, for every \<open>n\<close> for which
  the positive pids of 32 bits are enough: for \<open>2 ^ n\<close> programs beside the processes there were and the pids the tables still hold. Each copy of the
  server has \<open>n\<close> processes more; so, when these are fewer than the programs, two of the programs
  have the same process number.
\<close>

theorem rabbits_multiply:
  assumes "reach K fs ip port S" "roomy S" "sy_nodes S p = Some s" "p \<noteq> sy_daemon S" "loads K"
    and "card (dom (sy_nodes S)) + 2 ^ n + length (sv_procs s) + n \<le> 2 ^ 31"
  shows "\<exists>T R. rtranclp (rabbit_step K) S T \<and> reach K fs ip port T \<and> p \<in> R \<and> card R = 2 ^ n \<and>
    (\<forall>q \<in> R. \<exists>t. sy_nodes T q = Some t \<and> callerPID t q \<noteq> None \<and> length (sv_procs t) = length (sv_procs s) + n) \<and>
    (length (sv_procs s) + n < 2 ^ n \<longrightarrow>
      (\<exists>q \<in> R. \<exists>q' \<in> R. q \<noteq> q' \<and>
        (\<exists>t t' i. sy_nodes T q = Some t \<and> callerPID t q = Some i \<and> sy_nodes T q' = Some t' \<and> callerPID t' q' = Some i)))"
proof -
  from reach_ok [OF assms(1)] assms(3,4) obtain i where "callerPID s p = Some i" by (auto dest: system_okD)
  with assms(3,4) have r: "rabbit S (length (sv_procs s)) p" using callerPID_Some by (fastforce simp: rabbit_def)
  have "quiet_reach K fs ip port S" using assms(1,2) by (simp add: quiet_reach_def)
  from rabbits_double [OF this assms(5) r assms(6)] obtain T R where T: "rtranclp (rabbit_step K) S T" "quiet_reach K fs ip port T" "p \<in> R" "finite R"
    "card R = 2 ^ n" "\<forall>q \<in> R. rabbit T (length (sv_procs s) + n) q"
    by blast
  have "\<forall>q \<in> R. \<exists>t. sy_nodes T q = Some t \<and> callerPID t q \<noteq> None \<and> length (sv_procs t) = length (sv_procs s) + n"
    using T(6) by (auto simp: rabbit_def)
  moreover have "length (sv_procs s) + n < card R \<longrightarrow> (\<exists>q \<in> R. \<exists>q' \<in> R. q \<noteq> q' \<and>
      (\<exists>t t' i. sy_nodes T q = Some t \<and> callerPID t q = Some i \<and> sy_nodes T q' = Some t' \<and> callerPID t' q' = Some i))"
    using same_number [OF T(4) _ T(6)] by simp
  ultimately show ?thesis
    using T(1-3,5) unfolding quiet_reach_def by (intro exI [of _ T] exI [of _ R]) simp
qed

theorem rabbits_multiply_witness:
  "\<exists>T R. reach (demo_os 0 0) demo_fs (Some init_path) 51717 T \<and> card (R :: int set) = 2 ^ 20 \<and>
    (\<exists>q \<in> R. \<exists>q' \<in> R. q \<noteq> q' \<and>
      (\<exists>t t' i. sy_nodes T q = Some t \<and> callerPID t q = Some i \<and> sy_nodes T q' = Some t' \<and> callerPID t' q' = Some i))"
proof -
  have n: "sy_nodes demo_system2 7 = Some demo_open" "7 \<noteq> sy_daemon demo_system2" "length (sv_procs demo_open) + 20 < 2 ^ 20"
    by (simp_all add: demo_system2_def demo_system_def demo_open_fields)
  have "dom (sy_nodes demo_system2) = {7, 10}" by (auto simp: demo_system2_def demo_system_def split: if_splits)
  then have "card (dom (sy_nodes demo_system2)) + 2 ^ 20 + length (sv_procs demo_open) + 20 \<le> 2 ^ 31"
    by (simp add: demo_open_fields)
  from rabbits_multiply [OF demo_reach2 demo_roomy2 n(1,2) loads_demo_os this] n(3) show ?thesis by blast
qed

section \<open>Further facts of the components\<close>

text \<open>
  A shell in a process of the platform, whatever its terminal sends. Started in a
  reachable system, it leaves one after any number of lines (without the process, if it
  ended), so its copy of the server keeps all that holds of reachable systems, and what it
  did to the copy are steps of its own process in the sense of \<open>Kernel\<close>: the files and directories of
  the other processes and the devices are untouched.
\<close>

lemma shell_in_system:
  assumes "reach K fs ip port S" "roomy S" "sy_nodes S p = Some s" "p \<noteq> sy_daemon S"
    and "u_iter (shell_turn (as_proc p K) L env fdIn fdOut) n b s (sy_world S) = Inr ((r, s'), w')" "room s'"
    and "mem \<longrightarrow> malloc_total K"
  shows "reach K fs ip port (set_node S p (ended r s') w') \<and>
    (\<exists>pid. callerPID s p = Some pid \<and> kernel_steps mem pid (abs_kernel s) (abs_kernel s') \<and>
      (\<forall>q. q \<noteq> pid \<longrightarrow> ak_procs (abs_kernel s') ! q = ak_procs (abs_kernel s) ! q))"
proof -
  let ?m = "u_iter (shell_turn (as_proc p K) L env fdIn fdOut) n b"
  have f: "follows (as_proc p K) False ?m" by (intro follow)
  from reach_ok [OF assms(1)] assms(3,4) obtain pid where
    ok: "server_inv s" "0 < p" "callerPID s p = Some pid" by (auto dest: system_okD)
  from as_proc_refines [OF f ok assms(5-7)]
  have k: "kernel_steps mem pid (abs_kernel s) (abs_kernel s')" .
  with follows_reach [OF f assms(1-6)] kernel_steps_others [OF k] ok(3) show ?thesis by blast
qed

text \<open>
  The process numbers of the platform are not unique: after a fork, the next fork of
  the parent and the next fork of the child report the same number.
\<close>

lemma fork_numbers_collide:
  assumes "processFork (as_fork p c K) pid s w = Inr ((n, sp), w1)"
    and "processFork (as_fork c 0 K) pid s w = Inr ((0, sc), w2)" "0 < c"
    and "processFork (as_fork p c2 K) pid sp w3 = Inr ((m, sp2), w4)" "0 < c2" "m \<noteq> -1"
    and "processFork (as_fork c c3 K) pid2 sc w5 = Inr ((m', sc2), w6)" "0 < c3" "m' \<noteq> -1"
  shows "m = m'"
proof -
  from fork_sides [OF assms(1-3)] have "length (sv_procs sp) = length (sv_procs sc)" by auto
  moreover from processFork_result [OF assms(4)] assms(5,6) have "m = c_int (length (sv_procs sp))" by auto
  moreover from processFork_result [OF assms(7)] assms(8,9) have "m' = c_int (length (sv_procs sc))" by auto
  ultimately show ?thesis by simp
qed

text \<open>
  Loading a program from a mounted file system never faults. It succeeds only for an
  absolute path, and then the process has the file's base name, its directory as working
  directory and the path below the mount; otherwise it is as good as new.
\<close>

lemma load_program:
  shows "\<exists>b q w'. loadFileFS K (fileLocalPath K \<lparr>containerPath = Some (c @ ''/'')\<rparr>) (Some p) Process_new w = Inr ((b, q), w') \<and>
    proc_wf q \<and> pr_fds q = [] \<and>
    (if b then is_absolute p \<and> pr_state q = PrLoaded \<and> pr_name q = Some (base_name p) \<and>
       pr_cwd q = Some (dirname p) \<and> pr_path q = Some (c @ ''/'' @ p)
     else pr_state q = PrNone \<and> pr_name q = None \<and> pr_cwd q = None \<and> pr_dlHandle q = None)"
proof -
  let ?loc = "fileLocalPath K \<lparr>containerPath = Some (c @ ''/'')\<rparr>"
  obtain b q w' where l: "loadFileFS K ?loc (Some p) Process_new w = Inr ((b, q), w')"
    using mounted.loadFileFS_no_fault [OF proc_wf_new]
    by (cases "loadFileFS K ?loc (Some p) Process_new w" rule: result_cases)
      (simp_all add: mounted.loadFileFS_no_fault [OF proc_wf_new])
  have wf: "proc_wf q" by (rule proc_wf_loadFileFS [OF l proc_wf_new])
  show ?thesis
  proof (cases b)
    case True
    with l have t: "loadFileFS K ?loc (Some p) Process_new w = Inr ((True, q), w')" by simp
    from loadFileFS_True [OF t] obtain l' v where "?loc p w = Inr (Some l', v)" "pr_path q = Some l'"
      "is_absolute p" "pr_state q = PrLoaded" "pr_fds q = []" by (auto simp: Process_new_def)
    moreover from this(1) have "l' = c @ ''/'' @ p"
      by (auto simp: fileLocalPath_def split: prod.splits if_splits)
    ultimately show ?thesis using t True wf mounted.loadFileFS_name [OF t]
      by (intro exI [of _ True] exI [of _ q] exI [of _ w']) simp
  next
    case False
    with l have t: "loadFileFS K ?loc (Some p) Process_new w = Inr ((False, q), w')" by simp
    from loadFileFS_False [OF t proc_wf_new] have "pr_state q = PrNone" "pr_fds q = []"
      by (simp_all add: Process_new_def)
    with t wf show ?thesis
      by (intro exI [of _ False] exI [of _ q] exI [of _ w']) (simp add: proc_wf_def)
  qed
qed

text \<open>
  After a successful mount every path of the platform is the path of one file below
  the mounted directory, and different paths are different files.
\<close>

lemma mounted_paths:
  assumes "mountFile K root FSDirect_new w = Inr ((True, fs), w1)" "malloc_total K"
  shows "\<exists>c. (root = c \<or> root = c @ ''/'') \<and> (\<forall>p v. \<exists>v'. fileLocalPath K fs p v = Inr (Some (c @ ''/'' @ p), v')) \<and>
    (\<forall>p q l v v1 u u1. fileLocalPath K fs p v = Inr (Some l, v1) \<longrightarrow> fileLocalPath K fs q u = Inr (Some l, u1) \<longrightarrow> p = q)"
proof -
  from mountFile_mounted [OF assms(1)] obtain c where
    fs: "fs = \<lparr>containerPath = Some (c @ ''/'')\<rparr>" and root: "root = c \<or> root = c @ ''/''" by auto
  have l: "\<exists>v'. fileLocalPath K fs p v = Inr (Some (c @ ''/'' @ p), v')" for p v
    using assms(2) by (auto simp: fs fileLocalPath_def malloc_total_def case_prod_unfold)
  show ?thesis
    by (intro exI [of _ c] conjI allI impI root l) (unfold fs, rule mounted.loc_inj)
qed

text \<open>
  Making a job of a string that has no word in it, as the empty run before a separator
  gives, reads through the null pointer, and only that does.
\<close>

lemma blank_job_faults:
  "jobFromString s = Inl e \<longleftrightarrow> e = NullDeref \<and> (\<forall>c \<in> set s. c = CHR '' '' \<or> c = CHR 0x0A)"
  unfolding jobFromString_fault by (auto simp: job_delims_def)

text \<open>
  Of a message its last byte is dropped whatever it is, then the line ends before it:
  a line ended by LF or by CR LF is read as its text, and a message without a line end
  loses its last character.
\<close>

lemma message_text:
  assumes "NUL \<notin> set m" "m \<noteq> []" "\<not> is_line_end (last m)"
  shows "tcp_text (m @ [x]) = m \<and> tcp_text (m @ [CHR 0x0D, CHR 0x0A]) = m"
  using tcp_text_line [OF assms] tcp_text_crlf [OF assms] by simp

text \<open>
  mountFile takes as directories what has one bit of the file type set: of the types
  of \<^verbatim>\<open>st_mode\<close> (the upper four bits) not only directories (4) but also block devices (6)
  and sockets (12) are mounted; regular files (8), character devices (2) are not.
\<close>

lemma mount_accepts:
  assumes "malloc_total K" "px_stat_mode K p w = Some (kind * 2 ^ 12 + perms)" "perms < 2 ^ 12" "kind < 16" "p \<noteq> []"
  shows "\<exists>b fs w'. mountFile K p FSDirect_new w = Inr ((b, fs), w') \<and> (b \<longleftrightarrow> kind \<in> {4, 5, 6, 7, 12, 13, 14, 15})"
proof -
  have "bit (kind * 2 ^ 12 + perms) 14 \<longleftrightarrow> odd ((kind * 2 ^ 12 + perms) div 2 ^ 14)"
    by (simp add: bit_iff_odd)
  also have "(kind * 2 ^ 12 + perms) div 2 ^ 14 = kind div 4"
    using assms(3) by (simp add: div_mult2_eq [of _ "2 ^ 12" 4, simplified])
  also have "odd (kind div 4) \<longleftrightarrow> kind \<in> {4, 5, 6, 7, 12, 13, 14, 15}"
  proof -
    have "\<forall>k \<in> {..<16::nat}. odd (k div 4) \<longleftrightarrow> k \<in> {4, 5, 6, 7, 12, 13, 14, 15}" by code_simp
    with assms(4) show ?thesis by blast
  qed
  finally show ?thesis
    using assms(1,2,5) by (auto simp: mountFile_def FSDirect_new_def S_IFDIR_bit_def Let_def malloc_total_def case_prod_unfold)
qed

text \<open>
  Closing a TCP socket object leaves it in the state of a listening one, so a second
  close calls close(2) on the same number again, which may by then be another file.
\<close>

lemma socket_closed_twice:
  assumes "sk_type sk = TypeTcp" "sk_sockFd sk = Some fd" "sock_close K sk w = Inr ((True, sk'), w1)"
  shows "sk_state sk' = StateServer \<and> w1 = snd (px_close K fd w) \<and>
    (\<exists>b sk''. sock_close K sk' w1 = Inr ((b, sk''), snd (px_close K fd w1)))"
proof -
  from assms have s: "sk' = sk\<lparr>sk_state := StateServer, sk_dir := DirectionNone\<rparr>" "w1 = snd (px_close K fd w)"
    by (auto simp: sock_close_def sock_fd_def case_prod_unfold split: if_splits)
  with assms(1,2) show ?thesis by (simp add: sock_close_def sock_fd_def case_prod_unfold ex_bool_eq)
qed

text \<open>
  The name of a new terminal is that of the lowest free number below 1024, or an
  existing name when there is none, and it fits the 16 bytes it is printed into.
\<close>

lemma terminal_names:
  "\<exists>j < 1024. tty_search 1023 0 ds = tty_name j \<and> length (tty_name j) < 16 \<and>
     (\<forall>l < j. dev_exists (tty_name l) ds) \<and>
     (dev_exists (tty_name j) ds \<longrightarrow> (\<forall>l < 1024. dev_exists (tty_name l) ds))"
proof -
  from tty_search_result [of 0 1023 ds] show ?thesis
  proof (elim disjE exE conjE)
    fix j assume j: "j \<le> 0 + 1023" "tty_search 1023 0 ds = tty_name j" "\<not> dev_exists (tty_name j) ds"
      "\<forall>l. 0 \<le> l \<longrightarrow> l < j \<longrightarrow> dev_exists (tty_name l) ds"
    then have "j < 1024" by simp
    with j tty_name_length [of j] show ?thesis by (intro exI [of _ j]) simp
  next
    assume a: "tty_search 1023 0 ds = tty_name (0 + 1023)"
      "\<forall>l. 0 \<le> l \<longrightarrow> l \<le> 0 + 1023 \<longrightarrow> dev_exists (tty_name l) ds"
    with tty_name_length [of 1023] show ?thesis by (intro exI [of _ 1023]) simp
  qed
qed

text \<open>
  The daemon closes the descriptors from the limit down to 1, in this order, and never
  descriptor 0.
\<close>

lemma daemon_closes:
  assumes "startDaemon K w = (None, w')"
  shows "\<exists>v. w' = fold (\<lambda>fd u. snd (px_close K fd u)) (rev [1 .. px_open_max K v]) v"
proof -
  have c: "close_down K n u = fold (\<lambda>fd u. snd (px_close K fd u)) (rev [1 .. int n]) u" for n u
  proof (induction n arbitrary: u)
    case 0
    show ?case by simp
  next
    case (Suc n)
    have "[1 .. int (Suc n)] = [1 .. int n] @ [int (Suc n)]"
      using upto_rec2 [of 1 "int (Suc n)"] by simp
    with Suc show ?case by simp
  qed
  from assms obtain v where w': "w' = close_down K (nat (px_open_max K v)) v"
    by (auto simp: startDaemon_def case_prod_unfold split: if_splits)
  have "[1 .. int (nat (px_open_max K v))] = [1 .. px_open_max K v]"
    by (cases "0 \<le> px_open_max K v") simp_all
  with w' c show ?thesis by metis
qed

text \<open>
  Every token of any line is not empty and has its length, but the block allocated for
  its text is one byte shorter than the string copied into it.
\<close>

lemma token_blocks_too_small:
  "\<forall>t \<in> set (tokenize s). tk_str t \<noteq> [] \<and> tk_length t = length (tk_str t) \<and>
     cstr_size (tk_str t) = tk_block t + 1"
  using tokenize_exact [of s] by (simp add: cstr_size_def)

text \<open>
  The destructor of the device table terminates and leaves exactly the entries that
  are still in use, in their order.
\<close>

lemma device_destructor:
  assumes "dev_inv es"
  shows "dev_destroy 0 es = filter (\<lambda>e. 0 < de_refCount e) es"
  by (rule dev_destroy_used [OF assms]) simp

end
